(* ===== verification/Prelude.thy ===== *)
theory Prelude
  imports Main "HOL-Library.Word" "HOL-Library.AList"
begin

section \<open>Shared vocabulary\<close>

text \<open>
  What every component theory uses: the C++ standard library operations on
  \<open>std::string\<close> that the sources call, the 32-bit \<open>int\<close> with its undefined overflow, and
  the lemma collections that carry the component proofs.
  \<^item> \<open>guard_simps\<close>: what the guards of the operations reduce to;
  \<^item> \<open>inv_intros\<close>: one rule per operation, "this operation keeps the invariant".
\<close>

named_theorems guard_simps
named_theorems inv_intros

subsection \<open>Strings\<close>

text \<open>
  A \<open>std::string\<close> is a byte string, here a \<^typ>\<open>string\<close>. \<open>std_prefix p s\<close> is
  \<open>s.rfind(p, 0) == 0\<close> (and \<open>s.starts_with(p)\<close>), \<open>drop n s\<close> is \<open>s.substr(n)\<close>,
  \<open>find_char c s\<close> is \<open>s.find(c)\<close> with \<open>None\<close> for \<open>npos\<close>, and
  \<open>std_contains p s\<close> is \<open>s.find(p) != npos\<close>.
\<close>

definition std_prefix :: "string \<Rightarrow> string \<Rightarrow> bool" where
  "std_prefix p s \<longleftrightarrow> take (length p) s = p"

fun find_char :: "char \<Rightarrow> string \<Rightarrow> nat option" where
  "find_char c [] = None"
| "find_char c (x # xs) = (if x = c then Some 0 else map_option Suc (find_char c xs))"

fun std_contains :: "string \<Rightarrow> string \<Rightarrow> bool" where
  "std_contains p [] = (p = [])"
| "std_contains p (x # xs) = (std_prefix p (x # xs) \<or> std_contains p xs)"

abbreviation newline :: char where
  "newline \<equiv> CHR 0x0A"

abbreviation carriage_return :: char where
  "carriage_return \<equiv> CHR 0x0D"

lemma std_prefix_append [simp]: "std_prefix p (p @ s)"
  by (simp add: std_prefix_def)

lemma std_prefix_iff: "std_prefix p s \<longleftrightarrow> (\<exists>r. s = p @ r)"
  by (metis append_take_drop_id std_prefix_append std_prefix_def)

lemma find_char_None: "find_char c s = None \<longleftrightarrow> c \<notin> set s"
  by (induction s) auto

lemma find_char_SomeD:
  "find_char c s = Some i \<Longrightarrow> i < length s \<and> s = take i s @ c # drop (Suc i) s \<and> c \<notin> set (take i s)"
  by (induction s arbitrary: i) (auto split: if_splits)

lemma find_char_append_in: "c \<in> set s \<Longrightarrow> find_char c (s @ t) = find_char c s"
  by (induction s) auto

lemma find_char_at: "c \<notin> set a \<Longrightarrow> find_char c (a @ c # b) = Some (length a)"
  by (induction a) auto

lemma std_contains_iff: "std_contains p s \<longleftrightarrow> (\<exists>a b. s = a @ p @ b)"
proof (induction s)
  case (Cons x xs)
  have "(\<exists>a b. x # xs = a @ p @ b) \<longleftrightarrow> std_prefix p (x # xs) \<or> (\<exists>a b. xs = a @ p @ b)"
    unfolding std_prefix_iff by (metis append_Cons append_Nil list.exhaust list.inject)
  with Cons show ?case by simp
qed simp

lemma std_contains_self [simp]: "std_contains p p"
  unfolding std_contains_iff by (metis append.left_neutral append.right_neutral)

subsection \<open>The C \<open>int\<close>\<close>

text \<open>
  An \<open>int\<close> of the program is a 32-bit word read with \<^const>\<open>sint\<close>. Signed overflow is
  undefined behaviour in C++, so the operations that may overflow return \<open>None\<close> then.
\<close>

type_synonym c_int = "32 word"

definition c_int_of :: "int \<Rightarrow> c_int option" where
  "c_int_of i = (if - (2 ^ 31) \<le> i \<and> i < 2 ^ 31 then Some (word_of_int i) else None)"

definition c_add :: "c_int \<Rightarrow> c_int \<Rightarrow> c_int option" where
  "c_add a b = c_int_of (sint a + sint b)"

definition c_abs :: "c_int \<Rightarrow> c_int option" where
  "c_abs a = c_int_of \<bar>sint a\<bar>"

lemma sint_c_int_bounds: "- (2 ^ 31) \<le> sint (a :: c_int)" "sint (a :: c_int) < 2 ^ 31"
  using sint_ge [of a] sint_lt [of a] by simp_all

lemma sint_c_int_of: "c_int_of i = Some w \<Longrightarrow> sint w = i"
  by (auto simp: c_int_of_def sint_sbintrunc' signed_take_bit_int_eq_self split: if_splits)

lemma c_int_of_None: "c_int_of i = None \<longleftrightarrow> i < - (2 ^ 31) \<or> 2 ^ 31 \<le> i"
  by (auto simp: c_int_of_def)

lemma c_add_None: "c_add a b = None \<longleftrightarrow> sint a + sint b < - (2 ^ 31) \<or> 2 ^ 31 \<le> sint a + sint b"
  by (simp add: c_add_def c_int_of_None)

lemma c_abs_None: "c_abs a = None \<longleftrightarrow> sint a = - (2 ^ 31)"
  using sint_c_int_bounds [of a] by (auto simp: c_abs_def c_int_of_None)

lemma sint_c_abs: "c_abs a = Some b \<Longrightarrow> sint b = \<bar>sint a\<bar>"
  unfolding c_abs_def by (rule sint_c_int_of)

subsection \<open>Lists\<close>

lemma find_SomeD:
  "find P xs = Some x \<Longrightarrow> P x \<and> x \<in> set xs"
  by (auto simp: find_Some_iff)

lemma find_None_all: "find P xs = None \<longleftrightarrow> (\<forall>x \<in> set xs. \<not> P x)"
  by (auto simp: find_None_iff)

lemma distinct_remove1_filter: "distinct xs \<Longrightarrow> remove1 x xs = filter (\<lambda>y. y \<noteq> x) xs"
  by (simp add: distinct_remove1_removeAll removeAll_filter_not_eq) (rule filter_cong, auto)

end
