(* ===== verification/Json.thy ===== *)
theory Json
  imports Prelude
begin

section \<open>JSON values (\<open>base::Value\<close>)\<close>

text \<open>
  The values the program exchanges: what a \<open>base::Value\<close> can hold, a
  \<open>base::DictValue\<close> as an association list with one entry per key, and the accessors the
  sources call (\<open>Find\<close>, \<open>FindString\<close>, \<open>FindDict\<close>, \<open>FindInt\<close>, \<open>FindBool\<close>,
  \<open>FindList\<close>, \<open>Set\<close>). An accessor of one type misses a value of another type. A
  \<open>double\<close> is its 64 bits: nothing here computes with one.
\<close>

datatype json =
    JNone
  | JBool bool
  | JInt c_int
  | JDouble "64 word"
  | JString string
  | JList "json list"
  | JDict "(string \<times> json) list"

type_synonym dict = "(string \<times> json) list"

definition Find :: "dict \<Rightarrow> string \<Rightarrow> json option" where
  "Find d k = map_of d k"

definition FindString :: "dict \<Rightarrow> string \<Rightarrow> string option" where
  "FindString d k = (case Find d k of Some (JString s) \<Rightarrow> Some s | _ \<Rightarrow> None)"

definition FindInt :: "dict \<Rightarrow> string \<Rightarrow> c_int option" where
  "FindInt d k = (case Find d k of Some (JInt i) \<Rightarrow> Some i | _ \<Rightarrow> None)"

definition FindBool :: "dict \<Rightarrow> string \<Rightarrow> bool option" where
  "FindBool d k = (case Find d k of Some (JBool b) \<Rightarrow> Some b | _ \<Rightarrow> None)"

definition FindDict :: "dict \<Rightarrow> string \<Rightarrow> dict option" where
  "FindDict d k = (case Find d k of Some (JDict e) \<Rightarrow> Some e | _ \<Rightarrow> None)"

definition FindList :: "dict \<Rightarrow> string \<Rightarrow> json list option" where
  "FindList d k = (case Find d k of Some (JList l) \<Rightarrow> Some l | _ \<Rightarrow> None)"

definition Set :: "string \<Rightarrow> json \<Rightarrow> dict \<Rightarrow> dict" where
  "Set k v d = AList.update k v d"

lemmas find_defs = Find_def FindString_def FindInt_def FindBool_def FindDict_def FindList_def

lemma Find_Set [simp]: "Find (Set k v d) j = (if j = k then Some v else Find d j)"
  by (simp add: Find_def Set_def update_conv')

lemma Find_empty [simp]: "Find [] k = None"
  by (simp add: Find_def)

lemma FindString_Set [simp]:
  "FindString (Set k v d) j =
     (if j = k then (case v of JString s \<Rightarrow> Some s | _ \<Rightarrow> None) else FindString d j)"
  by (simp add: FindString_def split: json.splits)

lemma FindString_empty [simp]: "FindString [] k = None"
  by (simp add: FindString_def)

lemma keys_Set: "distinct (map fst d) \<Longrightarrow> distinct (map fst (Set k v d))"
  by (simp add: Set_def distinct_update)

end
