(* ===== verification/Base_Lib.thy ===== *)
theory Base_Lib
  imports Json
begin

section \<open>The Chromium libraries the program calls\<close>

text \<open>
  The program is built inside Chromium and calls its \<open>base\<close>, \<open>url\<close> and \<open>net\<close>
  libraries, whose sources are not in the repository. Each such function is a field of the
  record \<open>base_lib\<close>, and every definition that uses one takes the record as its argument
  \<open>L\<close>. What a theorem needs of a function is a named predicate on the record, stating the
  documented behaviour of that function; \<open>ref_lib\<close> is an executable instance on which the
  witnesses evaluate.
\<close>

text \<open>What the program reads off a parsed \<open>GURL\<close>.\<close>

record gurl =
  gurl_is_valid :: bool
  gurl_spec :: string
  gurl_host :: string
  gurl_is_http_or_https :: bool

record base_lib =
  lib_string_to_int :: "string \<Rightarrow> c_int option"       \<comment> \<open>\<open>base::StringToInt\<close>\<close>
  lib_string_to_uint :: "string \<Rightarrow> 32 word option"    \<comment> \<open>\<open>base::StringToUint\<close>\<close>
  lib_number_to_string :: "int \<Rightarrow> string"             \<comment> \<open>\<open>base::NumberToString\<close>\<close>
  lib_eq_ci :: "string \<Rightarrow> string \<Rightarrow> bool"             \<comment> \<open>\<open>base::EqualsCaseInsensitiveASCII\<close>\<close>
  lib_starts_ci :: "string \<Rightarrow> string \<Rightarrow> bool"
    \<comment> \<open>\<open>base::StartsWith(s, prefix, INSENSITIVE_ASCII)\<close>\<close>
  lib_split :: "string \<Rightarrow> string list"
    \<comment> \<open>\<open>base::SplitString(s, ",", TRIM_WHITESPACE, SPLIT_WANT_NONEMPTY)\<close>\<close>
  lib_trim :: "string \<Rightarrow> string"                      \<comment> \<open>\<open>base::TrimString(s, " \t", TRIM_ALL)\<close>\<close>
  lib_quote :: "string \<Rightarrow> string"                     \<comment> \<open>\<open>base::GetQuotedJSONString\<close>\<close>
  lib_json_read :: "string \<Rightarrow> dict option"            \<comment> \<open>\<open>base::JSONReader::ReadDict(s, RFC)\<close>\<close>
  lib_json_write :: "json \<Rightarrow> string option"           \<comment> \<open>\<open>base::JSONWriter::Write\<close>\<close>
  lib_gurl :: "string \<Rightarrow> gurl"                        \<comment> \<open>the constructor \<open>GURL(s)\<close>\<close>
  lib_base64_encode :: "8 word list \<Rightarrow> string"        \<comment> \<open>\<open>base::Base64Encode\<close>\<close>
  lib_base64_decode :: "string \<Rightarrow> 8 word list option" \<comment> \<open>\<open>base::Base64Decode\<close>\<close>
  lib_net_error :: "int \<Rightarrow> string"                    \<comment> \<open>\<open>net::ErrorToString\<close>\<close>

subsection \<open>Documented behaviour, as named hypotheses\<close>

text \<open>
  \<open>SplitString\<close> with these options: an empty string has no piece, a piece with no comma
  and no blank at its ends is its own only piece, and the pieces of two strings joined by a
  comma are the pieces of the one, then of the other. No piece is empty or holds a comma.
\<close>

definition plain_piece :: "string \<Rightarrow> bool" where
  "plain_piece s \<longleftrightarrow> s \<noteq> [] \<and> (\<forall>c \<in> set s. c \<noteq> CHR '','' \<and> c \<notin> {CHR '' '', CHR 0x09, CHR 0x0A, CHR 0x0B, CHR 0x0C, CHR 0x0D})"

definition split_law :: "base_lib \<Rightarrow> bool" where
  "split_law L \<longleftrightarrow>
     lib_split L [] = [] \<and>
     (\<forall>a b. lib_split L (a @ CHR '','' # b) = lib_split L a @ lib_split L b) \<and>
     (\<forall>s. \<forall>p \<in> set (lib_split L s). p \<noteq> [] \<and> CHR '','' \<notin> set p \<and> lib_split L p = [p]) \<and>
     (\<forall>s. plain_piece s \<longrightarrow> lib_split L s = [s])"

text \<open>The JSON writer escapes control characters, so it writes no newline and no carriage return.\<close>

definition json_line_law :: "base_lib \<Rightarrow> bool" where
  "json_line_law L \<longleftrightarrow> (\<forall>v s. lib_json_write L v = Some s \<longrightarrow> newline \<notin> set s \<and> carriage_return \<notin> set s \<and> s \<noteq> [])"

text \<open>Different integers print differently, and an \<open>int\<close> reads back as it was printed.\<close>

definition number_law :: "base_lib \<Rightarrow> bool" where
  "number_law L \<longleftrightarrow> inj (lib_number_to_string L)"

definition int_law :: "base_lib \<Rightarrow> bool" where
  "int_law L \<longleftrightarrow> (\<forall>i. lib_string_to_int L (lib_number_to_string L (sint i)) = Some i)"

text \<open>Case-insensitive comparison accepts equal strings, and a quoted string is not empty.\<close>

definition eq_ci_refl :: "base_lib \<Rightarrow> bool" where
  "eq_ci_refl L \<longleftrightarrow> (\<forall>s. lib_eq_ci L s s)"

subsection \<open>An executable instance\<close>

definition ascii_lower :: "char \<Rightarrow> char" where
  "ascii_lower c =
     (if 65 \<le> (of_char c :: nat) \<and> (of_char c :: nat) \<le> 90 then char_of ((of_char c :: nat) + 32) else c)"

definition is_blank :: "char \<Rightarrow> bool" where
  "is_blank c \<longleftrightarrow> c \<in> {CHR '' '', CHR 0x09, CHR 0x0A, CHR 0x0B, CHR 0x0C, CHR 0x0D}"

definition strip_blanks :: "string \<Rightarrow> string" where
  "strip_blanks s = rev (dropWhile is_blank (rev (dropWhile is_blank s)))"

fun split_commas :: "string \<Rightarrow> string \<Rightarrow> string list" where
  "split_commas acc [] = [rev acc]"
| "split_commas acc (c # cs) =
     (if c = CHR '','' then rev acc # split_commas [] cs else split_commas (c # acc) cs)"

definition split_pieces :: "string \<Rightarrow> string list" where
  "split_pieces s = filter (\<lambda>p. p \<noteq> []) (map strip_blanks (split_commas [] s))"

definition digit_value :: "char \<Rightarrow> nat option" where
  "digit_value c =
     (if 48 \<le> (of_char c :: nat) \<and> (of_char c :: nat) \<le> 57 then Some (of_char c - 48) else None)"

fun digits_value :: "nat \<Rightarrow> string \<Rightarrow> nat option" where
  "digits_value n [] = Some n"
| "digits_value n (c # cs) =
     (case digit_value c of None \<Rightarrow> None | Some d \<Rightarrow> digits_value (10 * n + d) cs)"

definition parse_int :: "string \<Rightarrow> c_int option" where
  "parse_int s =
     (case s of
        [] \<Rightarrow> None
      | c # cs \<Rightarrow>
          if c = CHR ''-'' then
            (if cs = [] then None
             else case digits_value 0 cs of None \<Rightarrow> None | Some n \<Rightarrow> c_int_of (- int n))
          else (case digits_value 0 s of None \<Rightarrow> None | Some n \<Rightarrow> c_int_of (int n)))"

definition parse_uint :: "string \<Rightarrow> 32 word option" where
  "parse_uint s =
     (if s = [] then None
      else case digits_value 0 s of
             None \<Rightarrow> None
           | Some n \<Rightarrow> if n < 2 ^ 32 then Some (word_of_nat n) else None)"

fun show_nat :: "nat \<Rightarrow> string" where
  "show_nat n =
     (if n < 10 then [char_of (48 + n)] else show_nat (n div 10) @ [char_of (48 + n mod 10)])"

definition show_int :: "int \<Rightarrow> string" where
  "show_int i = (if i < 0 then CHR ''-'' # show_nat (nat (- i)) else show_nat (nat i))"

declare show_nat.simps [simp del]

definition plain_gurl :: "string \<Rightarrow> gurl" where
  "plain_gurl s =
     \<lparr>gurl_is_valid = CHR '':'' \<in> set s, gurl_spec = s,
      gurl_host = takeWhile (\<lambda>c. c \<noteq> CHR ''/'' \<and> c \<noteq> CHR '':'') (drop (length ''http://'') s),
      gurl_is_http_or_https = std_prefix ''http://'' s \<or> std_prefix ''https://'' s\<rparr>"

text \<open>
  The instance writes a dictionary as a bracketed tag and reads only what it wrote for the
  empty dictionary; the theorems never depend on more than the named laws.
\<close>

definition ref_lib :: base_lib where
  "ref_lib =
     \<lparr>lib_string_to_int = parse_int, lib_string_to_uint = parse_uint,
      lib_number_to_string = show_int,
      lib_eq_ci = (\<lambda>a b. map ascii_lower a = map ascii_lower b),
      lib_starts_ci = (\<lambda>s p. map ascii_lower (take (length p) s) = map ascii_lower p),
      lib_split = split_pieces,
      lib_trim = (\<lambda>s. rev (dropWhile is_blank (rev (dropWhile is_blank s)))),
      lib_quote = (\<lambda>s. CHR 0x22 # s @ [CHR 0x22]),
      lib_json_read = (\<lambda>s. if s = ''{}'' then Some [] else None),
      lib_json_write = (\<lambda>v. case v of JDict [] \<Rightarrow> Some ''{}'' | _ \<Rightarrow> None),
      lib_gurl = plain_gurl,
      lib_base64_encode = (\<lambda>bs. map (\<lambda>b. char_of (unat b)) bs),
      lib_base64_decode = (\<lambda>s. Some (map (\<lambda>c. of_char c) s)),
      lib_net_error = (\<lambda>e. ''net::ERR'')\<rparr>"

lemma strip_blanks_plain:
  assumes "plain_piece s" shows "strip_blanks s = s"
proof -
  have "\<not> is_blank (hd s)" "\<not> is_blank (last s)" "s \<noteq> []"
    using assms by (auto simp: plain_piece_def is_blank_def)
  then have "dropWhile is_blank s = s" "dropWhile is_blank (rev s) = rev s"
    by (cases s, auto) (cases s rule: rev_cases, auto)
  then show ?thesis by (simp add: strip_blanks_def)
qed

lemma split_commas_append:
  "split_commas acc (a @ CHR '','' # b) = split_commas acc a @ split_commas [] b"
  by (induction a arbitrary: acc) auto

lemma split_commas_none: "CHR '','' \<notin> set s \<Longrightarrow> split_commas acc s = [rev acc @ s]"
  by (induction s arbitrary: acc) auto

lemma split_commas_pieces: "CHR '','' \<notin> set acc \<Longrightarrow> p \<in> set (split_commas acc s) \<Longrightarrow> CHR '','' \<notin> set p"
  by (induction acc s rule: split_commas.induct) (auto split: if_splits)

lemma set_strip_blanks: "set (strip_blanks s) \<subseteq> set s"
proof -
  have "set (dropWhile is_blank xs) \<subseteq> set xs" for xs :: string
    by (meson set_dropWhileD subsetI)
  then show ?thesis
    by (metis (no_types, lifting) set_rev strip_blanks_def subset_trans)
qed

lemma strip_blanks_idem: "strip_blanks (strip_blanks s) = strip_blanks s"
proof -
  define t where "t = dropWhile is_blank s"
  define u where "u = rev (dropWhile is_blank (rev t))"
  have t: "t = [] \<or> \<not> is_blank (hd t)"
    unfolding t_def by (metis hd_dropWhile)
  have pre: "\<exists>v. t = u @ v"
    unfolding u_def by (metis rev_append rev_rev_ident takeWhile_dropWhile_id)
  have "dropWhile is_blank u = u"
  proof (cases u)
    case (Cons x xs)
    with pre t have "\<not> is_blank x" by auto
    with Cons show ?thesis by simp
  qed simp
  moreover have "dropWhile is_blank (rev u) = rev u"
    unfolding u_def by simp
  ultimately have "strip_blanks u = u"
    by (simp add: strip_blanks_def)
  then show ?thesis by (simp add: strip_blanks_def t_def u_def)
qed

lemma split_pieces_clean: "p \<in> set (split_pieces s) \<Longrightarrow> p \<noteq> [] \<and> CHR '','' \<notin> set p"
  using set_strip_blanks split_commas_pieces [of "[]" _ s]
  by (fastforce simp: split_pieces_def)

lemma split_pieces_again:
  assumes p: "p \<in> set (split_pieces s)" shows "split_pieces p = [p]"
proof -
  from p obtain q where q: "p = strip_blanks q" "p \<noteq> []"
    by (auto simp: split_pieces_def)
  with split_pieces_clean [OF p] show ?thesis
    by (simp add: split_pieces_def split_commas_none strip_blanks_idem)
qed

lemma split_pieces_plain:
  assumes "plain_piece s" shows "split_pieces s = [s]"
proof -
  from assms have "CHR '','' \<notin> set s" and ne: "s \<noteq> []"
    unfolding plain_piece_def by blast+
  then have "split_commas [] s = [s]"
    using split_commas_none [of s "[]"] by simp
  with ne show ?thesis
    by (simp add: split_pieces_def strip_blanks_plain [OF assms])
qed

lemma split_pieces_Nil: "split_pieces [] = []"
  by (simp add: split_pieces_def strip_blanks_def)

lemma split_pieces_append: "split_pieces (a @ CHR '','' # b) = split_pieces a @ split_pieces b"
  by (simp add: split_pieces_def split_commas_append)

lemma lib_split_ref_lib: "lib_split ref_lib = split_pieces"
  by (simp add: ref_lib_def)

lemma split_law_ref_lib: "split_law ref_lib"
  unfolding split_law_def lib_split_ref_lib
  by (intro conjI allI ballI impI split_pieces_Nil split_pieces_append split_pieces_again
      split_pieces_plain conjunct1 [OF split_pieces_clean] conjunct2 [OF split_pieces_clean])

lemma json_line_law_ref_lib: "json_line_law ref_lib"
  by (auto simp: json_line_law_def ref_lib_def split: json.splits list.splits)

lemma digits_value_append:
  "digits_value n (a @ b) = (case digits_value n a of None \<Rightarrow> None | Some m \<Rightarrow> digits_value m b)"
  by (induction a arbitrary: n) (auto split: option.split)

lemma digit_value_digit: "d < 10 \<Longrightarrow> digit_value (char_of (48 + d)) = Some d"
  by (simp add: digit_value_def)

lemma show_nat_nonempty [simp]: "show_nat n \<noteq> []"
  by (subst show_nat.simps) simp

lemma digits_value_show_nat: "digits_value 0 (show_nat n) = Some n"
proof (induction n rule: show_nat.induct)
  case (1 n)
  show ?case
  proof (cases "n < 10")
    case True
    then show ?thesis by (subst show_nat.simps) (simp add: digit_value_digit)
  next
    case False
    with 1 have "digits_value 0 (show_nat (n div 10) @ [char_of (48 + n mod 10)]) = Some (10 * (n div 10) + n mod 10)"
      by (simp add: digits_value_append digit_value_digit)
    with False show ?thesis by (subst show_nat.simps) simp
  qed
qed

lemma show_nat_hd: "hd (show_nat n) \<noteq> CHR ''-''"
proof (induction n rule: show_nat.induct)
  case (1 n)
  show ?case
  proof (cases "n < 10")
    case True
    have "char_of (48 + n) \<noteq> CHR ''-''"
    proof
      assume "char_of (48 + n) = CHR ''-''"
      then have "(of_char (char_of (48 + n) :: char) :: nat) = of_char (CHR ''-'')" by simp
      with True show False by simp
    qed
    with True show ?thesis by (subst show_nat.simps) simp
  next
    case False
    with 1 show ?thesis by (subst show_nat.simps) simp
  qed
qed

lemma parse_int_show_int:
  "parse_int (show_int i) = c_int_of i"
proof (cases "i < 0")
  case True
  then show ?thesis
    by (simp add: parse_int_def show_int_def digits_value_show_nat)
next
  case False
  obtain c cs where s: "show_nat (nat i) = c # cs" by (cases "show_nat (nat i)") auto
  with show_nat_hd [of "nat i"] digits_value_show_nat [of "nat i"] False show ?thesis
    by (simp add: parse_int_def show_int_def)
qed

lemma c_int_of_sint: "c_int_of (sint i) = Some i"
  using sint_c_int_bounds [of i] by (simp add: c_int_of_def)

lemma int_law_ref_lib: "int_law ref_lib"
  by (simp add: int_law_def ref_lib_def parse_int_show_int c_int_of_sint)

lemma number_law_ref_lib: "number_law ref_lib"
proof -
  have "i = j" if "show_int i = show_int j" for i j
  proof -
    have "i < 0 \<longleftrightarrow> j < 0"
      using that show_nat_hd by (metis list.sel(1) show_int_def)
    then have "show_nat (nat \<bar>i\<bar>) = show_nat (nat \<bar>j\<bar>)"
      using that by (auto simp: show_int_def split: if_splits)
    then have "nat \<bar>i\<bar> = nat \<bar>j\<bar>" by (metis digits_value_show_nat option.inject)
    with \<open>i < 0 \<longleftrightarrow> j < 0\<close> show ?thesis by linarith
  qed
  then show ?thesis by (auto simp: number_law_def ref_lib_def intro: injI)
qed

end
