(* ===== verification/Browser_Result.thy ===== *)
theory Browser_Result
  imports Json
begin

section \<open>Statuses and results (\<open>core/browser_result.h\<close>)\<close>

text \<open>
  Every asynchronous operation of the browser core answers with a \<open>BrowserStatus\<close> or with a
  \<open>BrowserResult\<close>: a status and an optional value. The callers read \<open>*result.value\<close> as soon
  as the status is \<open>kOk\<close>, so the invariant of a result is \<open>result_wf\<close>: the status is ok
  exactly when there is a value.
\<close>

datatype BrowserStatusCode =
    kOk
  | kInvalidArgument
  | kSessionNotReady
  | kTabNotFound
  | kNoActiveFrame
  | kNavigationFailed
  | kScreenshotFailed
  | kInternalError
  | kTimeout
  | kNotFound

fun status_code_value :: "BrowserStatusCode \<Rightarrow> int" where
  "status_code_value kOk = 0"
| "status_code_value kInvalidArgument = 1"
| "status_code_value kSessionNotReady = 2"
| "status_code_value kTabNotFound = 3"
| "status_code_value kNoActiveFrame = 4"
| "status_code_value kNavigationFailed = 5"
| "status_code_value kScreenshotFailed = 6"
| "status_code_value kInternalError = 7"
| "status_code_value kTimeout = 8"
| "status_code_value kNotFound = 9"

lemma status_code_value_inject: "status_code_value a = status_code_value b \<Longrightarrow> a = b"
  by (cases a; cases b; simp)

text \<open>An enumeration is ordered by its values.\<close>

instantiation BrowserStatusCode :: linorder
begin

definition less_eq_BrowserStatusCode :: "BrowserStatusCode \<Rightarrow> BrowserStatusCode \<Rightarrow> bool" where
  "less_eq_BrowserStatusCode a b \<longleftrightarrow> status_code_value a \<le> status_code_value b"

definition less_BrowserStatusCode :: "BrowserStatusCode \<Rightarrow> BrowserStatusCode \<Rightarrow> bool" where
  "less_BrowserStatusCode a b \<longleftrightarrow> status_code_value a < status_code_value b"

instance
  by standard
    (auto simp: less_eq_BrowserStatusCode_def less_BrowserStatusCode_def
      intro: status_code_value_inject)

end

lemma kOk_least: "kOk \<le> c"
  by (cases c) (simp_all add: less_eq_BrowserStatusCode_def)

record BrowserStatus =
  st_code :: BrowserStatusCode
  st_message :: string

definition status_ok :: "BrowserStatus \<Rightarrow> bool" where
  "status_ok s \<longleftrightarrow> st_code s = kOk"

definition StatusOk :: BrowserStatus where
  "StatusOk = \<lparr>st_code = kOk, st_message = ''''\<rparr>"

definition StatusError :: "BrowserStatusCode \<Rightarrow> string \<Rightarrow> BrowserStatus" where
  "StatusError c m = \<lparr>st_code = c, st_message = m\<rparr>"

record 'a BrowserResult =
  res_status :: BrowserStatus
  res_value :: "'a option"

definition result_ok :: "'a BrowserResult \<Rightarrow> bool" where
  "result_ok r \<longleftrightarrow> status_ok (res_status r)"

definition ResultOk :: "'a \<Rightarrow> 'a BrowserResult" where
  "ResultOk v = \<lparr>res_status = StatusOk, res_value = Some v\<rparr>"

definition ResultError :: "BrowserStatusCode \<Rightarrow> string \<Rightarrow> 'a BrowserResult" where
  "ResultError c m = \<lparr>res_status = StatusError c m, res_value = None\<rparr>"

definition result_wf :: "'a BrowserResult \<Rightarrow> bool" where
  "result_wf r \<longleftrightarrow> (result_ok r \<longleftrightarrow> res_value r \<noteq> None)"

lemma status_simps [simp]:
  "status_ok StatusOk"
  "status_ok (StatusError c m) \<longleftrightarrow> c = kOk"
  "st_message (StatusError c m) = m"
  "st_code (StatusError c m) = c"
  by (simp_all add: status_ok_def StatusOk_def StatusError_def)

lemma result_simps [simp]:
  "result_ok (ResultOk v)" "res_value (ResultOk v) = Some v" "res_status (ResultOk v) = StatusOk"
  "result_ok (ResultError c m) \<longleftrightarrow> c = kOk" "res_value (ResultError c m) = None"
  "res_status (ResultError c m) = StatusError c m"
  by (simp_all add: result_ok_def ResultOk_def ResultError_def)

lemma result_distinct [simp]:
  "ResultOk v \<noteq> ResultError c m" "ResultError c m \<noteq> ResultOk v" "ResultOk v = ResultOk w \<longleftrightarrow> v = w"
  by (auto simp: ResultOk_def ResultError_def)

lemma result_wf_Ok [intro, simp]: "result_wf (ResultOk v)"
  by (simp add: result_wf_def)

lemma result_wf_Error [simp]: "result_wf (ResultError c m) \<longleftrightarrow> c \<noteq> kOk"
  by (simp add: result_wf_def)

section \<open>The option and value structures\<close>

datatype EvaluateKind = EvalJson | EvalUndefined

record EvaluateResult =
  ev_kind :: EvaluateKind
  ev_json :: string

record CookieInfo =
  ci_name :: string
  ci_value :: string
  ci_domain :: string
  ci_path :: string
  ci_secure :: bool
  ci_http_only :: bool
  ci_expires_unix_seconds :: "64 word"   \<comment> \<open>the bits of the \<open>double\<close>\<close>

record RefOptions =
  ref_ref :: string

record TypeOptions =
  type_ref :: string
  type_text :: string
  type_clear :: bool

record KeyOptions =
  key_key :: string

record SelectOptions =
  select_ref :: string
  select_values :: "string list"

record DragOptions =
  drag_start_ref :: string
  drag_end_ref :: string

record ScrollOptions =
  scroll_delta_x :: c_int
  scroll_delta_y :: c_int

record WaitOptions =
  wait_selector :: "string option"
  wait_text :: "string option"
  wait_timeout_ms :: c_int

definition default_wait_options :: WaitOptions where
  "default_wait_options = \<lparr>wait_selector = None, wait_text = None, wait_timeout_ms = 30000\<rparr>"

record CookieListOptions =
  cl_url :: "string option"

record CookieGetOptions =
  cg_name :: string

record CookieSetOptions =
  cs_name :: string
  cs_value :: string
  cs_domain :: "string option"
  cs_path :: "string option"
  cs_url :: "string option"
  cs_secure :: bool
  cs_http_only :: bool

record CookieDeleteOptions =
  cd_name :: string
  cd_url :: "string option"
  cd_domain :: "string option"

end
