(* ===== verification/Mcp_Tool.thy ===== *)
theory Mcp_Tool
  imports Json
begin

section \<open>Tool definitions (\<open>mcp/mcp_tool.h\<close>, \<open>mcp/mcp_tool.cc\<close>)\<close>

text \<open>
  A tool is a name, a description, a JSON schema and a handler. A handler runs on the
  controller (here its state \<open>'c\<close>) with the arguments and a callback for the result. Either it
  runs the callback before it returns, which is \<open>Some (content, is_error)\<close>, or it keeps the
  callback for later, which is \<open>None\<close>.
\<close>

type_synonym tool_result = "json list \<times> bool"

type_synonym 'c ToolHandler = "'c \<Rightarrow> dict \<Rightarrow> 'c \<times> tool_result option"

record 'c MCPToolDef =
  tool_name :: string
  tool_description :: string
  tool_input_schema :: dict
  tool_handler :: "'c ToolHandler"

definition TextContent :: "string \<Rightarrow> json list" where
  "TextContent s = [JDict (Set ''text'' (JString s) (Set ''type'' (JString ''text'') []))]"

definition ImageContent :: "string \<Rightarrow> string \<Rightarrow> json list" where
  "ImageContent base64_data mime_type =
     [JDict (Set ''mimeType'' (JString mime_type)
        (Set ''data'' (JString base64_data) (Set ''type'' (JString ''image'') [])))]"

definition SchemaObject :: "dict \<Rightarrow> string list \<Rightarrow> dict" where
  "SchemaObject properties required =
     (let schema = Set ''properties'' (JDict properties) (Set ''type'' (JString ''object'') [])
      in if required \<noteq> [] then Set ''required'' (JList (map JString required)) schema else schema)"

definition described :: "string \<Rightarrow> dict \<Rightarrow> dict" where
  "described desc prop = (if desc \<noteq> [] then Set ''description'' (JString desc) prop else prop)"

definition SchemaString :: "string \<Rightarrow> dict" where
  "SchemaString desc = described desc (Set ''type'' (JString ''string'') [])"

definition SchemaInt :: "string \<Rightarrow> dict" where
  "SchemaInt desc = described desc (Set ''type'' (JString ''integer'') [])"

definition SchemaBool :: "string \<Rightarrow> dict" where
  "SchemaBool desc = described desc (Set ''type'' (JString ''boolean'') [])"

text \<open>
  A schema is well formed when it is an object schema, its properties have string, integer or
  boolean types, and every name it requires is a property.
\<close>

definition property_schema_ok :: "json \<Rightarrow> bool" where
  "property_schema_ok v =
     (case v of
        JDict p \<Rightarrow> FindString p ''type'' \<in> {Some ''string'', Some ''integer'', Some ''boolean'', Some ''array''}
      | _ \<Rightarrow> False)"

definition schema_ok :: "dict \<Rightarrow> bool" where
  "schema_ok schema \<longleftrightarrow>
     FindString schema ''type'' = Some ''object'' \<and>
     (case FindDict schema ''properties'' of
        None \<Rightarrow> False
      | Some props \<Rightarrow>
          distinct (map fst props) \<and> list_all (\<lambda>kv. property_schema_ok (snd kv)) props \<and>
          (case FindList schema ''required'' of
             None \<Rightarrow> True
           | Some req \<Rightarrow> list_all (\<lambda>r. \<exists>k \<in> set (map fst props). r = JString k) req))"

lemma FindString_described:
  "FindString (described desc p) ''type'' = FindString p ''type''"
  by (simp add: described_def)

lemma property_schema_ok_simps [simp]:
  "property_schema_ok (JDict (SchemaString d))"
  "property_schema_ok (JDict (SchemaInt d))"
  "property_schema_ok (JDict (SchemaBool d))"
  by (simp_all add: property_schema_ok_def SchemaString_def SchemaInt_def SchemaBool_def
      FindString_described)

lemma schema_ok_SchemaObject:
  assumes "distinct (map fst props)" "list_all (\<lambda>kv. property_schema_ok (snd kv)) props"
    and "set required \<subseteq> set (map fst props)"
  shows "schema_ok (SchemaObject props required)"
proof (cases "required = []")
  case True
  with assms show ?thesis
    by (simp add: schema_ok_def SchemaObject_def FindDict_def FindList_def)
next
  case False
  have "list_all (\<lambda>r. \<exists>k \<in> set (map fst props). r = JString k) (map JString required)"
    using assms(3) by (auto simp: list_all_iff)
  with False assms(1,2) show ?thesis
    by (simp add: schema_ok_def SchemaObject_def FindDict_def FindList_def)
qed

end
