(* ===== verification/Mcp_Server.thy ===== *)
theory Mcp_Server
  imports Mcp_Tool "HOL-Library.Multiset"
begin

section \<open>The MCP server (\<open>mcp/mcp_server.h\<close>, \<open>mcp/mcp_server.cc\<close>)\<close>

text \<open>
  The server answers JSON-RPC messages and runs the tools one at a time. A response callback
  is a number; running it appends the number and the response to \<open>srv_sent\<close>, so that the
  order and the count of the answers can be stated. \<open>srv_bound\<close> holds the completion callback
  bound for the tool that is running, which its handler has kept for later.
\<close>

type_synonym response_callback = nat

record PendingToolCall =
  call_name :: string
  call_args :: dict
  call_id :: json
  call_callback :: response_callback

record 'c MCPServer =
  srv_controller :: "'c option"
  srv_tools :: "'c MCPToolDef list"
  srv_initialized :: bool
  srv_shutdown_on_stdio_close :: bool
  srv_in_progress :: bool
  srv_queue :: "PendingToolCall list"
  srv_bound :: "(json \<times> response_callback) list"
  srv_sent :: "(response_callback \<times> dict option) list"

definition new_server :: "'c MCPServer" where
  "new_server =
     \<lparr>srv_controller = None, srv_tools = [], srv_initialized = False,
      srv_shutdown_on_stdio_close = True, srv_in_progress = False, srv_queue = [],
      srv_bound = [], srv_sent = []\<rparr>"

definition SetController :: "'c option \<Rightarrow> 'c MCPServer \<Rightarrow> 'c MCPServer" where
  "SetController c s = s\<lparr>srv_controller := c\<rparr>"

definition RegisterTool :: "'c MCPToolDef \<Rightarrow> 'c MCPServer \<Rightarrow> 'c MCPServer" where
  "RegisterTool t s = s\<lparr>srv_tools := srv_tools s @ [t]\<rparr>"

subsection \<open>Responses\<close>

definition run_response :: "response_callback \<Rightarrow> dict option \<Rightarrow> 'c MCPServer \<Rightarrow> 'c MCPServer" where
  "run_response cb r s = s\<lparr>srv_sent := srv_sent s @ [(cb, r)]\<rparr>"

definition result_response :: "json \<Rightarrow> dict \<Rightarrow> dict" where
  "result_response i result =
     Set ''result'' (JDict result) (Set ''id'' i (Set ''jsonrpc'' (JString ''2.0'') []))"

definition error_response :: "json \<Rightarrow> c_int \<Rightarrow> string \<Rightarrow> dict" where
  "error_response i code message =
     Set ''error'' (JDict (Set ''message'' (JString message) (Set ''code'' (JInt code) [])))
       (Set ''id'' i (Set ''jsonrpc'' (JString ''2.0'') []))"

definition SendNoResponse :: "response_callback \<Rightarrow> 'c MCPServer \<Rightarrow> 'c MCPServer" where
  "SendNoResponse cb s = run_response cb None s"

definition SendResult :: "json \<Rightarrow> dict \<Rightarrow> response_callback \<Rightarrow> 'c MCPServer \<Rightarrow> 'c MCPServer" where
  "SendResult i result cb s = run_response cb (Some (result_response i result)) s"

definition SendError :: "json \<Rightarrow> c_int \<Rightarrow> string \<Rightarrow> response_callback \<Rightarrow> 'c MCPServer \<Rightarrow> 'c MCPServer" where
  "SendError i code message cb s = run_response cb (Some (error_response i code message)) s"

lemmas send_defs = SendNoResponse_def SendResult_def SendError_def run_response_def

subsection \<open>The tool calls\<close>

definition tool_call_result :: "tool_result \<Rightarrow> dict" where
  "tool_call_result r =
     (let result = Set ''content'' (JList (fst r)) []
      in if snd r then Set ''isError'' (JBool True) result else result)"

text \<open>
  \<open>ExecuteNextToolCall\<close> and \<open>OnToolCallComplete\<close> call each other: a handler that runs its
  callback before it returns starts the next call on the way.
\<close>

function (sequential)
  ExecuteNextToolCall :: "'c MCPServer \<Rightarrow> 'c MCPServer"
and
  OnToolCallComplete :: "json \<Rightarrow> response_callback \<Rightarrow> tool_result \<Rightarrow> 'c MCPServer \<Rightarrow> 'c MCPServer"
where
  "ExecuteNextToolCall s =
     (case srv_queue s of
        [] \<Rightarrow> s\<lparr>srv_in_progress := False\<rparr>
      | call # rest \<Rightarrow>
          (let s1 = s\<lparr>srv_in_progress := True, srv_queue := rest\<rparr>
           in case srv_controller s of
                None \<Rightarrow>
                  OnToolCallComplete (call_id call) (call_callback call)
                    (TextContent ''No browser controller'', True) s1
              | Some c \<Rightarrow>
                  (case find (\<lambda>t. tool_name t = call_name call) (srv_tools s) of
                     Some t \<Rightarrow>
                       (case tool_handler t c (call_args call) of
                          (c', None) \<Rightarrow>
                            s1\<lparr>srv_controller := Some c',
                               srv_bound := srv_bound s @ [(call_id call, call_callback call)]\<rparr>
                        | (c', Some r) \<Rightarrow>
                            OnToolCallComplete (call_id call) (call_callback call) r
                              (s1\<lparr>srv_controller := Some c'\<rparr>))
                   | None \<Rightarrow>
                       ExecuteNextToolCall
                         (SendError (call_id call) (- 32602) (''Unknown tool: '' @ call_name call)
                            (call_callback call) s1))))"
| "OnToolCallComplete i cb r s = ExecuteNextToolCall (SendResult i (tool_call_result r) cb s)"
  by pat_completeness auto

termination
  by (relation "measure (\<lambda>x. case x of Inl s \<Rightarrow> 2 * length (srv_queue s)
                                      | Inr (i, cb, r, s) \<Rightarrow> 2 * length (srv_queue s) + 1)")
     (auto simp: send_defs)

declare ExecuteNextToolCall.simps [simp del] OnToolCallComplete.simps [simp del]

definition HandleToolsCall :: "dict \<Rightarrow> json \<Rightarrow> response_callback \<Rightarrow> 'c MCPServer \<Rightarrow> 'c MCPServer" where
  "HandleToolsCall params i cb s =
     (case FindString params ''name'' of
        None \<Rightarrow> SendError i (- 32602) ''Missing tool name'' cb s
      | Some name \<Rightarrow>
          (let args = (case FindDict params ''arguments'' of Some a \<Rightarrow> a | None \<Rightarrow> []);
               s1 = s\<lparr>srv_queue := srv_queue s @
                        [\<lparr>call_name = name, call_args = args, call_id = i, call_callback = cb\<rparr>]\<rparr>
           in if \<not> srv_in_progress s1 then ExecuteNextToolCall s1 else s1))"

text \<open>The handler of a running tool runs the completion callback it kept.\<close>

definition run_bound_callback :: "tool_result \<Rightarrow> 'c MCPServer \<Rightarrow> 'c MCPServer" where
  "run_bound_callback r s =
     (case srv_bound s of
        [] \<Rightarrow> s
      | (i, cb) # rest \<Rightarrow> OnToolCallComplete i cb r (s\<lparr>srv_bound := rest\<rparr>))"

subsection \<open>The message dispatch\<close>

definition initialize_result :: dict where
  "initialize_result =
     Set ''capabilities'' (JDict (Set ''tools'' (JDict (Set ''listChanged'' (JBool False) [])) []))
       (Set ''protocolVersion'' (JString ''2024-11-05'')
         (Set ''serverInfo''
           (JDict (Set ''version'' (JString ''1.0.0'') (Set ''name'' (JString ''browserd'') []))) []))"

definition HandleInitialize :: "dict \<Rightarrow> json \<Rightarrow> response_callback \<Rightarrow> 'c MCPServer \<Rightarrow> 'c MCPServer" where
  "HandleInitialize params i cb s = SendResult i initialize_result cb (s\<lparr>srv_initialized := True\<rparr>)"

definition tool_info :: "'c MCPToolDef \<Rightarrow> json" where
  "tool_info t =
     JDict (Set ''inputSchema'' (JDict (tool_input_schema t))
       (Set ''description'' (JString (tool_description t))
         (Set ''name'' (JString (tool_name t)) [])))"

definition HandleToolsList :: "json \<Rightarrow> response_callback \<Rightarrow> 'c MCPServer \<Rightarrow> 'c MCPServer" where
  "HandleToolsList i cb s =
     SendResult i (Set ''tools'' (JList (map tool_info (srv_tools s))) []) cb s"

definition OnMessage :: "dict \<Rightarrow> response_callback \<Rightarrow> 'c MCPServer \<Rightarrow> 'c MCPServer" where
  "OnMessage message cb s =
     (let id_ptr = Find message ''id'';
          i = (case id_ptr of Some v \<Rightarrow> v | None \<Rightarrow> JNone);
          params = (case FindDict message ''params'' of Some p \<Rightarrow> p | None \<Rightarrow> []);
          if_request = (\<lambda>f. if id_ptr \<noteq> None then f s else SendNoResponse cb s)
      in case FindString message ''method'' of
           None \<Rightarrow> if_request (SendError i (- 32600) ''Invalid Request'' cb)
         | Some m \<Rightarrow>
             if m = ''initialize'' then if_request (HandleInitialize params i cb)
             else if m = ''notifications/initialized'' then
               SendNoResponse cb (s\<lparr>srv_initialized := True\<rparr>)
             else if m = ''ping'' then if_request (SendResult i [] cb)
             else if \<not> srv_initialized s then
               if_request (SendError i (- 32002) ''Server not initialized'' cb)
             else if m = ''tools/list'' then if_request (HandleToolsList i cb)
             else if m = ''tools/call'' then if_request (HandleToolsCall params i cb)
             else if_request (SendError i (- 32601) (''Method not found: '' @ m) cb))"

definition OnTransportClosed :: "('c \<Rightarrow> 'c) \<Rightarrow> 'c MCPServer \<Rightarrow> 'c MCPServer" where
  "OnTransportClosed Shutdown s =
     (if srv_shutdown_on_stdio_close s then
        (case srv_controller s of Some c \<Rightarrow> s\<lparr>srv_controller := Some (Shutdown c)\<rparr> | None \<Rightarrow> s)
      else s)"

section \<open>What the tool loop does\<close>

text \<open>
  The calls that wait for an answer, in the order they will get it: the one that is running,
  then the queue. One turn of the tool loop answers a prefix of them, in order, each with a
  response of its own id (\<open>loop_progress\<close>), and leaves the rest of the server alone.
\<close>

definition call_key :: "PendingToolCall \<Rightarrow> json \<times> response_callback" where
  "call_key c = (call_id c, call_callback c)"

definition waiting :: "'c MCPServer \<Rightarrow> (json \<times> response_callback) list" where
  "waiting s = srv_bound s @ map call_key (srv_queue s)"

definition rpc_response :: "json \<Rightarrow> dict \<Rightarrow> bool" where
  "rpc_response i resp \<longleftrightarrow>
     FindString resp ''jsonrpc'' = Some ''2.0'' \<and> Find resp ''id'' = Some i \<and>
     (Find resp ''result'' \<noteq> None \<longleftrightarrow> Find resp ''error'' = None)"

definition answers :: "json \<times> response_callback \<Rightarrow> response_callback \<times> dict option \<Rightarrow> bool" where
  "answers call sent \<longleftrightarrow>
     fst sent = snd call \<and> (case snd sent of Some resp \<Rightarrow> rpc_response (fst call) resp | None \<Rightarrow> False)"

definition same_server :: "'c MCPServer \<Rightarrow> 'c MCPServer \<Rightarrow> bool" where
  "same_server s s' \<longleftrightarrow>
     srv_tools s' = srv_tools s \<and> srv_initialized s' = srv_initialized s \<and>
     srv_shutdown_on_stdio_close s' = srv_shutdown_on_stdio_close s"

definition loop_progress ::
  "(json \<times> response_callback) list \<Rightarrow> 'c MCPServer \<Rightarrow> 'c MCPServer \<Rightarrow> bool" where
  "loop_progress w s s' \<longleftrightarrow>
     (\<exists>fin rs. w = fin @ waiting s' \<and> srv_sent s' = srv_sent s @ rs \<and> list_all2 answers fin rs)"

lemma rpc_result_response [simp]: "rpc_response i (result_response i r)"
  by (simp add: rpc_response_def result_response_def)

lemma rpc_error_response [simp]: "rpc_response i (error_response i c m)"
  by (simp add: rpc_response_def error_response_def)

lemma send_simps [simp]:
  "srv_queue (SendResult i r cb s) = srv_queue s" "srv_bound (SendResult i r cb s) = srv_bound s"
  "srv_queue (SendError i c m cb s) = srv_queue s" "srv_bound (SendError i c m cb s) = srv_bound s"
  "srv_queue (SendNoResponse cb s) = srv_queue s" "srv_bound (SendNoResponse cb s) = srv_bound s"
  "srv_in_progress (SendResult i r cb s) = srv_in_progress s"
  "srv_in_progress (SendError i c m cb s) = srv_in_progress s"
  "srv_in_progress (SendNoResponse cb s) = srv_in_progress s"
  "srv_initialized (SendResult i r cb s) = srv_initialized s"
  "srv_initialized (SendError i c m cb s) = srv_initialized s"
  "srv_initialized (SendNoResponse cb s) = srv_initialized s"
  "srv_tools (SendResult i r cb s) = srv_tools s" "srv_tools (SendError i c m cb s) = srv_tools s"
  "srv_tools (SendNoResponse cb s) = srv_tools s"
  "srv_shutdown_on_stdio_close (SendResult i r cb s) = srv_shutdown_on_stdio_close s"
  "srv_shutdown_on_stdio_close (SendError i c m cb s) = srv_shutdown_on_stdio_close s"
  "srv_shutdown_on_stdio_close (SendNoResponse cb s) = srv_shutdown_on_stdio_close s"
  "srv_sent (SendResult i r cb s) = srv_sent s @ [(cb, Some (result_response i r))]"
  "srv_sent (SendError i c m cb s) = srv_sent s @ [(cb, Some (error_response i c m))]"
  "srv_sent (SendNoResponse cb s) = srv_sent s @ [(cb, None)]"
  by (simp_all add: send_defs)

lemma waiting_simps [simp]:
  "waiting (SendResult i r cb s) = waiting s" "waiting (SendError i c m cb s) = waiting s"
  "waiting (SendNoResponse cb s) = waiting s"
  "waiting (s\<lparr>srv_initialized := b\<rparr>) = waiting s"
  "waiting (s\<lparr>srv_in_progress := b\<rparr>) = waiting s"
  "waiting (s\<lparr>srv_controller := ctl\<rparr>) = waiting s"
  "waiting (s\<lparr>srv_shutdown_on_stdio_close := b\<rparr>) = waiting s"
  by (simp_all add: waiting_def)

text \<open>A step that answers the first waiting call and goes on.\<close>

lemma loop_progress_answer:
  assumes "loop_progress w t s'" "srv_sent t = srv_sent s @ [(cb, Some resp)]" "rpc_response i resp"
  shows "loop_progress ((i, cb) # w) s s'"
proof -
  from assms(1,2) obtain fin rs where
    "w = fin @ waiting s'" "srv_sent s' = srv_sent s @ (cb, Some resp) # rs" "list_all2 answers fin rs"
    by (auto simp: loop_progress_def)
  then show ?thesis
    using assms(3) unfolding loop_progress_def
    by (intro exI [of _ "(i, cb) # fin"] exI [of _ "(cb, Some resp) # rs"]) (simp add: answers_def)
qed

lemma loop_progress_refl: "w = waiting s' \<Longrightarrow> srv_sent s' = srv_sent s \<Longrightarrow> loop_progress w s s'"
  unfolding loop_progress_def by (intro exI [of _ "[]"]) simp

definition loop_ok :: "'c MCPServer \<Rightarrow> bool" where
  "loop_ok s \<longleftrightarrow>
     length (srv_bound s) \<le> 1 \<and> (srv_in_progress s \<longleftrightarrow> srv_bound s \<noteq> []) \<and>
     (\<not> srv_in_progress s \<longrightarrow> srv_queue s = [])"

definition loop_result :: "(json \<times> response_callback) list \<Rightarrow> 'c MCPServer \<Rightarrow> 'c MCPServer \<Rightarrow> bool" where
  "loop_result w s s' \<longleftrightarrow> loop_progress w s s' \<and> loop_ok s' \<and> same_server s s'"

lemma loop_result_answer:
  "loop_result w t s' \<Longrightarrow> srv_sent t = srv_sent s @ [(cb, Some resp)] \<Longrightarrow> rpc_response i resp \<Longrightarrow>
   same_server s t \<Longrightarrow> loop_result ((i, cb) # w) s s'"
  unfolding loop_result_def same_server_def using loop_progress_answer by metis

lemma tool_loop:
  "srv_bound s = [] \<Longrightarrow> loop_result (waiting s) s (ExecuteNextToolCall s)"
  "srv_bound s = [] \<Longrightarrow> loop_result ((i, cb) # waiting s) s (OnToolCallComplete i cb r s)"
proof (induction s and i cb r s rule: ExecuteNextToolCall_OnToolCallComplete.induct)
  case (1 s)
  show ?case
  proof (cases "srv_queue s")
    case Nil
    then show ?thesis using 1(4)
      by (simp add: ExecuteNextToolCall.simps loop_result_def loop_progress_refl loop_ok_def same_server_def)
  next
    case (Cons call rest)
    define s1 where "s1 = s\<lparr>srv_in_progress := True, srv_queue := rest\<rparr>"
    have s1: "srv_sent s1 = srv_sent s" "srv_bound s1 = []" "same_server s s1"
      using 1(4) by (simp_all add: s1_def same_server_def)
    have w: "waiting s = (call_id call, call_callback call) # waiting s1"
      using Cons 1(4) by (simp add: waiting_def s1_def call_key_def)
    note step = ExecuteNextToolCall.simps [of s] Cons list.case Let_def
    show ?thesis
    proof (cases "srv_controller s")
      case None
      then have "loop_result ((call_id call, call_callback call) # waiting s1) s1 (ExecuteNextToolCall s)"
        using 1(1) [OF Cons s1_def None] s1 by (simp add: step s1_def)
      with w s1 show ?thesis
        by (simp add: loop_result_def loop_progress_def same_server_def)
    next
      case (Some c)
      show ?thesis
      proof (cases "find (\<lambda>t. tool_name t = call_name call) (srv_tools s)")
        case None
        let ?t = "SendError (call_id call) (- 32602) (''Unknown tool: '' @ call_name call)
                            (call_callback call) s1"
        have "loop_result (waiting s1) ?t (ExecuteNextToolCall s)"
          using 1(2) [OF Cons s1_def Some None] s1 by (simp add: step s1_def Some None)
        then show ?thesis
          unfolding w
          by (rule loop_result_answer [OF _ _ rpc_error_response])
              (use s1 in \<open>simp_all add: same_server_def\<close>)
      next
        case found: (Some t)
        show ?thesis
        proof (cases "tool_handler t c (call_args call)")
          case (Pair c' y)
          show ?thesis
          proof (cases y)
            case None
            then show ?thesis using 1(4) Cons
              by (auto simp: step Some found Pair loop_result_def loop_ok_def same_server_def
                  loop_progress_def waiting_def call_key_def)
          next
            case (Some r)
            let ?t = "s1\<lparr>srv_controller := Some c'\<rparr>"
            have "loop_result ((call_id call, call_callback call) # waiting ?t) ?t (ExecuteNextToolCall s)"
              using 1(3) [OF Cons s1_def \<open>srv_controller s = Some c\<close> found Pair [symmetric] Some] s1
              by (simp add: step s1_def \<open>srv_controller s = Some c\<close> found Pair Some)
            with w s1 show ?thesis
              by (simp add: loop_result_def loop_progress_def same_server_def)
          qed
        qed
      qed
    qed
  qed
next
  case (2 i cb r s)
  have "loop_result (waiting s) (SendResult i (tool_call_result r) cb s) (OnToolCallComplete i cb r s)"
    using 2 by (simp add: OnToolCallComplete.simps)
  then show ?case
    by (rule loop_result_answer [OF _ _ rpc_result_response]) (simp_all add: same_server_def)
qed

section \<open>Runs of the server\<close>

text \<open>
  A run is a sequence of the things that reach the server: messages of a transport with their
  response callbacks, completions of the running tool, and changes of the controller and of
  the tools. \<open>server_run rcv s\<close>: some run that received \<open>rcv\<close> ends in \<open>s\<close>. Nothing is assumed
  about the tools, the controller or the messages.
\<close>

definition is_tool_call :: "'c MCPServer \<Rightarrow> dict \<Rightarrow> bool" where
  "is_tool_call s m \<longleftrightarrow>
     srv_initialized s \<and> FindString m ''method'' = Some ''tools/call'' \<and> Find m ''id'' \<noteq> None \<and>
     (case FindDict m ''params'' of Some p \<Rightarrow> FindString p ''name'' \<noteq> None | None \<Rightarrow> False)"

inductive server_run :: "(response_callback \<times> dict) list \<Rightarrow> response_callback list \<Rightarrow> 'c MCPServer \<Rightarrow> bool" where
  start: "server_run [] [] new_server"
| message: "server_run rcv calls s \<Longrightarrow>
    server_run (rcv @ [(cb, m)]) (if is_tool_call s m then calls @ [cb] else calls) (OnMessage m cb s)"
| complete: "server_run rcv calls s \<Longrightarrow> srv_bound s \<noteq> [] \<Longrightarrow>
    server_run rcv calls (run_bound_callback r s)"
| controller: "server_run rcv calls s \<Longrightarrow> server_run rcv calls (SetController c s)"
| tool: "server_run rcv calls s \<Longrightarrow> server_run rcv calls (RegisterTool t s)"
| closed: "server_run rcv calls s \<Longrightarrow> server_run rcv calls (OnTransportClosed sd s)"
| start_stdio: "server_run rcv calls s \<Longrightarrow> server_run rcv calls (s\<lparr>srv_shutdown_on_stdio_close := b\<rparr>)"

text \<open>The answer the protocol asks for: none to a notification, one with its own id to a request.\<close>

definition answer_ok :: "dict \<Rightarrow> dict option \<Rightarrow> bool" where
  "answer_ok m r \<longleftrightarrow>
     (case r of
        None \<Rightarrow> Find m ''id'' = None \<or> FindString m ''method'' = Some ''notifications/initialized''
      | Some resp \<Rightarrow> (\<exists>i. Find m ''id'' = Some i \<and> rpc_response i resp))"

text \<open>A message is answered at once, or it is a tool call and joins the ones that wait.\<close>

definition answered_now :: "dict \<Rightarrow> response_callback \<Rightarrow> 'c MCPServer \<Rightarrow> 'c MCPServer \<Rightarrow> bool" where
  "answered_now m cb s s' \<longleftrightarrow>
     (\<exists>r. srv_sent s' = srv_sent s @ [(cb, r)] \<and> answer_ok m r) \<and> srv_bound s' = srv_bound s \<and>
     srv_queue s' = srv_queue s \<and> srv_in_progress s' = srv_in_progress s"

lemma answered_now_sends:
  "Find m ''id'' = Some i \<Longrightarrow> answered_now m cb s (SendResult i r cb s)"
  "Find m ''id'' = Some i \<Longrightarrow> answered_now m cb s (SendError i c msg cb s)"
  "Find m ''id'' = Some i \<Longrightarrow> answered_now m cb s (HandleInitialize p i cb s)"
  "Find m ''id'' = Some i \<Longrightarrow> answered_now m cb s (HandleToolsList i cb s)"
  "Find m ''id'' = Some i \<Longrightarrow> FindString p ''name'' = None \<Longrightarrow>
     answered_now m cb s (HandleToolsCall p i cb s)"
  "Find m ''id'' = None \<Longrightarrow> answered_now m cb s (SendNoResponse cb s)"
  "FindString m ''method'' = Some ''notifications/initialized'' \<Longrightarrow>
     answered_now m cb s (SendNoResponse cb (s\<lparr>srv_initialized := b\<rparr>))"
  by (simp_all add: answered_now_def answer_ok_def HandleInitialize_def HandleToolsList_def
      HandleToolsCall_def)

lemma OnMessage_now:
  assumes "\<not> is_tool_call s m" shows "answered_now m cb s (OnMessage m cb s)"
proof (cases "FindString m ''method''")
  case None
  then show ?thesis
    by (cases "Find m ''id''") (simp_all add: OnMessage_def answered_now_sends)
next
  case (Some k)
  show ?thesis
  proof (cases "Find m ''id''")
    case None
    with Some show ?thesis
      by (simp add: OnMessage_def Let_def answered_now_sends)
  next
    case id: (Some i)
    let ?p = "case FindDict m ''params'' of Some p \<Rightarrow> p | None \<Rightarrow> []"
    have "srv_initialized s \<Longrightarrow> k = ''tools/call'' \<Longrightarrow> FindString ?p ''name'' = None"
      using assms Some id by (simp add: is_tool_call_def split: option.splits)
    with Some id show ?thesis
      by (simp add: OnMessage_def Let_def answered_now_sends)
  qed
qed

lemma OnMessage_call:
  assumes "is_tool_call s m"
  obtains p i name args where "Find m ''id'' = Some i"
    "OnMessage m cb s = HandleToolsCall p i cb s" "FindString p ''name'' = Some name"
  using assms by (auto simp: is_tool_call_def OnMessage_def split: option.splits)

text \<open>
  The three ways a step changes the waiting calls: it leaves them alone, it adds one at the
  end, or the tool loop answers some from the front.
\<close>

lemma HandleToolsCall_loop:
  assumes "loop_ok s" "FindString p ''name'' \<noteq> None"
  shows "loop_progress (waiting s @ [(i, cb)]) s (HandleToolsCall p i cb s) \<and>
    loop_ok (HandleToolsCall p i cb s)"
proof -
  from assms(2) obtain name where name: "FindString p ''name'' = Some name" by auto
  let ?call = "\<lparr>call_name = name,
    call_args = (case FindDict p ''arguments'' of Some a \<Rightarrow> a | None \<Rightarrow> []), call_id = i, call_callback = cb\<rparr>"
  let ?s1 = "s\<lparr>srv_queue := srv_queue s @ [?call]\<rparr>"
  have w: "waiting ?s1 = waiting s @ [(i, cb)]"
    by (simp add: waiting_def call_key_def)
  show ?thesis
  proof (cases "srv_in_progress s")
    case True
    with assms(1) w show ?thesis
      by (simp add: HandleToolsCall_def name Let_def loop_progress_refl loop_ok_def)
  next
    case False
    with assms(1) have "srv_bound ?s1 = []" by (simp add: loop_ok_def)
    from tool_loop(1) [OF this, unfolded w] False show ?thesis
      by (simp add: HandleToolsCall_def name Let_def loop_result_def loop_progress_def)
  qed
qed

lemma run_bound_callback_loop:
  assumes "loop_ok s" "srv_bound s \<noteq> []"
  shows "loop_progress (waiting s) s (run_bound_callback r s) \<and> loop_ok (run_bound_callback r s) \<and>
    length (waiting (run_bound_callback r s)) < length (waiting s)"
proof -
  from assms obtain i cb where b: "srv_bound s = [(i, cb)]"
    by (cases "srv_bound s") (auto simp: loop_ok_def)
  let ?s1 = "s\<lparr>srv_bound := []\<rparr>"
  have loop: "loop_result (waiting ?s1) (SendResult i (tool_call_result r) cb ?s1) (run_bound_callback r s)"
    using tool_loop(1) [of "SendResult i (tool_call_result r) cb ?s1"] b
    by (simp add: run_bound_callback_def OnToolCallComplete.simps)
  then have "loop_progress ((i, cb) # waiting ?s1) s (run_bound_callback r s)"
    unfolding loop_result_def
    by (intro loop_progress_answer [OF _ _ rpc_result_response]) auto
  moreover have "waiting s = (i, cb) # waiting ?s1"
    by (simp add: waiting_def b)
  moreover have "length (waiting (run_bound_callback r s)) \<le> length (waiting ?s1)"
    using loop by (auto simp: loop_result_def loop_progress_def)
  ultimately show ?thesis
    using loop by (simp add: loop_result_def)
qed

lemma passive_simps [simp]:
  "waiting (SetController c s) = waiting s" "srv_sent (SetController c s) = srv_sent s"
  "waiting (RegisterTool t s) = waiting s" "srv_sent (RegisterTool t s) = srv_sent s"
  "waiting (OnTransportClosed sd s) = waiting s" "srv_sent (OnTransportClosed sd s) = srv_sent s"
  "loop_ok (SetController c s) = loop_ok s" "loop_ok (RegisterTool t s) = loop_ok s"
  "loop_ok (OnTransportClosed sd s) = loop_ok s" "loop_ok (s\<lparr>srv_shutdown_on_stdio_close := b\<rparr>) = loop_ok s"
  by (simp_all add: SetController_def RegisterTool_def OnTransportClosed_def waiting_def loop_ok_def
      split: option.split)

lemma answered_now_keeps:
  "answered_now m cb s s' \<Longrightarrow> waiting s' = waiting s \<and> (loop_ok s \<longrightarrow> loop_ok s')"
  by (auto simp: answered_now_def waiting_def loop_ok_def)

lemma loop_ok_run: "server_run rcv calls s \<Longrightarrow> loop_ok s"
proof (induction rule: server_run.induct)
  case start
  show ?case by (simp add: loop_ok_def new_server_def)
next
  case (message rcv calls s cb m)
  then show ?case
    using answered_now_keeps [OF OnMessage_now [of s m cb]] HandleToolsCall_loop [of s]
    by (cases "is_tool_call s m") (auto elim!: OnMessage_call [of s m cb])
qed (simp_all add: run_bound_callback_loop)

text \<open>
  What a run has done: every answer fits the message its callback came with, and so will
  the ones that wait (\<open>log_ok\<close>); tool calls are answered in the order they came in (\<open>fifo\<close>).
\<close>

definition log_ok :: "(response_callback \<times> dict) list \<Rightarrow> 'c MCPServer \<Rightarrow> bool" where
  "log_ok rcv s \<longleftrightarrow>
     (\<forall>(cb, r) \<in> set (srv_sent s). \<exists>m. (cb, m) \<in> set rcv \<and> answer_ok m r) \<and>
     (\<forall>(i, cb) \<in> set (waiting s). \<exists>m. (cb, m) \<in> set rcv \<and> Find m ''id'' = Some i)"

definition accounted :: "'c MCPServer \<Rightarrow> response_callback multiset" where
  "accounted s = mset (map fst (srv_sent s)) + mset (map snd (waiting s))"

definition answered_calls :: "response_callback list \<Rightarrow> 'c MCPServer \<Rightarrow> response_callback list" where
  "answered_calls calls s = filter (\<lambda>cb. cb \<in> set calls) (map fst (srv_sent s))"

lemma answers_callbacks: "list_all2 answers fin rs \<Longrightarrow> map fst rs = map snd fin"
  by (induction rule: list_all2_induct) (auto simp: answers_def)

lemma loop_progress_accounted:
  assumes "loop_progress w s s'"
  shows "accounted s' = mset (map fst (srv_sent s)) + mset (map snd w)"
proof -
  from assms obtain fin rs where
    *: "w = fin @ waiting s'" "srv_sent s' = srv_sent s @ rs" "list_all2 answers fin rs"
    by (auto simp: loop_progress_def)
  from answers_callbacks [OF *(3)] have "mset (map fst rs) = mset (map snd fin)" by (rule arg_cong)
  with * show ?thesis by (simp add: accounted_def)
qed

lemma answers_ok:
  "list_all2 answers fin rs \<Longrightarrow> (cb, r) \<in> set rs \<Longrightarrow> \<exists>i resp. (i, cb) \<in> set fin \<and> r = Some resp \<and> rpc_response i resp"
  by (induction rule: list_all2_induct) (auto simp: answers_def split: option.splits)

lemma loop_progress_log_ok:
  assumes "loop_progress w s s'" "log_ok rcv s" "\<forall>(i, cb) \<in> set w. \<exists>m. (cb, m) \<in> set rcv \<and> Find m ''id'' = Some i"
  shows "log_ok rcv s'"
proof -
  from assms(1) obtain fin rs where
    *: "w = fin @ waiting s'" "srv_sent s' = srv_sent s @ rs" "list_all2 answers fin rs"
    by (auto simp: loop_progress_def)
  have "\<exists>m. (cb, m) \<in> set rcv \<and> answer_ok m r" if "(cb, r) \<in> set rs" for cb r
  proof -
    from answers_ok [OF *(3) that] obtain i resp where
      "(i, cb) \<in> set fin" "r = Some resp" "rpc_response i resp" by blast
    with * assms(3) show ?thesis by (fastforce simp: answer_ok_def)
  qed
  with * assms(2,3) show ?thesis by (auto simp: log_ok_def)
qed

lemma loop_progress_fifo:
  assumes "loop_progress w s s'" "set (map snd w) \<subseteq> set calls"
  shows "answered_calls calls s' @ map snd (waiting s') = answered_calls calls s @ map snd w"
proof -
  from assms(1) obtain fin rs where
    *: "w = fin @ waiting s'" "srv_sent s' = srv_sent s @ rs" "list_all2 answers fin rs"
    by (auto simp: loop_progress_def)
  with assms(2) have "filter (\<lambda>cb. cb \<in> set calls) (map fst rs) = map snd fin"
    by (intro trans [OF filter_True]) (auto simp: answers_callbacks)
  with * show ?thesis by (simp add: answered_calls_def)
qed

lemma log_ok_more: "log_ok rcv s \<Longrightarrow> log_ok (rcv @ new) s"
  by (fastforce simp: log_ok_def)

lemma run_accounted: "server_run rcv calls s \<Longrightarrow> accounted s = mset (map fst rcv)"
proof (induction rule: server_run.induct)
  case start
  show ?case by (simp add: accounted_def waiting_def new_server_def)
next
  case (message rcv calls s cb m)
  show ?case
  proof (cases "is_tool_call s m")
    case True
    then obtain p i name where "OnMessage m cb s = HandleToolsCall p i cb s" "FindString p ''name'' = Some name"
      by (rule OnMessage_call)
    with HandleToolsCall_loop [of s p i cb] loop_ok_run [OF message.hyps] message.IH show ?thesis
      by (auto dest!: loop_progress_accounted simp: accounted_def)
  next
    case False
    from OnMessage_now [OF this, of cb] message.IH show ?thesis
      by (auto simp: answered_now_def accounted_def waiting_def)
  qed
next
  case (complete rcv calls s r)
  then show ?case
    using run_bound_callback_loop [OF loop_ok_run]
    by (metis accounted_def loop_progress_accounted)
qed (simp_all add: accounted_def)

lemma run_log_ok: "server_run rcv calls s \<Longrightarrow> log_ok rcv s"
proof (induction rule: server_run.induct)
  case start
  show ?case by (simp add: log_ok_def waiting_def new_server_def)
next
  case (message rcv calls s cb m)
  have more: "log_ok (rcv @ [(cb, m)]) s" by (rule log_ok_more) fact
  show ?case
  proof (cases "is_tool_call s m")
    case True
    then obtain p i name where *: "Find m ''id'' = Some i" "OnMessage m cb s = HandleToolsCall p i cb s"
      "FindString p ''name'' = Some name"
      by (rule OnMessage_call)
    then have "loop_progress (waiting s @ [(i, cb)]) s (OnMessage m cb s)"
      using HandleToolsCall_loop [of s p i cb] loop_ok_run [OF message.hyps] by simp
    then show ?thesis
      by (rule loop_progress_log_ok) (use more * in \<open>auto simp: log_ok_def\<close>)
  next
    case False
    from OnMessage_now [OF this, of cb] more show ?thesis
      by (auto simp: answered_now_def log_ok_def waiting_def)
  qed
next
  case (complete rcv calls s r)
  from run_bound_callback_loop [OF loop_ok_run [OF complete.hyps(1)] complete.hyps(2), of r]
  have "loop_progress (waiting s) s (run_bound_callback r s)" by blast
  then show ?case
    by (rule loop_progress_log_ok) (use complete.IH in \<open>auto simp: log_ok_def\<close>)
qed (simp_all add: log_ok_def)

lemma run_sent_received:
  assumes "server_run rcv calls s"
  shows "set (map fst (srv_sent s)) \<subseteq> set (map fst rcv)"
    and "set (map snd (waiting s)) \<subseteq> set (map fst rcv)"
  using run_log_ok [OF assms] by (force simp: log_ok_def)+

lemma run_fifo:
  "server_run rcv calls s \<Longrightarrow> distinct (map fst rcv) \<Longrightarrow>
     answered_calls calls s @ map snd (waiting s) = calls \<and> set calls \<subseteq> set (map fst rcv)"
proof (induction rule: server_run.induct)
  case start
  show ?case by (simp add: answered_calls_def waiting_def new_server_def)
next
  case (message rcv calls s cb m)
  then have IH: "answered_calls calls s @ map snd (waiting s) = calls" "set calls \<subseteq> set (map fst rcv)"
    and new: "cb \<notin> set (map fst rcv)"
    by auto
  show ?case
  proof (cases "is_tool_call s m")
    case True
    then obtain p i name where *: "OnMessage m cb s = HandleToolsCall p i cb s"
      "FindString p ''name'' = Some name"
      by (rule OnMessage_call)
    have w: "set (map snd (waiting s)) \<subseteq> set calls"
      using arg_cong [OF IH(1), of set] by auto
    have "cb \<notin> set (map fst (srv_sent s))"
      using run_sent_received(1) [OF message.hyps] new by blast
    then have "answered_calls (calls @ [cb]) s = answered_calls calls s"
      unfolding answered_calls_def by (intro filter_cong) auto
    moreover have "loop_progress (waiting s @ [(i, cb)]) s (OnMessage m cb s)"
      using HandleToolsCall_loop [of s p i cb] loop_ok_run [OF message.hyps] * by simp
    then have "answered_calls (calls @ [cb]) (OnMessage m cb s) @ map snd (waiting (OnMessage m cb s))
        = answered_calls (calls @ [cb]) s @ map snd (waiting s @ [(i, cb)])"
      by (rule loop_progress_fifo) (use w in auto)
    ultimately show ?thesis
      using True IH by auto
  next
    case False
    from OnMessage_now [OF this, of cb] obtain r where
      *: "srv_sent (OnMessage m cb s) = srv_sent s @ [(cb, r)]" "waiting (OnMessage m cb s) = waiting s"
      by (auto simp: answered_now_def waiting_def)
    moreover have "cb \<notin> set calls" using IH(2) new by blast
    ultimately show ?thesis
      using False IH by (auto simp: answered_calls_def)
  qed
next
  case (complete rcv calls s r)
  then have IH: "answered_calls calls s @ map snd (waiting s) = calls" by simp
  have "loop_progress (waiting s) s (run_bound_callback r s)"
    using run_bound_callback_loop [OF loop_ok_run [OF complete.hyps(1)] complete.hyps(2)] by blast
  then have "answered_calls calls (run_bound_callback r s) @ map snd (waiting (run_bound_callback r s))
      = answered_calls calls s @ map snd (waiting s)"
    by (rule loop_progress_fifo) (use arg_cong [OF IH, of set] in auto)
  with IH complete show ?case by simp
qed (simp_all add: answered_calls_def)

lemma run_completions:
  "server_run rcv calls s \<Longrightarrow> length (waiting s) \<le> length rs \<Longrightarrow>
     server_run rcv calls (fold run_bound_callback rs s) \<and> waiting (fold run_bound_callback rs s) = []"
proof (induction rs arbitrary: s)
  case (Cons r rs)
  show ?case
  proof (cases "srv_bound s = []")
    case True
    with loop_ok_run [OF Cons.prems(1)] have "waiting s = []"
      by (simp add: loop_ok_def waiting_def)
    moreover have "run_bound_callback r s = s" by (simp add: run_bound_callback_def True)
    ultimately show ?thesis using Cons.IH [OF Cons.prems(1)] by simp
  next
    case False
    then have "server_run rcv calls (run_bound_callback r s)"
      by (rule server_run.complete [OF Cons.prems(1)])
    moreover have "length (waiting (run_bound_callback r s)) < length (waiting s)"
      using run_bound_callback_loop [OF loop_ok_run [OF Cons.prems(1)] False] by blast
    ultimately show ?thesis using Cons.IH Cons.prems(2) by simp
  qed
qed simp

text \<open>A step of a run answers more, and takes no answer back.\<close>

lemma run_sent_grows:
  assumes "server_run rcv calls s"
  shows "\<exists>rs. srv_sent (OnMessage m cb s) = srv_sent s @ rs"
    and "\<exists>rs. srv_sent (run_bound_callback r s) = srv_sent s @ rs"
proof -
  note ok = loop_ok_run [OF assms]
  show "\<exists>rs. srv_sent (OnMessage m cb s) = srv_sent s @ rs"
  proof (cases "is_tool_call s m")
    case True
    then obtain p i name where "OnMessage m cb s = HandleToolsCall p i cb s" "FindString p ''name'' = Some name"
      by (rule OnMessage_call)
    then show ?thesis using HandleToolsCall_loop [of s p i cb] ok by (auto simp: loop_progress_def)
  next
    case False
    from OnMessage_now [OF this, of cb] show ?thesis by (auto simp: answered_now_def)
  qed
  show "\<exists>rs. srv_sent (run_bound_callback r s) = srv_sent s @ rs"
  proof (cases "srv_bound s = []")
    case False
    from run_bound_callback_loop [OF ok this, of r] show ?thesis by (auto simp: loop_progress_def)
  qed (simp add: run_bound_callback_def)
qed

section \<open>Properties\<close>

text \<open>A server that the witnesses run: one tool keeps its callback, the other one runs it.\<close>

definition slow_tool :: "unit MCPToolDef" where
  "slow_tool = \<lparr>tool_name = ''slow'', tool_description = [], tool_input_schema = [],
                tool_handler = (\<lambda>c a. (c, None))\<rparr>"

definition fast_tool :: "unit MCPToolDef" where
  "fast_tool = \<lparr>tool_name = ''fast'', tool_description = [], tool_input_schema = [],
                tool_handler = (\<lambda>c a. (c, Some (TextContent ''done'', False)))\<rparr>"

definition request :: "string \<Rightarrow> c_int \<Rightarrow> dict \<Rightarrow> dict" where
  "request m i p = [(''method'', JString m), (''id'', JInt i), (''params'', JDict p)]"

definition call_request :: "c_int \<Rightarrow> string \<Rightarrow> dict" where
  "call_request i t = request ''tools/call'' i [(''name'', JString t)]"

definition demo_received :: "(response_callback \<times> dict) list" where
  "demo_received =
     [(1, request ''initialize'' 10 []), (2, call_request 11 ''slow''), (3, call_request 12 ''fast''),
      (4, request ''ping'' 13 []), (5, call_request 14 ''none'')]"

definition demo_server :: "unit MCPServer" where
  "demo_server =
     fold (\<lambda>(cb, m). OnMessage m cb) demo_received
       (RegisterTool fast_tool (RegisterTool slow_tool (SetController (Some ()) new_server)))"

lemma demo_run: "server_run demo_received [2, 3, 5] demo_server"
proof -
  let ?s0 = "RegisterTool fast_tool (RegisterTool slow_tool (SetController (Some ()) new_server))"
  let ?s1 = "OnMessage (request ''initialize'' 10 []) 1 ?s0"
  let ?s2 = "OnMessage (call_request 11 ''slow'') 2 ?s1"
  let ?s3 = "OnMessage (call_request 12 ''fast'') 3 ?s2"
  let ?s4 = "OnMessage (request ''ping'' 13 []) 4 ?s3"
  have 0: "server_run [] [] ?s0" by (intro server_run.intros)
  have 1: "server_run [(1, request ''initialize'' 10 [])] [] ?s1"
    using server_run.message [OF 0, of 1 "request ''initialize'' 10 []"]
    by (simp add: is_tool_call_def request_def FindString_def Find_def)
  have c2: "is_tool_call ?s1 (call_request 11 ''slow'')" by code_simp
  have c3: "is_tool_call ?s2 (call_request 12 ''fast'')" by code_simp
  have c4: "\<not> is_tool_call ?s3 (request ''ping'' 13 [])" by code_simp
  have c5: "is_tool_call ?s4 (call_request 14 ''none'')" by code_simp
  note 2 = server_run.message [OF 1, of 2 "call_request 11 ''slow''", unfolded if_P [OF c2]]
  note 3 = server_run.message [OF 2, of 3 "call_request 12 ''fast''", unfolded if_P [OF c3]]
  note 4 = server_run.message [OF 3, of 4 "request ''ping'' 13 []", unfolded if_not_P [OF c4]]
  note 5 = server_run.message [OF 4, of 5 "call_request 14 ''none''", unfolded if_P [OF c5]]
  from 5 show ?thesis by (simp add: demo_server_def demo_received_def)
qed

text \<open>
  C5: however the messages, the completions and the changes of the controller interleave, at
  most one tool runs at a time, the flag \<open>tool_call_in_progress_\<close> says whether one does, and
  the queue is empty when none does.
\<close>

theorem one_tool_at_a_time:
  assumes "server_run rcv calls s"
  shows "length (srv_bound s) \<le> 1 \<and> (srv_in_progress s \<longleftrightarrow> srv_bound s \<noteq> []) \<and>
    (\<not> srv_in_progress s \<longrightarrow> srv_queue s = [])"
  using loop_ok_run [OF assms] by (simp add: loop_ok_def)

theorem one_tool_at_a_time_witness:
  "length (srv_bound demo_server) \<le> 1 \<and> srv_in_progress demo_server \<and> length (srv_queue demo_server) = 2"
proof -
  have "length (srv_queue demo_server) = 2" by code_simp
  then show ?thesis
    using one_tool_at_a_time [OF demo_run] by auto
qed

text \<open>
  C1: no answer is lost and none is sent twice: the callbacks that were run, with those of
  the calls that wait, are the callbacks that were received, each as often as it was.
\<close>

theorem every_message_answered_once:
  assumes "server_run rcv calls s"
  shows "mset (map fst (srv_sent s)) + mset (map snd (waiting s)) = mset (map fst rcv)"
  using run_accounted [OF assms] by (simp add: accounted_def)

theorem every_message_answered_once_witness:
  "mset (map fst (srv_sent demo_server)) + mset (map snd (waiting demo_server)) = {#1, 2, 3, 4, 5#}"
  using every_message_answered_once [OF demo_run] by (simp add: demo_received_def)

text \<open>
  Every answer fits the message its callback came with, as JSON-RPC 2.0 asks: a
  notification gets no response object, a request gets one with its own \<open>id\<close> and with
  either a result or an error. (A \<open>notifications/initialized\<close> that has an \<open>id\<close> gets none.)
\<close>

lemma answers_fit_messages:
  assumes "server_run rcv calls s" and "(cb, r) \<in> set (srv_sent s)"
  shows "\<exists>m. (cb, m) \<in> set rcv \<and> answer_ok m r"
  using run_log_ok [OF assms(1)] assms(2) by (auto simp: log_ok_def)

lemma answers_fit_messages_witness:
  "\<exists>m. (4, m) \<in> set demo_received \<and> answer_ok m (Some (result_response (JInt 13) []))"
proof (rule answers_fit_messages [OF demo_run])
  show "(4, Some (result_response (JInt 13) [])) \<in> set (srv_sent demo_server)" by code_simp
qed

text \<open>
  C3: tool calls are answered in the order they came in, whatever is answered in between: the
  callbacks of the tool calls answered so far, then those of the calls that wait, are the
  callbacks of the tool calls received.
\<close>

theorem tool_calls_fifo:
  assumes "server_run rcv calls s" and "distinct (map fst rcv)"
  shows "filter (\<lambda>cb. cb \<in> set calls) (map fst (srv_sent s)) @ map snd (waiting s) = calls"
  using run_fifo [OF assms] by (simp add: answered_calls_def)

theorem tool_calls_fifo_witness:
  "filter (\<lambda>cb. cb \<in> set [2, 3, 5]) (map fst (srv_sent demo_server)) @ map snd (waiting demo_server) = [2, 3, 5]"
  by (rule tool_calls_fifo [OF demo_run]) (simp add: demo_received_def)

text \<open>
  The tool loop does not get stuck: once the running tool has completed as many times as
  there were calls waiting, none waits and every message received has been answered.
\<close>

lemma completions_drain_the_queue:
  assumes "server_run rcv calls s" and "length (waiting s) \<le> length rs"
  shows "waiting (fold run_bound_callback rs s) = [] \<and>
    mset (map fst (srv_sent (fold run_bound_callback rs s))) = mset (map fst rcv)"
proof -
  from run_completions [OF assms] have
    "server_run rcv calls (fold run_bound_callback rs s)" "waiting (fold run_bound_callback rs s) = []"
    by blast+
  with run_accounted show ?thesis by (fastforce simp: accounted_def)
qed

lemma completions_drain_the_queue_witness:
  "waiting (fold run_bound_callback (replicate 3 (TextContent ''ok'', False)) demo_server) = [] \<and>
   mset (map fst (srv_sent (fold run_bound_callback (replicate 3 (TextContent ''ok'', False)) demo_server)))
     = mset (map fst demo_received)"
proof (rule completions_drain_the_queue [OF demo_run])
  have "length (waiting demo_server) = 3" by code_simp
  then show "length (waiting demo_server)
      \<le> length (replicate 3 (TextContent ''ok'', False))" by simp
qed

text \<open>
  Before \<open>initialize\<close> nothing but the handshake and \<open>ping\<close> is served: any other message
  changes nothing but the answers, and a request is answered with the error -32002 (-32600 when
  it has no method).
\<close>

lemma uninitialized_server_rejects:
  assumes "\<not> srv_initialized s"
    and "FindString m ''method'' \<notin> Some ` {''initialize'', ''notifications/initialized'', ''ping''}"
  shows "OnMessage m cb s =
    (case Find m ''id'' of
       None \<Rightarrow> s\<lparr>srv_sent := srv_sent s @ [(cb, None)]\<rparr>
     | Some i \<Rightarrow> s\<lparr>srv_sent := srv_sent s @ [(cb, Some
           (if FindString m ''method'' = None then error_response i (- 32600) ''Invalid Request''
            else error_response i (- 32002) ''Server not initialized''))]\<rparr>)"
  using assms by (auto simp: OnMessage_def Let_def send_defs split: option.splits)

lemma uninitialized_server_rejects_witness:
  "srv_sent (OnMessage (call_request 1 ''fast'') 9 (RegisterTool fast_tool new_server))
     = [(9, Some (error_response (JInt 1) (- 32002) ''Server not initialized''))]"
proof -
  have "\<not> srv_initialized (RegisterTool fast_tool new_server)"
    by (simp add: RegisterTool_def new_server_def)
  moreover have "FindString (call_request 1 ''fast'') ''method''
      \<notin> Some ` {''initialize'', ''notifications/initialized'', ''ping''}"
    by (simp add: call_request_def request_def FindString_def Find_def)
  ultimately show ?thesis
    using uninitialized_server_rejects [of "RegisterTool fast_tool new_server" "call_request 1 ''fast''" 9]
    by (simp add: call_request_def request_def FindString_def Find_def RegisterTool_def new_server_def)
qed

text \<open>
  A tool call on an idle server runs the first registered tool of that name on the
  controller, with the given arguments or with none; it is answered with the tool's content,
  with an error content when there is no controller, and with the error -32602 when there is
  no such tool. A tool that keeps its callback leaves the server busy with this one call.
\<close>

lemma tool_call_dispatch:
  assumes "is_tool_call s m" and "\<not> srv_in_progress s" "srv_queue s = []" "srv_bound s = []"
    and "Find m ''id'' = Some i" "FindDict m ''params'' = Some p" "FindString p ''name'' = Some n"
  shows "OnMessage m cb s =
    (case srv_controller s of
       None \<Rightarrow> SendResult i (tool_call_result (TextContent ''No browser controller'', True)) cb s
     | Some c \<Rightarrow>
         (case find (\<lambda>t. tool_name t = n) (srv_tools s) of
            None \<Rightarrow> SendError i (- 32602) (''Unknown tool: '' @ n) cb s
          | Some t \<Rightarrow>
              (case tool_handler t c (case FindDict p ''arguments'' of Some a \<Rightarrow> a | None \<Rightarrow> []) of
                 (c', Some r) \<Rightarrow> SendResult i (tool_call_result r) cb (s\<lparr>srv_controller := Some c'\<rparr>)
               | (c', None) \<Rightarrow>
                   s\<lparr>srv_controller := Some c', srv_in_progress := True, srv_bound := [(i, cb)]\<rparr>)))"
proof -
  let ?args = "case FindDict p ''arguments'' of Some a \<Rightarrow> a | None \<Rightarrow> []"
  let ?call = "\<lparr>call_name = n, call_args = ?args, call_id = i, call_callback = cb\<rparr>"
  have loop: "OnMessage m cb s = ExecuteNextToolCall (s\<lparr>srv_queue := [?call]\<rparr>)"
    using assms by (simp add: is_tool_call_def OnMessage_def Let_def HandleToolsCall_def)
  have rest: "ExecuteNextToolCall t = t\<lparr>srv_in_progress := False\<rparr>"
    if "srv_queue t = []" for t :: "'a MCPServer"
    using that by (simp add: ExecuteNextToolCall.simps)
  show ?thesis
    unfolding loop
    by (simp add: ExecuteNextToolCall.simps [of "s\<lparr>srv_queue := [?call]\<rparr>"] OnToolCallComplete.simps
        Let_def rest send_defs assms(2-4) split: option.split prod.split)
qed

lemma tool_call_dispatch_witness:
  "srv_sent (OnMessage (call_request 7 ''fast'') 3
      (RegisterTool fast_tool (SetController (Some ()) (new_server\<lparr>srv_initialized := True\<rparr>))))
    = [(3, Some (result_response (JInt 7) (tool_call_result (TextContent ''done'', False))))]"
  (is "srv_sent (OnMessage ?m 3 ?s) = _")
proof -
  have "is_tool_call ?s ?m" "\<not> srv_in_progress ?s" "srv_queue ?s = []" "srv_bound ?s = []"
    "Find ?m ''id'' = Some (JInt 7)" "FindDict ?m ''params'' = Some [(''name'', JString ''fast'')]"
    "FindString [(''name'', JString ''fast'')] ''name'' = Some ''fast''"
    by code_simp+
  from tool_call_dispatch [OF this, of 3] show ?thesis
    by (simp add: RegisterTool_def SetController_def new_server_def fast_tool_def)
qed

end
