(* ===== verification/Mcp_Transport.thy ===== *)
theory Mcp_Transport
  imports Base_Lib
begin

section \<open>Lines and messages (\<open>mcp/mcp_transport.cc\<close>)\<close>

text \<open>
  The stdio and the socket transports carry one JSON object per line. This theory holds the
  reading and writing of a message, the line loops of the transports over the bytes they
  read, and the interface \<open>line_framing\<close> that both loops implement: it shows that what is
  read does not depend on how the bytes were cut into chunks.
\<close>

definition ParseMCPTransportLine :: "base_lib \<Rightarrow> string \<Rightarrow> dict option" where
  "ParseMCPTransportLine L line = (if line = [] then None else lib_json_read L line)"

definition SerializeMCPTransportMessage :: "base_lib \<Rightarrow> dict \<Rightarrow> string option" where
  "SerializeMCPTransportMessage L message =
     (case lib_json_write L (JDict message) of None \<Rightarrow> None | Some json \<Rightarrow> Some (json @ [newline]))"

subsection \<open>The stdio transport\<close>

text \<open>\<open>std::getline\<close> on the bytes of standard input: a last line needs no newline.\<close>

fun getlines :: "string \<Rightarrow> string \<Rightarrow> string list" where
  "getlines acc [] = (if acc = [] then [] else [rev acc])"
| "getlines acc (c # cs) = (if c = newline then rev acc # getlines [] cs else getlines (c # acc) cs)"

datatype main_task = MessageTask dict | CloseTask

text \<open>What \<open>ReadLoop\<close> posts to the main thread when it has read all of standard input.\<close>

definition ReadLoop :: "base_lib \<Rightarrow> bool \<Rightarrow> string \<Rightarrow> main_task list" where
  "ReadLoop L has_close_callback input =
     map MessageTask (List.map_filter (ParseMCPTransportLine L) (getlines [] input)) @
     (if has_close_callback then [CloseTask] else [])"

text \<open>\<open>SendMessage\<close> and \<open>SendResponse\<close> append to standard output.\<close>

definition StdioSendMessage :: "base_lib \<Rightarrow> dict \<Rightarrow> string \<Rightarrow> string" where
  "StdioSendMessage L message out =
     (case SerializeMCPTransportMessage L message of None \<Rightarrow> out | Some json \<Rightarrow> out @ json)"

definition StdioSendResponse :: "base_lib \<Rightarrow> dict option \<Rightarrow> string \<Rightarrow> string" where
  "StdioSendResponse L response out =
     (case response of None \<Rightarrow> out | Some r \<Rightarrow> StdioSendMessage L r out)"

subsection \<open>The line loop of the socket transports\<close>

definition strip_cr :: "string \<Rightarrow> string" where
  "strip_cr line = (if line \<noteq> [] \<and> last line = carriage_return then butlast line else line)"

text \<open>
  The loop \<open>while ((newline_position = buffer.find('\n')) != npos)\<close>: the lines it takes off
  the buffer, and the bytes it leaves there.
\<close>

function take_lines :: "string \<Rightarrow> string list \<times> string" where
  "take_lines buffer =
     (case find_char newline buffer of
        None \<Rightarrow> ([], buffer)
      | Some newline_position \<Rightarrow>
          (let line = strip_cr (take newline_position buffer);
               r = take_lines (drop (newline_position + 1) buffer)
           in (line # fst r, snd r)))"
  by pat_completeness auto

termination
  by (relation "measure length") (auto dest: find_char_SomeD)

declare take_lines.simps [simp del]

lemma take_lines_none: "newline \<notin> set buffer \<Longrightarrow> take_lines buffer = ([], buffer)"
  by (simp add: take_lines.simps find_char_None [THEN iffD2])

lemma take_lines_line:
  "newline \<notin> set line \<Longrightarrow>
     take_lines (line @ newline # rest) = (strip_cr line # fst (take_lines rest), snd (take_lines rest))"
  by (subst take_lines.simps) (simp add: find_char_at Let_def)

lemma strip_cr_no_newline: "newline \<notin> set line \<Longrightarrow> newline \<notin> set (strip_cr line)"
  by (auto simp: strip_cr_def dest: in_set_butlastD)

subsection \<open>The interface of a line loop\<close>

text \<open>
  A framing takes the complete lines off a buffer and leaves the rest. Two laws define it:
  a buffer with no newline has no line, and a line with its newline comes off the front,
  cleaned by \<open>clean\<close>.
\<close>

locale line_framing =
  fixes frame :: "string \<Rightarrow> string list \<times> string"
    and clean :: "string \<Rightarrow> string"
  assumes frame_none: "newline \<notin> set buffer \<Longrightarrow> frame buffer = ([], buffer)"
    and frame_line: "newline \<notin> set line \<Longrightarrow>
      frame (line @ newline # rest) = (clean line # fst (frame rest), snd (frame rest))"
begin

text \<open>Reading chunk after chunk: the lines so far and the buffer.\<close>

definition read_chunk :: "string \<Rightarrow> string list \<times> string \<Rightarrow> string list \<times> string" where
  "read_chunk chunk = (\<lambda>(ls, buffer). (ls @ fst (frame (buffer @ chunk)), snd (frame (buffer @ chunk))))"

lemma split_first_line:
  "newline \<in> set s \<Longrightarrow> \<exists>line rest. s = line @ newline # rest \<and> newline \<notin> set line"
  by (meson split_list_first)

lemma frame_rest: "newline \<notin> set (snd (frame s))"
proof (induction "length s" arbitrary: s rule: less_induct)
  case less
  show ?case
  proof (cases "newline \<in> set s")
    case True
    then obtain line rest where "s = line @ newline # rest" "newline \<notin> set line"
      using split_first_line by blast
    with less [of rest] show ?thesis by (simp add: frame_line)
  qed (simp add: frame_none)
qed

lemma frame_append:
  "frame (a @ b) = (fst (frame a) @ fst (frame (snd (frame a) @ b)), snd (frame (snd (frame a) @ b)))"
proof (induction "length a" arbitrary: a rule: less_induct)
  case less
  show ?case
  proof (cases "newline \<in> set a")
    case True
    then obtain line rest where "a = line @ newline # rest" "newline \<notin> set line"
      using split_first_line by blast
    with less [of rest] show ?thesis by (simp add: frame_line)
  qed (simp add: frame_none)
qed

lemma chunks_do_not_matter:
  assumes "newline \<notin> set buffer"
  shows "fold read_chunk chunks (ls, buffer) =
    (ls @ fst (frame (buffer @ concat chunks)), snd (frame (buffer @ concat chunks)))"
  using assms
proof (induction chunks arbitrary: ls buffer)
  case (Cons c cs)
  have "read_chunk c (ls, buffer) = (ls @ fst (frame (buffer @ c)), snd (frame (buffer @ c)))"
    by (simp add: read_chunk_def)
  with Cons.IH [OF frame_rest [of "buffer @ c"]] show ?case
    using frame_append [of "buffer @ c" "concat cs"] by simp
qed (simp add: frame_none)

lemma frame_lines:
  "\<forall>l \<in> set ls. newline \<notin> set l \<Longrightarrow> frame (concat (map (\<lambda>l. l @ [newline]) ls)) = (map clean ls, [])"
  by (induction ls) (simp_all add: frame_none frame_line)

end

interpretation socket_framing: line_framing take_lines strip_cr
  by unfold_locales (simp_all add: take_lines_none take_lines_line)

text \<open>\<open>std::getline\<close> is the framing that does not clean, with the rest as a last line.\<close>

fun stdin_frame :: "string \<Rightarrow> string \<Rightarrow> string list \<times> string" where
  "stdin_frame acc [] = ([], rev acc)"
| "stdin_frame acc (c # cs) =
     (if c = newline then (rev acc # fst (stdin_frame [] cs), snd (stdin_frame [] cs))
      else stdin_frame (c # acc) cs)"

lemma stdin_frame_none: "newline \<notin> set s \<Longrightarrow> stdin_frame acc s = ([], rev acc @ s)"
  by (induction s arbitrary: acc) auto

lemma stdin_frame_line:
  "newline \<notin> set line \<Longrightarrow>
     stdin_frame acc (line @ newline # rest)
       = ((rev acc @ line) # fst (stdin_frame [] rest), snd (stdin_frame [] rest))"
  by (induction line arbitrary: acc) auto

interpretation stdio_framing: line_framing "stdin_frame []" "\<lambda>l. l"
  by unfold_locales (simp_all add: stdin_frame_none stdin_frame_line)

lemma getlines_frame:
  "getlines acc s = fst (stdin_frame acc s) @ (if snd (stdin_frame acc s) = [] then [] else [snd (stdin_frame acc s)])"
  by (induction acc s rule: getlines.induct) auto

section \<open>Properties\<close>

text \<open>One \<open>recv\<close> of the socket loop: the chunk joins the buffer and the complete lines go out.\<close>

definition recv_chunk :: "string \<Rightarrow> string list \<times> string \<Rightarrow> string list \<times> string" where
  "recv_chunk chunk st =
     (let buffer = snd st @ chunk; r = take_lines buffer in (fst st @ fst r, snd r))"

lemma recv_chunk_read_chunk: "recv_chunk = socket_framing.read_chunk"
  by (intro ext) (simp add: recv_chunk_def socket_framing.read_chunk_def Let_def split: prod.split)

text \<open>
  The lines a socket transport dispatches and the bytes it keeps depend only on the bytes
  received, not on how \<open>recv\<close> cut them into chunks, and no dispatched line holds a newline.
\<close>

lemma socket_chunks_do_not_matter:
  "fold recv_chunk chunks ([], []) = take_lines (concat chunks) \<and>
   newline \<notin> set (concat (fst (take_lines (concat chunks))))"
proof -
  have "newline \<notin> set l" if "l \<in> set (fst (take_lines s))" for l s
    using that
  proof (induction "length s" arbitrary: s rule: less_induct)
    case less
    show ?case
    proof (cases "newline \<in> set s")
      case True
      then obtain line rest where "s = line @ newline # rest" "newline \<notin> set line"
        using socket_framing.split_first_line by blast
      with less.hyps [of rest] less.prems show ?thesis
        by (auto simp: take_lines_line strip_cr_no_newline)
    qed (use less in \<open>simp add: take_lines_none\<close>)
  qed
  then show ?thesis
    using socket_framing.chunks_do_not_matter [of "[]" chunks "[]"]
    by (auto simp: recv_chunk_read_chunk)
qed

lemma sent_lines:
  assumes "json_line_law L"
    and "\<forall>m \<in> set ms. \<exists>s. lib_json_write L (JDict m) = Some s \<and> lib_json_read L s = Some m"
  shows "\<exists>ls. fold (StdioSendMessage L) ms out = out @ concat (map (\<lambda>l. l @ [newline]) ls) \<and>
    (\<forall>l \<in> set ls. newline \<notin> set l \<and> strip_cr l = l) \<and> List.map_filter (ParseMCPTransportLine L) ls = ms"
  using assms(2)
proof (induction ms arbitrary: out)
  case Nil
  show ?case by (intro exI [of _ "[]"]) (simp add: List.map_filter_def)
next
  case (Cons m ms)
  then obtain s where s: "lib_json_write L (JDict m) = Some s" "lib_json_read L s = Some m" by auto
  with assms(1) have line: "newline \<notin> set s" "carriage_return \<notin> set s" "s \<noteq> []"
    unfolding json_line_law_def by blast+
  then have "strip_cr s = s" by (metis last_in_set strip_cr_def)
  from Cons obtain ls where
    "fold (StdioSendMessage L) ms (out @ s @ [newline])
        = (out @ s @ [newline]) @ concat (map (\<lambda>l. l @ [newline]) ls)"
    "\<forall>l \<in> set ls. newline \<notin> set l \<and> strip_cr l = l" "List.map_filter (ParseMCPTransportLine L) ls = ms"
    by (metis list.set_intros(2))
  moreover have "StdioSendMessage L m out = out @ s @ [newline]" "ParseMCPTransportLine L s = Some m"
    using s line
    by (simp_all add: StdioSendMessage_def SerializeMCPTransportMessage_def ParseMCPTransportLine_def)
  ultimately show ?case
    using line \<open>strip_cr s = s\<close>
    by (intro exI [of _ "s # ls"]) (simp add: List.map_filter_simps)
qed

text \<open>
  C17: a stream of messages written by one end is read back by the other, message for message
  and in order, whether the reader is the stdin loop or the socket loop; nothing is left in
  the socket loop's buffer. \<open>json_line_law\<close> is the documented behaviour of the JSON writer,
  and each message must be one that the JSON library reads back as it was written.
\<close>

theorem message_stream_roundtrip:
  assumes "json_line_law L"
    and "\<forall>m \<in> set ms. \<exists>s. lib_json_write L (JDict m) = Some s \<and> lib_json_read L s = Some m"
    and "concat chunks = fold (StdioSendMessage L) ms []"
  shows "ReadLoop L True (fold (StdioSendMessage L) ms []) = map MessageTask ms @ [CloseTask] \<and>
    List.map_filter (ParseMCPTransportLine L) (fst (fold recv_chunk chunks ([], []))) = ms \<and>
    snd (fold recv_chunk chunks ([], [])) = []"
proof -
  obtain ls where *: "fold (StdioSendMessage L) ms [] = concat (map (\<lambda>l. l @ [newline]) ls)"
    "\<forall>l \<in> set ls. newline \<notin> set l \<and> strip_cr l = l" "List.map_filter (ParseMCPTransportLine L) ls = ms"
    using sent_lines [OF assms(1,2), of "[]"] by auto
  have "map strip_cr ls = ls" using *(2) by (simp add: map_idI)
  then have "take_lines (concat chunks) = (ls, [])"
    using socket_framing.frame_lines [of ls] * assms(3) by simp
  moreover have "getlines [] (fold (StdioSendMessage L) ms []) = ls"
    using stdio_framing.frame_lines [of ls] * by (simp add: getlines_frame)
  ultimately show ?thesis
    using socket_framing.chunks_do_not_matter [of "[]" chunks "[]"] *(3)
    by (simp add: recv_chunk_read_chunk ReadLoop_def)
qed

theorem message_stream_roundtrip_witness:
  "ReadLoop ref_lib True (fold (StdioSendMessage ref_lib) [[], []] []) = map MessageTask [[], []] @ [CloseTask] \<and>
   List.map_filter (ParseMCPTransportLine ref_lib)
     (fst (fold recv_chunk [''{'', ''}'' @ [newline] @ ''{}'', [newline]] ([], []))) = [[], []] \<and>
   snd (fold recv_chunk [''{'', ''}'' @ [newline] @ ''{}'', [newline]] ([], [])) = []"
proof (rule message_stream_roundtrip [OF json_line_law_ref_lib])
  show "\<forall>m \<in> set [[], []]. \<exists>s. lib_json_write ref_lib (JDict m) = Some s \<and> lib_json_read ref_lib s = Some m"
    by (simp add: ref_lib_def)
  show "concat [''{'', ''}'' @ [newline] @ ''{}'', [newline]] = fold (StdioSendMessage ref_lib) [[], []] []"
    by code_simp
qed

end
