(* ===== verification/Mcp_Http.thy ===== *)
theory Mcp_Http
  imports Mcp_Transport "HOL-Library.Multiset"
begin

section \<open>The HTTP transport (\<open>mcp/mcp_http_transport.cc\<close>)\<close>

text \<open>
  The state is the bearer token and the open connections. The HTTP server of Chromium is seen
  through what the transport gives it: the responses sent (\<open>http_sent\<close>) and, for the main
  thread, the messages posted with the connection their answer is for (\<open>http_posted\<close>, in the
  order posted).
\<close>

record http_request =
  req_method :: string
  req_path :: string
  req_data :: string
  req_header :: "string \<Rightarrow> string"   \<comment> \<open>\<open>GetHeaderValue\<close>: empty when there is none\<close>

record http_response =
  resp_status :: nat
  resp_headers :: "(string \<times> string) list"
  resp_body :: string
  resp_content_type :: string

record http_transport =
  http_token :: string
  http_open :: "int set"
  http_running :: bool
  http_posted :: "(dict \<times> int) list"
  http_sent :: "(int \<times> http_response) list"

definition new_http_transport :: http_transport where
  "new_http_transport =
     \<lparr>http_token = [], http_open = {}, http_running = False, http_posted = [], http_sent = []\<rparr>"

subsection \<open>Hosts and headers\<close>

definition IsAllowedListenHost :: "base_lib \<Rightarrow> string \<Rightarrow> bool" where
  "IsAllowedListenHost L host \<longleftrightarrow>
     host = ''127.0.0.1'' \<or> host = ''0.0.0.0'' \<or> host = ''::1'' \<or> host = ''::'' \<or>
     lib_eq_ci L host ''localhost''"

definition NormalizeListenHost :: "base_lib \<Rightarrow> string \<Rightarrow> string" where
  "NormalizeListenHost L host = (if lib_eq_ci L host ''localhost'' then ''127.0.0.1'' else host)"

definition IsLoopbackOriginHost :: "base_lib \<Rightarrow> string \<Rightarrow> bool" where
  "IsLoopbackOriginHost L host \<longleftrightarrow>
     host = ''127.0.0.1'' \<or> host = ''::1'' \<or> lib_eq_ci L host ''localhost''"

definition item_matches :: "base_lib \<Rightarrow> string \<Rightarrow> string \<Rightarrow> bool" where
  "item_matches L expected_type item =
     (let media_type =
            (case find_char CHR '';'' item of
               Some parameter_pos \<Rightarrow> lib_trim L (take parameter_pos item)
             | None \<Rightarrow> item)
      in lib_eq_ci L media_type expected_type \<or> lib_eq_ci L media_type ''*/*'' \<or>
         lib_eq_ci L media_type ''application/*'')"

definition HeaderContainsMimeType :: "base_lib \<Rightarrow> string \<Rightarrow> string \<Rightarrow> bool" where
  "HeaderContainsMimeType L header expected_type =
     list_ex (item_matches L expected_type) (lib_split L header)"

definition IsAuthorized :: "base_lib \<Rightarrow> http_request \<Rightarrow> http_transport \<Rightarrow> bool" where
  "IsAuthorized L info h =
     (let authorization = req_header info ''authorization''; kBearerPrefix = ''Bearer ''
      in if \<not> lib_starts_ci L authorization kBearerPrefix then False
         else drop (length kBearerPrefix) authorization = http_token h)"

definition IsAllowedOrigin :: "base_lib \<Rightarrow> http_request \<Rightarrow> bool" where
  "IsAllowedOrigin L info =
     (let origin = req_header info ''origin''
      in if origin = [] then True
         else gurl_is_valid (lib_gurl L origin) \<and>
              IsLoopbackOriginHost L (gurl_host (lib_gurl L origin)))"

definition AcceptsJson :: "base_lib \<Rightarrow> http_request \<Rightarrow> bool" where
  "AcceptsJson L info = HeaderContainsMimeType L (req_header info ''accept'') ''application/json''"

subsection \<open>Starting and stopping\<close>

text \<open>
  \<open>thread_ok\<close> is whether the thread starts, \<open>listen\<close> the result of
  \<open>ListenWithAddressAndPort\<close> (0 is \<open>net::OK\<close>). The main thread waits for the HTTP thread.
\<close>

definition StartOnHttpThread ::
  "(string \<Rightarrow> 16 word \<Rightarrow> int) \<Rightarrow> string \<Rightarrow> 16 word \<Rightarrow> string \<Rightarrow> http_transport \<Rightarrow> bool \<times> http_transport" where
  "StartOnHttpThread listen listen_host port token h =
     (if listen listen_host port \<noteq> 0 then (False, h) else (True, h\<lparr>http_token := token\<rparr>))"

definition HttpStart ::
  "base_lib \<Rightarrow> bool \<Rightarrow> (string \<Rightarrow> 16 word \<Rightarrow> int) \<Rightarrow> string \<Rightarrow> 16 word \<Rightarrow> string \<Rightarrow> http_transport \<Rightarrow>
     bool \<times> http_transport" where
  "HttpStart L thread_ok listen host port token h =
     (if \<not> IsAllowedListenHost L host then (False, h)
      else if \<not> thread_ok then (False, h)
      else let (success, h1) =
                 StartOnHttpThread listen (NormalizeListenHost L host) port token (h\<lparr>http_running := True\<rparr>)
           in (success, if success then h1 else h1\<lparr>http_running := False\<rparr>))"

definition StopOnHttpThread :: "http_transport \<Rightarrow> http_transport" where
  "StopOnHttpThread h = h\<lparr>http_open := {}\<rparr>"

subsection \<open>Requests\<close>

definition server_SendResponse :: "int \<Rightarrow> http_response \<Rightarrow> http_transport \<Rightarrow> http_transport" where
  "server_SendResponse c r h = h\<lparr>http_sent := http_sent h @ [(c, r)]\<rparr>"

abbreviation text_plain :: string where
  "text_plain \<equiv> ''text/plain; charset=utf-8''"

abbreviation no_store :: "string \<times> string" where
  "no_store \<equiv> (''Cache-Control'', ''no-store'')"

definition SendTextResponse :: "int \<Rightarrow> nat \<Rightarrow> string \<Rightarrow> string \<Rightarrow> http_transport \<Rightarrow> http_transport" where
  "SendTextResponse c status body content_type h =
     (if c \<notin> http_open h then h
      else server_SendResponse c
             \<lparr>resp_status = status, resp_headers = [no_store], resp_body = body,
              resp_content_type = content_type\<rparr> h)"

definition OnConnect :: "int \<Rightarrow> http_transport \<Rightarrow> http_transport" where
  "OnConnect c h = h\<lparr>http_open := insert c (http_open h)\<rparr>"

definition OnClose :: "int \<Rightarrow> http_transport \<Rightarrow> http_transport" where
  "OnClose c h = h\<lparr>http_open := http_open h - {c}\<rparr>"

definition OnHttpRequest :: "base_lib \<Rightarrow> int \<Rightarrow> http_request \<Rightarrow> http_transport \<Rightarrow> http_transport" where
  "OnHttpRequest L c info h =
     (if req_path info \<noteq> ''/mcp'' then SendTextResponse c 404 ''Not Found'' text_plain h
      else if \<not> IsAllowedOrigin L info then SendTextResponse c 403 ''Forbidden'' text_plain h
      else if \<not> IsAuthorized L info h then
        (if c \<notin> http_open h then h
         else server_SendResponse c
                \<lparr>resp_status = 401, resp_headers = [(''WWW-Authenticate'', ''Bearer''), no_store],
                 resp_body = ''Unauthorized'', resp_content_type = text_plain\<rparr> h)
      else if req_method info \<noteq> ''POST'' then
        (if c \<notin> http_open h then h
         else server_SendResponse c
                \<lparr>resp_status = 405, resp_headers = [(''Allow'', ''POST''), no_store],
                 resp_body = ''Method Not Allowed'', resp_content_type = text_plain\<rparr> h)
      else if \<not> AcceptsJson L info then SendTextResponse c 406 ''Not Acceptable'' text_plain h
      else
        (case lib_json_read L (req_data info) of
           None \<Rightarrow> SendTextResponse c 400 ''Invalid JSON'' text_plain h
         | Some message \<Rightarrow> h\<lparr>http_posted := http_posted h @ [(message, c)]\<rparr>))"

definition OnWebSocketRequest :: "int \<Rightarrow> http_request \<Rightarrow> http_transport \<Rightarrow> http_transport" where
  "OnWebSocketRequest c info h = SendTextResponse c 405 ''Method Not Allowed'' text_plain h"

definition OnWebSocketMessage :: "int \<Rightarrow> string \<Rightarrow> http_transport \<Rightarrow> http_transport" where
  "OnWebSocketMessage c data h = SendTextResponse c 405 ''Method Not Allowed'' text_plain h"

definition SendMCPResponse :: "base_lib \<Rightarrow> int \<Rightarrow> dict option \<Rightarrow> http_transport \<Rightarrow> http_transport" where
  "SendMCPResponse L c response h =
     (if c \<notin> http_open h then h
      else
        (case response of
           None \<Rightarrow>
             server_SendResponse c
               \<lparr>resp_status = 202, resp_headers = [no_store], resp_body = [],
                resp_content_type = text_plain\<rparr> h
         | Some r \<Rightarrow>
             (case lib_json_write L (JDict r) of
                None \<Rightarrow> SendTextResponse c 500 ''Failed to serialize MCP response'' text_plain h
              | Some json \<Rightarrow>
                  server_SendResponse c
                    \<lparr>resp_status = 200, resp_headers = [no_store], resp_body = json,
                     resp_content_type = ''application/json''\<rparr> h)))"

section \<open>Runs of the transport\<close>

text \<open>
  What reaches the transport, in any order: connections, requests, closed connections and the
  answers of the server to the messages it was posted, one each. The index is the connections
  of the requests so far.
\<close>

definition take_posted :: "nat \<Rightarrow> http_transport \<Rightarrow> http_transport" where
  "take_posted i h = h\<lparr>http_posted := take i (http_posted h) @ drop (Suc i) (http_posted h)\<rparr>"

inductive http_run :: "base_lib \<Rightarrow> string \<Rightarrow> (int \<times> http_request) list \<Rightarrow> http_transport \<Rightarrow> bool"
  for L :: base_lib and token :: string where
  start: "http_run L token [] (new_http_transport\<lparr>http_token := token, http_running := True\<rparr>)"
| connect: "http_run L token rs h \<Longrightarrow> http_run L token rs (OnConnect c h)"
| close: "http_run L token rs h \<Longrightarrow> http_run L token rs (OnClose c h)"
| request: "http_run L token rs h \<Longrightarrow> http_run L token (rs @ [(c, info)]) (OnHttpRequest L c info h)"
| websocket: "http_run L token rs h \<Longrightarrow> http_run L token (rs @ [(c, info)]) (OnWebSocketRequest c info h)"
| answer: "http_run L token rs h \<Longrightarrow> i < length (http_posted h) \<Longrightarrow>
    http_run L token rs (SendMCPResponse L (snd (http_posted h ! i)) response (take_posted i h))"
| stop: "http_run L token rs h \<Longrightarrow> http_run L token rs (StopOnHttpThread h)"

text \<open>A step answers a connection at most once, or posts at most one message for it.\<close>

definition answers_once :: "int \<Rightarrow> http_transport \<Rightarrow> http_transport \<Rightarrow> bool" where
  "answers_once c h h' \<longleftrightarrow>
     h' = h \<or> (\<exists>r. h' = h\<lparr>http_sent := http_sent h @ [(c, r)]\<rparr> \<and> c \<in> http_open h)"

definition posts_once :: "int \<Rightarrow> http_transport \<Rightarrow> http_transport \<Rightarrow> bool" where
  "posts_once c h h' \<longleftrightarrow> (\<exists>m. h' = h\<lparr>http_posted := http_posted h @ [(m, c)]\<rparr>)"

lemma answers_once_simps [simp]:
  "answers_once c h h"
  "c \<in> http_open h \<Longrightarrow> answers_once c h (server_SendResponse c r h)"
  "answers_once c h (SendTextResponse c st b ct h)"
  by (auto simp: answers_once_def server_SendResponse_def SendTextResponse_def)

lemma posts_once_posted [simp]: "posts_once c h (h\<lparr>http_posted := http_posted h @ [(m, c)]\<rparr>)"
  by (auto simp: posts_once_def)

lemma SendMCPResponse_once: "answers_once c h (SendMCPResponse L c response h)"
  by (simp add: SendMCPResponse_def split: option.split)

lemma OnHttpRequest_once: "answers_once c h (OnHttpRequest L c info h) \<or> posts_once c h (OnHttpRequest L c info h)"
  by (simp add: OnHttpRequest_def split: option.split)

definition owed :: "http_transport \<Rightarrow> int multiset" where
  "owed h = mset (map fst (http_sent h)) + mset (map snd (http_posted h))"

lemma owed_take_posted:
  assumes "i < length (http_posted h)"
  shows "owed h = add_mset (snd (http_posted h ! i)) (owed (take_posted i h))"
proof -
  have "map snd (http_posted h) = map snd (take i (http_posted h)) @
      snd (http_posted h ! i) # map snd (drop (Suc i) (http_posted h))"
    using id_take_nth_drop [OF assms] by (metis list.simps(9) map_append)
  then have "mset (map snd (http_posted h)) =
      add_mset (snd (http_posted h ! i)) (mset (map snd (http_posted (take_posted i h))))"
    by (simp add: take_posted_def)
  then show ?thesis by (simp add: owed_def take_posted_def)
qed

lemma owed_answers_once: "answers_once c h h' \<Longrightarrow> owed h' \<subseteq># add_mset c (owed h)"
  by (auto simp: answers_once_def owed_def)

lemma owed_posts_once: "posts_once c h h' \<Longrightarrow> owed h' \<subseteq># add_mset c (owed h)"
  by (auto simp: posts_once_def owed_def)

lemma run_owed: "http_run L token rs h \<Longrightarrow> owed h \<subseteq># mset (map fst rs)"
proof (induction rule: http_run.induct)
  case start
  show ?case by (simp add: owed_def new_http_transport_def)
next
  case (request rs h c info)
  have "owed (OnHttpRequest L c info h) \<subseteq># add_mset c (owed h)"
    using OnHttpRequest_once [of c h L info] owed_answers_once owed_posts_once by blast
  also have "\<dots> \<subseteq># add_mset c (mset (map fst rs))" using request.IH by simp
  finally show ?case by simp
next
  case (websocket rs h c info)
  have "owed (OnWebSocketRequest c info h) \<subseteq># add_mset c (owed h)"
    unfolding OnWebSocketRequest_def by (rule owed_answers_once) simp
  also have "\<dots> \<subseteq># add_mset c (mset (map fst rs))" using websocket.IH by simp
  finally show ?case by simp
next
  case (answer rs h i response)
  let ?c = "snd (http_posted h ! i)"
  have "owed (SendMCPResponse L ?c response (take_posted i h)) \<subseteq># add_mset ?c (owed (take_posted i h))"
    by (rule owed_answers_once [OF SendMCPResponse_once])
  also have "\<dots> = owed h" using owed_take_posted [OF answer.hyps(2)] by simp
  also have "\<dots> \<subseteq># mset (map fst rs)" by (rule answer.IH)
  finally show ?case .
qed (simp_all add: OnConnect_def OnClose_def StopOnHttpThread_def owed_def)

lemma run_token: "http_run L token rs h \<Longrightarrow> http_token h = token"
proof (induction rule: http_run.induct)
  case (request rs h c info)
  then show ?case
    using OnHttpRequest_once [of c h L info] by (auto simp: answers_once_def posts_once_def)
next
  case (answer rs h i response)
  then show ?case
    using SendMCPResponse_once [of "snd (http_posted h ! i)" "take_posted i h" L response]
    by (auto simp: answers_once_def take_posted_def)
qed (simp_all add: new_http_transport_def OnConnect_def OnClose_def StopOnHttpThread_def
    OnWebSocketRequest_def SendTextResponse_def server_SendResponse_def)

definition http_accepts :: "base_lib \<Rightarrow> string \<Rightarrow> http_request \<Rightarrow> dict \<Rightarrow> bool" where
  "http_accepts L token info m \<longleftrightarrow>
     req_path info = ''/mcp'' \<and>
     (req_header info ''origin'' = [] \<or>
        gurl_is_valid (lib_gurl L (req_header info ''origin'')) \<and>
        IsLoopbackOriginHost L (gurl_host (lib_gurl L (req_header info ''origin'')))) \<and>
     lib_starts_ci L (req_header info ''authorization'') ''Bearer '' \<and>
     drop 7 (req_header info ''authorization'') = token \<and>
     req_method info = ''POST'' \<and> AcceptsJson L info \<and> lib_json_read L (req_data info) = Some m"

lemma OnHttpRequest_posted:
  "http_posted (OnHttpRequest L c info h) =
     http_posted h @ (case lib_json_read L (req_data info) of
        Some m \<Rightarrow> if http_accepts L (http_token h) info m then [(m, c)] else [] | None \<Rightarrow> [])"
proof -
  have sent: "http_posted (SendTextResponse c st b ct h) = http_posted h" for st b ct
    by (simp add: SendTextResponse_def server_SendResponse_def)
  have "length ''Bearer '' = 7" by simp
  then have auth: "IsAuthorized L info h \<longleftrightarrow>
      lib_starts_ci L (req_header info ''authorization'') ''Bearer '' \<and>
      drop 7 (req_header info ''authorization'') = http_token h"
    by (simp only: IsAuthorized_def Let_def) simp
  show ?thesis
    by (simp add: OnHttpRequest_def http_accepts_def auth IsAllowedOrigin_def Let_def
        server_SendResponse_def sent split: option.split) blast
qed

section \<open>Properties\<close>

text \<open>
  C10: only an accepted request reaches the server: whatever the run, every message posted to
  the main thread is the body of a request to \<open>/mcp\<close> that came with no origin or a loopback
  one, with the transport's bearer token, as a POST that accepts JSON.
\<close>

theorem http_posts_only_accepted:
  assumes "http_run L token rs h" and "(m, c) \<in> set (http_posted h)"
  shows "\<exists>info. (c, info) \<in> set rs \<and> http_accepts L token info m"
  using assms
proof (induction arbitrary: m c rule: http_run.induct)
  case (request rs h d info)
  then show ?case
    by (auto simp: OnHttpRequest_posted run_token split: option.splits if_splits)
next
  case (websocket rs h d info)
  then show ?case
    by (auto simp: OnWebSocketRequest_def SendTextResponse_def server_SendResponse_def split: if_splits)
next
  case (answer rs h i response)
  have "(m, c) \<in> set (http_posted (take_posted i h))"
    using answer.prems SendMCPResponse_once [of "snd (http_posted h ! i)" "take_posted i h" L response]
    by (auto simp: answers_once_def)
  then have "(m, c) \<in> set (http_posted h)"
    by (auto simp: take_posted_def dest: in_set_takeD in_set_dropD)
  then show ?case by (rule answer.IH)
qed (simp_all add: new_http_transport_def OnConnect_def OnClose_def StopOnHttpThread_def)

definition demo_http_request :: "string \<Rightarrow> http_request" where
  "demo_http_request auth =
     \<lparr>req_method = ''POST'', req_path = ''/mcp'', req_data = ''{}'',
      req_header = (\<lambda>k. if k = ''authorization'' then auth else if k = ''accept'' then ''text/html, application/json;q=1'' else [])\<rparr>"

definition demo_http_received :: "(int \<times> http_request) list" where
  "demo_http_received = [(1, demo_http_request ''bearer s3''), (2, demo_http_request ''Bearer no'')]"

lemma demo_http_run:
  "http_run ref_lib ''s3'' demo_http_received
     (OnHttpRequest ref_lib 2 (demo_http_request ''Bearer no'')
       (OnHttpRequest ref_lib 1 (demo_http_request ''bearer s3'')
         (OnConnect 2 (OnConnect 1 (new_http_transport\<lparr>http_token := ''s3'', http_running := True\<rparr>)))))"
proof -
  have 0: "http_run ref_lib ''s3'' []
      (OnConnect 2 (OnConnect 1 (new_http_transport\<lparr>http_token := ''s3'', http_running := True\<rparr>)))"
    by (intro http_run.intros)
  note 1 = http_run.request [OF 0, of 1 "demo_http_request ''bearer s3''"]
  from http_run.request [OF 1, of 2 "demo_http_request ''Bearer no''"] show ?thesis
    by (simp add: demo_http_received_def)
qed

theorem http_posts_only_accepted_witness:
  "\<exists>info. (1, info) \<in> set demo_http_received \<and> http_accepts ref_lib ''s3'' info []"
  by (rule http_posts_only_accepted [OF demo_http_run]) code_simp

text \<open>
  No request is answered twice and nothing is sent that was not asked for: the responses
  sent to a connection with the messages posted for it are never more than its requests.
\<close>

lemma http_answers_at_most_once:
  assumes "http_run L token rs h"
  shows "count (mset (map fst (http_sent h))) c + count (mset (map snd (http_posted h))) c
    \<le> count (mset (map fst rs)) c"
  using mset_subset_eq_count [OF run_owed [OF assms], of c] by (simp add: owed_def)

lemma http_answers_at_most_once_witness:
  "count (mset (map fst (http_sent
      (OnHttpRequest ref_lib 2 (demo_http_request ''Bearer no'')
       (OnHttpRequest ref_lib 1 (demo_http_request ''bearer s3'')
         (OnConnect 2 (OnConnect 1 (new_http_transport\<lparr>http_token := ''s3'', http_running := True\<rparr>)))))))) 2 \<le> 1"
  using http_answers_at_most_once [OF demo_http_run, of 2] by (simp add: demo_http_received_def)

text \<open>
  A request on an open connection is answered at once with the status of the first check
  it fails, in the order path, origin, token, method, accepted type, body; when it passes them
  all its message is posted and nothing is sent.
\<close>

lemma http_request_status:
  assumes "c \<in> http_open h"
  shows "map (\<lambda>(d, r). (d, resp_status r)) (drop (length (http_sent h)) (http_sent (OnHttpRequest L c info h))) =
    (if req_path info \<noteq> ''/mcp'' then [(c, 404)]
     else if \<not> IsAllowedOrigin L info then [(c, 403)]
     else if \<not> IsAuthorized L info h then [(c, 401)]
     else if req_method info \<noteq> ''POST'' then [(c, 405)]
     else if \<not> AcceptsJson L info then [(c, 406)]
     else if lib_json_read L (req_data info) = None then [(c, 400)] else [])"
  using assms by (simp add: OnHttpRequest_def SendTextResponse_def server_SendResponse_def split: option.split)

lemma http_request_status_witness:
  "map (\<lambda>(d, r). (d, resp_status r)) (http_sent (OnHttpRequest ref_lib 4 (demo_http_request ''Bearer no'')
     (OnConnect 4 (new_http_transport\<lparr>http_token := ''s3''\<rparr>)))) = [(4, 401)]"
proof -
  have "4 \<in> http_open (OnConnect 4 (new_http_transport\<lparr>http_token := ''s3''\<rparr>))"
    by (simp add: OnConnect_def)
  note * = http_request_status [OF this, of ref_lib "demo_http_request ''Bearer no''"]
  have guards: "req_path (demo_http_request ''Bearer no'') = ''/mcp''"
    "IsAllowedOrigin ref_lib (demo_http_request ''Bearer no'')"
    "\<not> IsAuthorized ref_lib (demo_http_request ''Bearer no'') (OnConnect 4 (new_http_transport\<lparr>http_token := ''s3''\<rparr>))"
    by code_simp+
  have "http_sent (OnConnect 4 (new_http_transport\<lparr>http_token := ''s3''\<rparr>)) = []"
    by (simp add: OnConnect_def new_http_transport_def)
  with * guards show ?thesis by simp
qed

end
