(* ===== verification/Mcp_Ipc.thy ===== *)
theory Mcp_Ipc
  imports Mcp_Transport
begin

unbundle bit_operations_syntax

section \<open>The socket transport on POSIX (\<open>mcp/mcp_ipc_transport_posix.cc\<close>, \<open>mcp/mcp_ipc_transport.cc\<close>)\<close>

text \<open>
  The transport has a thread of its own, which runs \<open>RunLoop\<close>, and the main thread, which
  sends responses and stops the transport; they share the descriptors, the generation and the
  flag \<open>stopping_\<close> under a lock. A step of the model is one critical section or one system
  call, so every interleaving of the two threads is a run of the model. Descriptors are
  numbers, -1 for none. What a system call returns is an argument of the step.
\<close>

subsection \<open>Creating the listening socket\<close>

text \<open>What the file system and the sockets answer, and the calls that change them.\<close>

record unix_stat =
  stat_is_dir :: bool
  stat_is_sock :: bool
  stat_uid :: nat
  stat_mode :: nat

datatype errno = ENOENT | ECONNREFUSED | EINTR | EAGAIN | EBADF | EOTHER

record unix_env =
  env_is_absolute :: "string \<Rightarrow> bool"
  env_dir_name :: "string \<Rightarrow> string"
  env_directory_exists :: "string \<Rightarrow> bool"
  env_stat :: "string \<Rightarrow> unix_stat option"
  env_lstat :: "string \<Rightarrow> errno + unix_stat"
  env_geteuid :: nat
  env_probe_socket :: bool             \<comment> \<open>\<open>socket\<close> for the probe succeeds\<close>
  env_connect :: "string \<Rightarrow> errno option"  \<comment> \<open>\<open>None\<close>: connected\<close>
  env_unlink :: "string \<Rightarrow> errno option"
  env_socket :: int                    \<comment> \<open>the listener's descriptor, or -1\<close>
  env_bind :: bool
  env_chmod :: bool
  env_listen :: bool

datatype unix_call =
    Unlink string
  | Bind int string
  | Chmod string nat
  | Listen int
  | CloseCall int

definition sun_path_size :: nat where
  "sun_path_size = 108"

definition FillUnixAddress :: "string \<Rightarrow> string option" where
  "FillUnixAddress path =
     (if path = [] \<or> sun_path_size \<le> length path then None
      else Some (path @ replicate (sun_path_size - length path) (CHR 0x00)))"

definition group_other_writable :: "nat \<Rightarrow> bool" where
  "group_other_writable mode \<longleftrightarrow> mode AND 18 \<noteq> 0"  \<comment> \<open>\<open>S_IWGRP | S_IWOTH\<close> is octal 022\<close>

definition IsSafeParentDirectory :: "unix_env \<Rightarrow> string \<Rightarrow> bool" where
  "IsSafeParentDirectory E parent =
     (if \<not> env_directory_exists E parent then False
      else
        (case env_stat E parent of
           None \<Rightarrow> False
         | Some st \<Rightarrow>
             if \<not> stat_is_dir st then False
             else if stat_uid st \<noteq> env_geteuid E then False
             else if group_other_writable (stat_mode st) then False
             else True))"

datatype ExistingSocketState = kNone | kActive | kStale | kInvalid | kError

definition ProbeExistingSocket :: "unix_env \<Rightarrow> string \<Rightarrow> ExistingSocketState" where
  "ProbeExistingSocket E path =
     (case env_lstat E path of
        Inl e \<Rightarrow> if e = ENOENT then kNone else kError
      | Inr st \<Rightarrow>
          if \<not> stat_is_sock st then kInvalid
          else if FillUnixAddress path = None then kError
          else if \<not> env_probe_socket E then kError
          else
            (case env_connect E path of
               None \<Rightarrow> kActive
             | Some e \<Rightarrow> if e = ECONNREFUSED \<or> e = ENOENT then kStale else kError))"

text \<open>The descriptor or -1, and the calls made that change something.\<close>

definition CreateListeningSocket :: "unix_env \<Rightarrow> string \<Rightarrow> int \<times> unix_call list" where
  "CreateListeningSocket E path =
     (if \<not> env_is_absolute E path then (-1, [])
      else if \<not> IsSafeParentDirectory E (env_dir_name E path) then (-1, [])
      else if FillUnixAddress path = None then (-1, [])
      else
        let make = (\<lambda>calls.
              if env_socket E < 0 then (-1, calls)
              else if \<not> env_bind E then (-1, calls @ [CloseCall (env_socket E)])
              else
                let calls = calls @ [Bind (env_socket E) path, Chmod path 384]
                in if \<not> env_listen E then
                     (-1, calls @ [CloseCall (env_socket E), Unlink path])
                   else (env_socket E, calls @ [Listen (env_socket E)]))
        in case ProbeExistingSocket E path of
             kNone \<Rightarrow> make []
           | kStale \<Rightarrow>
               (case env_unlink E path of
                  Some e \<Rightarrow> if e \<noteq> ENOENT then (-1, []) else make []
                | None \<Rightarrow> make [Unlink path])
           | _ \<Rightarrow> (-1, []))"

subsection \<open>The shared state and the loop\<close>

text \<open>
  \<open>ipc_pc\<close> is where the loop thread stands, with its local variables: it is about to
  test \<open>stopping_\<close> (\<open>LoopTop\<close>), to take the first snapshots, to poll them, to accept (with
  \<open>client_ready\<close>), to file the accepted descriptor, to take the second snapshot, to receive from
  it, or to drop it. Four fields are ghosts: \<open>ipc_open\<close>, the descriptors opened and not closed;
  \<open>ipc_conn\<close>, the number of the connection taken last; \<open>ipc_origin\<close>, the connections whose
  bytes are in the buffer; \<open>ipc_written\<close>, for each response the generation it is for, the
  connection it went to and the bytes.
\<close>

datatype loop_pc =
    LoopTop
  | Snapshots
  | Polling int int
  | Accepting int bool
  | Filing int bool
  | Taking bool
  | Receiving int "64 word"
  | Dropping int
  | LoopEnd
  | Finished

record ipc_transport =
  ipc_stopping :: bool
  ipc_generation :: "64 word"
  ipc_listener_fd :: int
  ipc_client_fd :: int
  ipc_bound_path :: string
  ipc_pc :: loop_pc
  ipc_buffer :: string
  ipc_posted :: "(dict \<times> 64 word \<times> nat list) list"
  ipc_unlinked :: "string list"
  ipc_open :: "int set"
  ipc_conn :: nat
  ipc_origin :: "nat list"
  ipc_written :: "(64 word \<times> nat \<times> string) list"

definition new_ipc_transport :: ipc_transport where
  "new_ipc_transport =
     \<lparr>ipc_stopping = False, ipc_generation = 0, ipc_listener_fd = -1, ipc_client_fd = -1,
      ipc_bound_path = [], ipc_pc = Finished, ipc_buffer = [], ipc_posted = [], ipc_unlinked = [],
      ipc_open = {}, ipc_conn = 0, ipc_origin = [], ipc_written = []\<rparr>"

definition close_client :: "ipc_transport \<Rightarrow> ipc_transport" where
  "close_client s =
     (if ipc_client_fd s \<ge> 0
      then s\<lparr>ipc_open := ipc_open s - {ipc_client_fd s}, ipc_client_fd := -1\<rparr> else s)"

definition close_listener :: "ipc_transport \<Rightarrow> ipc_transport" where
  "close_listener s =
     (if ipc_listener_fd s \<ge> 0
      then s\<lparr>ipc_open := ipc_open s - {ipc_listener_fd s}, ipc_listener_fd := -1\<rparr> else s)"

definition RequestStopLocked :: "ipc_transport \<Rightarrow> ipc_transport" where
  "RequestStopLocked s =
     (let s1 = close_listener (close_client s)
      in if ipc_bound_path s1 \<noteq> []
         then s1\<lparr>ipc_unlinked := ipc_unlinked s1 @ [ipc_bound_path s1], ipc_bound_path := []\<rparr>
         else s1)"

text \<open>What the system calls of one turn of the loop return; \<open>os_recv\<close> is \<open>None\<close> for at most 0.\<close>

record os_answer =
  os_poll :: int
  os_listener_ready :: bool
  os_client_ready :: bool
  os_accept :: int
  os_recv :: "string option"

definition DispatchLine :: "base_lib \<Rightarrow> 64 word \<Rightarrow> nat list \<Rightarrow> string \<Rightarrow> (dict \<times> 64 word \<times> nat list) list" where
  "DispatchLine L client_generation origin line =
     (case ParseMCPTransportLine L line of
        None \<Rightarrow> []
      | Some m \<Rightarrow> [(m, client_generation, origin)])"

definition loop_step :: "base_lib \<Rightarrow> os_answer \<Rightarrow> ipc_transport \<Rightarrow> ipc_transport" where
  "loop_step L a s =
     (case ipc_pc s of
        LoopTop \<Rightarrow> s\<lparr>ipc_pc := if ipc_stopping s then LoopEnd else Snapshots\<rparr>
      | Snapshots \<Rightarrow>
          s\<lparr>ipc_pc := if ipc_listener_fd s < 0 \<and> ipc_client_fd s < 0 then LoopEnd
                      else Polling (ipc_listener_fd s) (ipc_client_fd s)\<rparr>
      | Polling listener client \<Rightarrow>
          if os_poll a \<le> 0 then s\<lparr>ipc_pc := LoopTop\<rparr>
          else let listener_ready = listener \<ge> 0 \<and> os_listener_ready a;
                   client_ready = client \<ge> 0 \<and> os_client_ready a
               in s\<lparr>ipc_pc := if listener_ready then Accepting listener client_ready
                              else Taking client_ready\<rparr>
      | Accepting listener client_ready \<Rightarrow>
          if os_accept a \<ge> 0
          then s\<lparr>ipc_open := insert (os_accept a) (ipc_open s), ipc_pc := Filing (os_accept a) client_ready\<rparr>
          else s\<lparr>ipc_pc := Taking client_ready\<rparr>
      | Filing fd client_ready \<Rightarrow>
          if ipc_client_fd s \<ge> 0
          then s\<lparr>ipc_open := ipc_open s - {fd}, ipc_pc := Taking client_ready\<rparr>
          else s\<lparr>ipc_client_fd := fd, ipc_generation := ipc_generation s + 1, ipc_buffer := [],
                 ipc_conn := Suc (ipc_conn s), ipc_origin := [], ipc_pc := Taking client_ready\<rparr>
      | Taking client_ready \<Rightarrow>
          s\<lparr>ipc_pc := if ipc_client_fd s < 0 \<or> \<not> client_ready then LoopTop
                      else Receiving (ipc_client_fd s) (ipc_generation s)\<rparr>
      | Receiving fd client_generation \<Rightarrow>
          (case os_recv a of
             None \<Rightarrow> s\<lparr>ipc_pc := Dropping fd\<rparr>
           | Some chunk \<Rightarrow>
               let r = recv_chunk chunk ([], ipc_buffer s); origin = ipc_origin s @ [ipc_conn s]
               in s\<lparr>ipc_buffer := snd r, ipc_origin := origin,
                    ipc_posted := ipc_posted s @ concat (map (DispatchLine L client_generation origin) (fst r)),
                    ipc_pc := LoopTop\<rparr>)
      | Dropping fd \<Rightarrow>
          (if ipc_client_fd s = fd then close_client s else s)
            \<lparr>ipc_buffer := [], ipc_origin := [], ipc_pc := LoopTop\<rparr>
      | LoopEnd \<Rightarrow> (RequestStopLocked s)\<lparr>ipc_pc := Finished\<rparr>
      | Finished \<Rightarrow> s)"

text \<open>
  The start of \<open>RunLoop\<close>, and \<open>Start\<close>: the main thread waits until the loop thread has its
  socket or has failed.
\<close>

definition RunLoop_start :: "unix_env \<Rightarrow> string \<Rightarrow> ipc_transport \<Rightarrow> bool \<times> ipc_transport" where
  "RunLoop_start E path s =
     (let listener_fd = fst (CreateListeningSocket E path)
      in if listener_fd < 0 then (False, s)
         else (True, s\<lparr>ipc_listener_fd := listener_fd, ipc_bound_path := path, ipc_buffer := [],
                       ipc_open := insert listener_fd (ipc_open s), ipc_pc := LoopTop\<rparr>))"

definition IpcStart :: "bool \<Rightarrow> unix_env \<Rightarrow> string \<Rightarrow> ipc_transport \<Rightarrow> bool \<times> ipc_transport" where
  "IpcStart thread_ok E path s =
     (if path = [] then (False, s)
      else if \<not> thread_ok then (False, s)
      else let (success, s1) = RunLoop_start E path s
           in if success then (True, s1) else (False, RequestStopLocked (s1\<lparr>ipc_stopping := True\<rparr>)))"

text \<open>The destructor, up to the join of the loop thread.\<close>

definition StopTransport :: "ipc_transport \<Rightarrow> ipc_transport" where
  "StopTransport s = RequestStopLocked (s\<lparr>ipc_stopping := True\<rparr>)"

subsection \<open>Sending a response\<close>

text \<open>
  The \<open>send\<close> loop: what each call returns is given, and the loop gives the bytes that went out
  and whether it ended with all of them (\<open>AllSent\<close>), with an error (\<open>SendFailed\<close>) or is still in
  a call that has not returned (\<open>InSend\<close>).
\<close>

datatype send_outcome = SendBytes nat | SendInterrupted | SendFailure

datatype send_end = AllSent | SendFailed | InSend

fun send_all :: "send_outcome list \<Rightarrow> string \<Rightarrow> string \<times> send_end" where
  "send_all os [] = ([], AllSent)"
| "send_all [] remaining = ([], InSend)"
| "send_all (SendBytes n # os) remaining =
     (if n = 0 then ([], SendFailed)
      else let r = send_all os (drop n remaining) in (take n remaining @ fst r, snd r))"
| "send_all (SendInterrupted # os) remaining = send_all os remaining"
| "send_all (SendFailure # os) remaining = ([], SendFailed)"

definition SendSerializedResponse :: "send_outcome list \<Rightarrow> 64 word \<Rightarrow> string \<Rightarrow> ipc_transport \<Rightarrow> ipc_transport" where
  "SendSerializedResponse os client_generation serialized s =
     (if ipc_client_fd s < 0 \<or> ipc_generation s \<noteq> client_generation then s
      else
        let (bytes, e) = send_all os serialized;
            s1 = s\<lparr>ipc_written := ipc_written s @ [(client_generation, ipc_conn s, bytes)]\<rparr>
        in if e = SendFailed then close_client s1 else s1)"

definition IpcSendResponse ::
  "base_lib \<Rightarrow> send_outcome list \<Rightarrow> 64 word \<Rightarrow> dict option \<Rightarrow> ipc_transport \<Rightarrow> ipc_transport" where
  "IpcSendResponse L os client_generation response s =
     (case response of
        None \<Rightarrow> s
      | Some r \<Rightarrow>
          (case SerializeMCPTransportMessage L r of
             None \<Rightarrow> s
           | Some serialized \<Rightarrow> SendSerializedResponse os client_generation serialized s))"

section \<open>Runs of the transport\<close>

text \<open>
  What the operating system promises: \<open>accept\<close> returns a descriptor that is not open, and
  \<open>recv\<close> fails on one that is closed.
\<close>

definition os_answer_ok :: "os_answer \<Rightarrow> ipc_transport \<Rightarrow> bool" where
  "os_answer_ok a s \<longleftrightarrow>
     (case ipc_pc s of
        Accepting l r \<Rightarrow> os_accept a \<ge> 0 \<longrightarrow> os_accept a \<notin> ipc_open s
      | Receiving fd g \<Rightarrow> os_recv a \<noteq> None \<longrightarrow> fd \<in> ipc_open s
      | _ \<Rightarrow> True)"

inductive ipc_run :: "base_lib \<Rightarrow> ipc_transport \<Rightarrow> bool" for L :: base_lib where
  start: "IpcStart t E path new_ipc_transport = (True, s) \<Longrightarrow> ipc_run L s"
| loop: "ipc_run L s \<Longrightarrow> os_answer_ok a s \<Longrightarrow> ipc_run L (loop_step L a s)"
| respond: "ipc_run L s \<Longrightarrow> (m, g, src) \<in> set (ipc_posted s) \<Longrightarrow>
    ipc_run L (IpcSendResponse L os g response s)"
| stop: "ipc_run L s \<Longrightarrow> ipc_run L (StopTransport s)"

text \<open>
  The descriptors: the open ones are the listener, the client and the one being filed, all
  different. The generations: the generation is the number of the connection, what is in the
  buffer came from the current connection, and what was posted or written bears the generation
  of its own connection.
\<close>

definition filing_fd :: "loop_pc \<Rightarrow> int" where
  "filing_fd pc = (case pc of Filing fd r \<Rightarrow> fd | _ \<Rightarrow> -1)"

definition fds_ok :: "int set \<Rightarrow> int \<Rightarrow> int \<Rightarrow> int \<Rightarrow> bool" where
  "fds_ok fds l c f \<longleftrightarrow>
     (\<forall>fd. fd \<in> fds \<longleftrightarrow> fd \<ge> 0 \<and> (fd = l \<or> fd = c \<or> fd = f)) \<and>
     (l \<ge> 0 \<longrightarrow> l \<noteq> c \<and> l \<noteq> f) \<and> (c \<ge> 0 \<longrightarrow> c \<noteq> f)"

lemma fds_close_client: "fds_ok fds l c f \<Longrightarrow> c \<ge> 0 \<Longrightarrow> fds_ok (fds - {c}) l (-1) f"
  unfolding fds_ok_def by fastforce

lemma fds_close_listener: "fds_ok fds l c f \<Longrightarrow> l \<ge> 0 \<Longrightarrow> fds_ok (fds - {l}) (-1) c f"
  unfolding fds_ok_def by fastforce

lemma fds_accept: "fds_ok fds l c (-1) \<Longrightarrow> fd \<ge> 0 \<Longrightarrow> fd \<notin> fds \<Longrightarrow> fds_ok (insert fd fds) l c fd"
  unfolding fds_ok_def by fastforce

lemma fds_file: "fds_ok fds l c f \<Longrightarrow> c < 0 \<Longrightarrow> fds_ok fds l f (-1)"
  unfolding fds_ok_def by fastforce

lemma fds_refuse: "fds_ok fds l c f \<Longrightarrow> fds_ok (fds - {f}) l c (-1)"
  unfolding fds_ok_def by fastforce

definition descriptors_ok :: "ipc_transport \<Rightarrow> bool" where
  "descriptors_ok s \<longleftrightarrow>
     fds_ok (ipc_open s) (ipc_listener_fd s) (ipc_client_fd s) (filing_fd (ipc_pc s)) \<and>
     (ipc_pc s = Finished \<longrightarrow> ipc_listener_fd s < 0 \<and> ipc_client_fd s < 0)"

definition gens_ok ::
  "nat \<Rightarrow> (dict \<times> 64 word \<times> nat list) list \<Rightarrow> (64 word \<times> nat \<times> string) list \<Rightarrow> bool" where
  "gens_ok conn posted written \<longleftrightarrow>
     (\<forall>(m, g, src) \<in> set posted. \<forall>n \<in> set src. n \<le> conn \<and> g = of_nat n) \<and>
     (\<forall>(g, c, bytes) \<in> set written. c \<le> conn \<and> g = of_nat c)"

lemma gens_home:
  assumes "gens_ok conn posted written" "conn < 2 ^ 64"
    and "(m, g, src) \<in> set posted" "n \<in> set src" "(g, c, bytes) \<in> set written"
  shows "c = n"
proof -
  from assms(1,3-5) have "n \<le> conn" "c \<le> conn" and eq: "(of_nat n :: 64 word) = of_nat c"
    unfolding gens_ok_def by fastforce+
  with assms(2) have "n < 2 ^ 64" "c < 2 ^ 64" by linarith+
  moreover from arg_cong [OF eq, of unat] have "n mod 2 ^ 64 = c mod 2 ^ 64"
    by (simp add: unat_of_nat)
  ultimately show ?thesis by simp
qed

definition receiving_ok :: "loop_pc \<Rightarrow> 64 word \<Rightarrow> bool" where
  "receiving_ok pc generation = (case pc of Receiving fd g \<Rightarrow> g = generation | _ \<Rightarrow> True)"

definition generations_ok :: "ipc_transport \<Rightarrow> bool" where
  "generations_ok s \<longleftrightarrow>
     gens_ok (ipc_conn s) (ipc_posted s) (ipc_written s) \<and>
     ipc_generation s = of_nat (ipc_conn s) \<and> set (ipc_origin s) \<subseteq> {ipc_conn s} \<and>
     receiving_ok (ipc_pc s) (ipc_generation s)"

lemma stop_simps [simp]:
  "ipc_pc (close_client s) = ipc_pc s" "ipc_pc (close_listener s) = ipc_pc s"
  "ipc_pc (RequestStopLocked s) = ipc_pc s" 
  "ipc_listener_fd (RequestStopLocked s) < 0" "ipc_client_fd (RequestStopLocked s) < 0"
  by (simp_all add: RequestStopLocked_def close_client_def close_listener_def Let_def)

lemma descriptors_close_client: "descriptors_ok s \<Longrightarrow> descriptors_ok (close_client s)"
  by (simp add: descriptors_ok_def close_client_def fds_close_client)

lemma descriptors_close_listener: "descriptors_ok s \<Longrightarrow> descriptors_ok (close_listener s)"
  by (simp add: descriptors_ok_def close_listener_def fds_close_listener)

lemma descriptors_stop: "descriptors_ok s \<Longrightarrow> descriptors_ok (RequestStopLocked s)"
  using descriptors_close_listener [OF descriptors_close_client, of s]
  by (simp add: RequestStopLocked_def Let_def descriptors_ok_def)

lemma descriptors_loop_step:
  assumes "descriptors_ok s" "os_answer_ok a s" shows "descriptors_ok (loop_step L a s)"
proof (cases "ipc_pc s")
  case (Dropping fd)
  have "descriptors_ok (if ipc_client_fd s = fd then close_client s else s)"
    using assms(1) descriptors_close_client by simp
  then show ?thesis using Dropping
    by (simp add: loop_step_def descriptors_ok_def filing_fd_def split: if_splits)
next
  case LoopEnd
  then show ?thesis
    using descriptors_stop [OF assms(1)] by (simp add: loop_step_def descriptors_ok_def filing_fd_def)
next
  case (Accepting l r)
  then show ?thesis
    using assms by (simp add: loop_step_def descriptors_ok_def filing_fd_def os_answer_ok_def fds_accept)
next
  case (Filing fd r)
  then show ?thesis
    using assms(1) by (simp add: loop_step_def descriptors_ok_def filing_fd_def fds_file fds_refuse)
qed (use assms(1) in \<open>simp_all add: loop_step_def descriptors_ok_def filing_fd_def Let_def split: option.split\<close>)

lemma generations_close [simp]:
  "generations_ok (close_client s) = generations_ok s" "generations_ok (close_listener s) = generations_ok s"
  "generations_ok (RequestStopLocked s) = generations_ok s"
  by (simp_all add: generations_ok_def RequestStopLocked_def close_client_def close_listener_def Let_def)

lemma DispatchLine_stamp: "(m, g, src) \<in> set (DispatchLine L cg origin l) \<Longrightarrow> g = cg \<and> src = origin"
  by (auto simp: DispatchLine_def split: option.splits)

lemma gens_later: "gens_ok conn posted written \<Longrightarrow> gens_ok (Suc conn) posted written"
  unfolding gens_ok_def by (fastforce intro: le_SucI)

lemma gens_post:
  assumes "gens_ok conn posted written" "set origin \<subseteq> {conn}"
  shows "gens_ok conn (posted @ concat (map (DispatchLine L (of_nat conn) origin) ls)) written"
  using assms unfolding gens_ok_def by (fastforce dest: DispatchLine_stamp)

lemma gens_write: "gens_ok conn posted written \<Longrightarrow> gens_ok conn posted (written @ [(of_nat conn, conn, bytes)])"
  by (simp add: gens_ok_def)

lemma generations_loop_step:
  assumes "generations_ok s" shows "generations_ok (loop_step L a s)"
proof (cases "ipc_pc s")
  case (Filing fd r)
  then show ?thesis using assms
    by (simp add: loop_step_def generations_ok_def receiving_ok_def gens_later)
next
  case (Receiving fd g)
  with assms have "gens_ok (ipc_conn s) (ipc_posted s @ concat (map (DispatchLine L (of_nat (ipc_conn s))
      (ipc_origin s @ [ipc_conn s])) ls)) (ipc_written s)" for ls
    by (intro gens_post) (simp_all add: generations_ok_def)
  with Receiving assms show ?thesis
    by (simp add: loop_step_def generations_ok_def receiving_ok_def Let_def split: option.split)
next
  case (Dropping fd)
  have "generations_ok (if ipc_client_fd s = fd then close_client s else s)"
    using assms by simp
  then show ?thesis using Dropping
    by (simp add: loop_step_def generations_ok_def receiving_ok_def split: if_splits)
next
  case LoopEnd
  then have "generations_ok (RequestStopLocked s)" using assms by simp
  then show ?thesis using LoopEnd by (simp add: loop_step_def generations_ok_def receiving_ok_def)
qed (use assms in \<open>simp_all add: loop_step_def generations_ok_def receiving_ok_def Let_def\<close>)

definition after_write :: "64 word \<Rightarrow> string \<Rightarrow> ipc_transport \<Rightarrow> ipc_transport" where
  "after_write g bytes s = s\<lparr>ipc_written := ipc_written s @ [(g, ipc_conn s, bytes)]\<rparr>"

lemma IpcSendResponse_cases:
  "IpcSendResponse L os g response s = s \<or>
   (\<exists>bytes. ipc_client_fd s \<ge> 0 \<and> ipc_generation s = g \<and>
      (IpcSendResponse L os g response s = after_write g bytes s \<or>
       IpcSendResponse L os g response s = close_client (after_write g bytes s)))"
  by (auto simp: IpcSendResponse_def SendSerializedResponse_def after_write_def Let_def
      split: option.split prod.split)

lemma after_write_ok:
  assumes "descriptors_ok s" "generations_ok s" "ipc_generation s = g"
  shows "descriptors_ok (after_write g bytes s)" "generations_ok (after_write g bytes s)"
  using assms
  by (auto simp: after_write_def descriptors_ok_def generations_ok_def gens_write)

lemma IpcStart_started:
  assumes "IpcStart t E path new_ipc_transport = (True, s)"
  shows "descriptors_ok s" "generations_ok s"
  using assms
  by (auto simp: IpcStart_def RunLoop_start_def Let_def new_ipc_transport_def descriptors_ok_def
      generations_ok_def receiving_ok_def filing_fd_def fds_ok_def gens_ok_def split: if_splits)

lemma ipc_run_invariants: "ipc_run L s \<Longrightarrow> descriptors_ok s \<and> generations_ok s"
proof (induction rule: ipc_run.induct)
  case (start t E path s)
  then show ?case by (simp add: IpcStart_started)
next
  case (loop s a)
  then show ?case by (simp add: descriptors_loop_step generations_loop_step)
next
  case (respond s m g src os response)
  then show ?case
    using IpcSendResponse_cases [of L os g response s] after_write_ok [of s g]
    by (metis descriptors_close_client generations_close(1))
next
  case (stop s)
  then have "descriptors_ok (s\<lparr>ipc_stopping := True\<rparr>)" "generations_ok (s\<lparr>ipc_stopping := True\<rparr>)"
    by (auto simp: descriptors_ok_def generations_ok_def)
  then show ?case
    unfolding StopTransport_def generations_close by (blast intro: descriptors_stop)
qed

subsection \<open>The end of the loop\<close>

text \<open>How many turns the loop thread is away from its end, once it is to stop.\<close>

fun loop_rank :: "loop_pc \<Rightarrow> nat" where
  "loop_rank Finished = 0"
| "loop_rank LoopEnd = 1"
| "loop_rank LoopTop = 2"
| "loop_rank (Dropping fd) = 3"
| "loop_rank (Receiving fd g) = 4"
| "loop_rank (Taking r) = 5"
| "loop_rank (Filing fd r) = 6"
| "loop_rank (Accepting l r) = 7"
| "loop_rank (Polling l c) = 8"
| "loop_rank Snapshots = 9"

lemma loop_step_stopping: "ipc_stopping (loop_step L a s) = ipc_stopping s"
  by (simp add: loop_step_def RequestStopLocked_def close_client_def close_listener_def Let_def
      split: loop_pc.split option.split)

lemma loop_step_rank:
  "ipc_stopping s \<Longrightarrow> loop_rank (ipc_pc (loop_step L a s)) \<le> loop_rank (ipc_pc s) - 1"
  by (cases "ipc_pc s") (simp_all add: loop_step_def Let_def split: option.split)

lemma loop_steps_finish:
  "ipc_stopping s \<Longrightarrow> loop_rank (ipc_pc s) \<le> length as \<Longrightarrow> ipc_pc (fold (loop_step L) as s) = Finished"
proof (induction as arbitrary: s)
  case Nil
  then show ?case by (cases "ipc_pc s") simp_all
next
  case (Cons a as)
  from loop_step_rank [OF Cons.prems(1), of L a] Cons show ?case
    by (simp add: loop_step_stopping)
qed

fun os_answers_ok :: "base_lib \<Rightarrow> os_answer list \<Rightarrow> ipc_transport \<Rightarrow> bool" where
  "os_answers_ok L [] s = True"
| "os_answers_ok L (a # as) s = (os_answer_ok a s \<and> os_answers_ok L as (loop_step L a s))"

lemma ipc_run_steps: "ipc_run L s \<Longrightarrow> os_answers_ok L as s \<Longrightarrow> ipc_run L (fold (loop_step L) as s)"
  by (induction as arbitrary: s) (simp_all add: ipc_run.loop)

lemma Finished_unbound: "ipc_run L s \<Longrightarrow> ipc_pc s = Finished \<Longrightarrow> ipc_bound_path s = []"
proof (induction rule: ipc_run.induct)
  case (start t E path s)
  then show ?case by (auto simp: IpcStart_def RunLoop_start_def new_ipc_transport_def Let_def split: if_splits)
next
  case (loop s a)
  then show ?case
    by (cases "ipc_pc s")
      (auto simp: loop_step_def Let_def RequestStopLocked_def split: option.splits if_splits)
next
  case (respond s m g src os response)
  then show ?case
    using IpcSendResponse_cases [of L os g response s]
    by (auto simp: after_write_def close_client_def split: if_splits)
next
  case (stop s)
  then show ?case by (simp add: StopTransport_def RequestStopLocked_def Let_def)
qed

lemma send_all_prefix: "send_all os bytes = (sent, e) \<Longrightarrow> \<exists>rest. bytes = sent @ rest \<and> (e = AllSent \<longrightarrow> rest = [])"
proof (induction os bytes arbitrary: sent e rule: send_all.induct)
  case (3 n os b bs)
  show ?case
  proof (cases "n = 0")
    case False
    let ?r = "send_all os (drop n (b # bs))"
    from False 3(1) [OF False, of "fst ?r" "snd ?r"] obtain rest where
      "drop n (b # bs) = fst ?r @ rest" "snd ?r = AllSent \<longrightarrow> rest = []" by auto
    then have "b # bs = take n (b # bs) @ fst ?r @ rest" by (metis append_take_drop_id)
    with 3(2) False \<open>snd ?r = AllSent \<longrightarrow> rest = []\<close> show ?thesis by (auto simp: Let_def)
  qed (use 3(2) in simp)
qed auto

section \<open>Properties\<close>

definition safe_env :: unix_env where
  "safe_env =
     \<lparr>env_is_absolute = (\<lambda>p. True), env_dir_name = (\<lambda>p. ''/run''), env_directory_exists = (\<lambda>p. True),
      env_stat = (\<lambda>p. Some \<lparr>stat_is_dir = True, stat_is_sock = False, stat_uid = 7, stat_mode = 448\<rparr>),
      env_lstat = (\<lambda>p. Inr \<lparr>stat_is_dir = False, stat_is_sock = True, stat_uid = 7, stat_mode = 384\<rparr>),
      env_geteuid = 7, env_probe_socket = True, env_connect = (\<lambda>p. Some ECONNREFUSED),
      env_unlink = (\<lambda>p. None), env_socket = 3, env_bind = True, env_chmod = True, env_listen = True\<rparr>"

definition quiet :: os_answer where
  "quiet = \<lparr>os_poll = 1, os_listener_ready = True, os_client_ready = True, os_accept = -1, os_recv = None\<rparr>"

text \<open>A client connects and sends one line; the server answers it in two pieces.\<close>

definition demo_answers :: "os_answer list" where
  "demo_answers =
     [quiet, quiet, quiet, quiet\<lparr>os_accept := 5\<rparr>, quiet, quiet, quiet, quiet,
      quiet\<lparr>os_listener_ready := False\<rparr>, quiet, quiet\<lparr>os_recv := Some (''{}'' @ [newline])\<rparr>]"

definition demo_ipc :: ipc_transport where
  "demo_ipc = fold (loop_step ref_lib) demo_answers (snd (IpcStart True safe_env ''/run/b.sock'' new_ipc_transport))"

definition demo_answered :: ipc_transport where
  "demo_answered = IpcSendResponse ref_lib [SendBytes 2, SendInterrupted, SendBytes 5] 1 (Some []) demo_ipc"

lemma demo_ipc_run: "ipc_run ref_lib demo_ipc"
proof -
  let ?s = "snd (IpcStart True safe_env ''/run/b.sock'' new_ipc_transport)"
  have "fst (IpcStart True safe_env ''/run/b.sock'' new_ipc_transport) = True" by code_simp
  then have "IpcStart True safe_env ''/run/b.sock'' new_ipc_transport = (True, ?s)"
    by (metis prod.collapse)
  then have "ipc_run ref_lib ?s" by (rule ipc_run.start)
  moreover have "os_answers_ok ref_lib demo_answers ?s" by code_simp
  ultimately show ?thesis unfolding demo_ipc_def by (rule ipc_run_steps)
qed

lemma demo_posted: "([], 1, [1]) \<in> set (ipc_posted demo_ipc)"
  by code_simp

lemma demo_answered_run: "ipc_run ref_lib demo_answered"
  unfolding demo_answered_def by (rule ipc_run.respond [OF demo_ipc_run demo_posted])

text \<open>
  C8: an answer goes home: whatever the two threads do in between (clients that leave and
  others that come, failed sends, a stop), the response to a message read from one connection
  is written to that connection or to none. The bound is the range of the 64-bit generation.
\<close>

theorem ipc_answers_go_home:
  assumes "ipc_run L s" and "ipc_conn s < 2 ^ 64"
    and "(m, g, src) \<in> set (ipc_posted s)" "n \<in> set src" and "(g, c, bytes) \<in> set (ipc_written s)"
  shows "c = n"
  using ipc_run_invariants [OF assms(1)] assms(2-5) by (auto simp: generations_ok_def intro: gens_home)

theorem ipc_answers_go_home_witness:
  "fst (snd (hd (ipc_written demo_answered))) = 1"
proof -
  have "ipc_conn demo_answered = 1" by code_simp
  then have "ipc_conn demo_answered < 2 ^ 64" by simp
  moreover have "([], 1, [1]) \<in> set (ipc_posted demo_answered)" by code_simp
  moreover have w: "ipc_written demo_answered = [(1, 1, ''{}'' @ [newline])]" by code_simp
  then have "(1, 1, ''{}'' @ [newline]) \<in> set (ipc_written demo_answered)" by simp
  ultimately have "fst (snd (1 :: 64 word, 1 :: nat, ''{}'' @ [newline])) = 1"
    using ipc_answers_go_home [OF demo_answered_run, of "[]" 1 "[1]" 1 1] by simp
  with w show ?thesis by simp
qed

text \<open>
  No descriptor leaks and none is closed twice: at every point of every run the open
  descriptors are the listener, the one client and the one just accepted, and when the loop has
  ended none is open and the socket path has been unlinked.
\<close>

lemma ipc_descriptors_accounted:
  assumes "ipc_run L s"
  shows "ipc_open s = {fd \<in> {ipc_listener_fd s, ipc_client_fd s, filing_fd (ipc_pc s)}. fd \<ge> 0} \<and>
    (ipc_pc s = Finished \<longrightarrow> ipc_open s = {} \<and> ipc_bound_path s = [])"
proof -
  have fds: "fds_ok (ipc_open s) (ipc_listener_fd s) (ipc_client_fd s) (filing_fd (ipc_pc s))"
    and fin: "ipc_pc s = Finished \<Longrightarrow> ipc_listener_fd s < 0 \<and> ipc_client_fd s < 0"
    using ipc_run_invariants [OF assms] by (simp_all add: descriptors_ok_def)
  then have "ipc_open s = {fd \<in> {ipc_listener_fd s, ipc_client_fd s, filing_fd (ipc_pc s)}. fd \<ge> 0}"
    unfolding fds_ok_def by blast
  with fin Finished_unbound [OF assms] show ?thesis by (auto simp: filing_fd_def)
qed

lemma ipc_descriptors_accounted_witness: "ipc_open demo_ipc = {3, 5}"
proof -
  have l: "ipc_listener_fd demo_ipc = 3" by code_simp
  have c: "ipc_client_fd demo_ipc = 5" by code_simp
  have f: "filing_fd (ipc_pc demo_ipc) = -1" by code_simp
  from conjunct1 [OF ipc_descriptors_accounted [OF demo_ipc_run]]
  have "ipc_open demo_ipc = {fd \<in> {3, 5, -1}. fd \<ge> 0}" unfolding l c f .
  moreover have "{fd \<in> {3, 5, -1}. fd \<ge> 0} = {3, 5 :: int}" by auto
  ultimately show ?thesis by (rule trans)
qed

text \<open>
  C29: stopping ends the loop: once \<open>stopping_\<close> is set, at most nine steps of the loop thread,
  with any answers of the system calls, bring it to its end, with every descriptor closed.
\<close>

theorem ipc_stop_ends_loop:
  assumes "ipc_run L s" "ipc_stopping s" and "9 \<le> length as" "os_answers_ok L as s"
  shows "ipc_pc (fold (loop_step L) as s) = Finished \<and> ipc_open (fold (loop_step L) as s) = {}"
proof -
  have "loop_rank (ipc_pc s) \<le> 9" by (cases "ipc_pc s") simp_all
  with assms(3) have fin: "ipc_pc (fold (loop_step L) as s) = Finished"
    using loop_steps_finish [OF assms(2)] by simp
  moreover have "descriptors_ok (fold (loop_step L) as s)"
    using ipc_run_invariants [OF ipc_run_steps [OF assms(1,4)]] by blast
  ultimately show ?thesis
    unfolding descriptors_ok_def fds_ok_def filing_fd_def by fastforce
qed

theorem ipc_stop_ends_loop_witness:
  "ipc_open (fold (loop_step ref_lib) (replicate 9 quiet) (StopTransport demo_ipc)) = {}"
proof -
  have "ipc_stopping (StopTransport demo_ipc)" by code_simp
  moreover have "os_answers_ok ref_lib (replicate 9 quiet) (StopTransport demo_ipc)" by code_simp
  moreover have "9 \<le> length (replicate 9 quiet)" by simp
  ultimately show ?thesis
    using ipc_stop_ends_loop [OF ipc_run.stop [OF demo_ipc_run]] by blast
qed

text \<open>
  C14: the transport takes over a socket path only when it is safe: it unlinks an existing
  path only when that is a socket and a connection to it was refused, or one it has just bound itself,
  binds only in a directory of the current user that no one else can write to, with a path that fits the
  address and where nothing was or such a dead socket, and asks for mode 0600 before it listens;
  whenever it gives up it makes no listener, and it closes and removes what it bound.
\<close>

theorem listening_socket_is_safe:
  assumes "CreateListeningSocket E path = (fd, calls)"
  shows "(\<forall>i p. i < length calls \<and> calls ! i = Unlink p \<longrightarrow> p = path \<and>
       ((\<exists>st. env_lstat E path = Inr st \<and> stat_is_sock st \<and> env_probe_socket E \<and>
           env_connect E path \<in> {Some ECONNREFUSED, Some ENOENT}) \<or>
        Bind (env_socket E) path \<in> set (take i calls))) \<and>
    (\<forall>d p. Bind d p \<in> set calls \<longrightarrow> d = env_socket E \<and> 0 \<le> d \<and> p = path \<and>
       env_is_absolute E path \<and> env_directory_exists E (env_dir_name E path) \<and>
       (\<exists>st. env_stat E (env_dir_name E path) = Some st \<and> stat_is_dir st \<and> stat_uid st = env_geteuid E \<and>
          \<not> group_other_writable (stat_mode st)) \<and>
       0 < length path \<and> length path < 108 \<and>
       (env_lstat E path = Inl ENOENT \<or>
        (\<exists>st. env_lstat E path = Inr st \<and> stat_is_sock st \<and> env_connect E path \<in> {Some ECONNREFUSED, Some ENOENT})) \<and>
       (fd < 0 \<longrightarrow> (\<exists>pre. calls = pre @ [CloseCall d, Unlink path]))) \<and>
    (fd \<ge> 0 \<longrightarrow> fd = env_socket E \<and>
       (\<exists>pre. calls = pre @ [Bind fd path, Chmod path 384, Listen fd])) \<and>
    (fd < 0 \<longrightarrow> fd = -1 \<and> (\<forall>d. Listen d \<notin> set calls))"
  using assms
  by (auto simp: CreateListeningSocket_def ProbeExistingSocket_def FillUnixAddress_def IsSafeParentDirectory_def
      sun_path_size_def Let_def less_Suc_eq nth_Cons'
      split: if_splits sum.splits option.splits)

theorem listening_socket_is_safe_witness:
  "CreateListeningSocket safe_env ''/run/b.sock''
     = (3, [Unlink ''/run/b.sock'', Bind 3 ''/run/b.sock'', Chmod ''/run/b.sock'' 384, Listen 3])
   \<and> (\<exists>st. env_lstat safe_env ''/run/b.sock'' = Inr st \<and> stat_is_sock st)"
proof -
  have c: "CreateListeningSocket safe_env ''/run/b.sock''
     = (3, [Unlink ''/run/b.sock'', Bind 3 ''/run/b.sock'', Chmod ''/run/b.sock'' 384, Listen 3])" by code_simp
  from conjunct1 [OF listening_socket_is_safe [OF c], rule_format, of 0 "''/run/b.sock''"] c show ?thesis by auto
qed

lemma send_all_ends:
  "length bytes \<le> length (filter (\<lambda>out. out \<noteq> SendInterrupted) os) \<Longrightarrow> snd (send_all os bytes) \<noteq> InSend"
proof (induction os bytes rule: send_all.induct)
  case (3 n os b bs)
  then show ?case by (cases "n = 0") (simp_all add: Let_def)
qed auto

text \<open>
  The send loop writes a prefix of the response, all of it exactly when it ends well, and it
  ends: as many returns other than EINTR as there are bytes are enough.
\<close>

lemma send_all_writes_prefix:
  assumes "send_all os bytes = (sent, e)"
  shows "take (length sent) bytes = sent \<and> (e = AllSent \<longrightarrow> sent = bytes) \<and>
    (length bytes \<le> length (filter (\<lambda>out. out \<noteq> SendInterrupted) os) \<longrightarrow> e \<noteq> InSend)"
  using send_all_prefix [OF assms] send_all_ends [of bytes os] assms by auto

lemma send_all_writes_prefix_witness:
  "send_all [SendBytes 1, SendInterrupted, SendBytes 9] ''abc'' = (''abc'', AllSent) \<and> take 3 ''abc'' = ''abc''"
proof -
  have "send_all [SendBytes 1, SendInterrupted, SendBytes 9] ''abc'' = (''abc'', AllSent)" by code_simp
  from send_all_writes_prefix [OF this] this show ?thesis by simp
qed

end
