(* ===== verification/Mcp_Ipc_Win.thy ===== *)
theory Mcp_Ipc_Win
  imports Mcp_Ipc
begin

section \<open>The named pipe transport on Windows (\<open>mcp/mcp_ipc_transport_win.cc\<close>)\<close>

text \<open>
  The same class as on POSIX with another loop: it makes one pipe for one client at a time, serves it
  and makes the next. The loop thread and the main thread share the handle of the pipe, the
  generation and the flag under the lock; a step is again one critical section or one system call.
  A handle is a number. Besides the fields of the class there are ghosts: the open handles, the
  calls of \<open>CloseHandle\<close> on a handle that is not open, the number of the pipe, and for what was
  posted and written the pipe it belongs to.
\<close>

subsection \<open>The name of the pipe\<close>

definition kPipePrefix :: string where
  "kPipePrefix = [CHR 0x5C, CHR 0x5C, CHR ''.'', CHR 0x5C] @ ''pipe'' @ [CHR 0x5C]"

definition NormalizePipeName :: "base_lib \<Rightarrow> string \<Rightarrow> string option" where
  "NormalizePipeName L path =
     (let name = (if lib_starts_ci L path kPipePrefix then drop (length kPipePrefix) path else path)
      in if name = [] \<or> (\<exists>c \<in> set name. c = CHR 0x5C \<or> c = CHR ''/'') then None
         else Some (kPipePrefix @ name))"

subsection \<open>The shared state and the loop\<close>

datatype win_pc =
    WTop
  | WCreate
  | WFile nat
  | WConnect nat
  | WRefuse nat
  | WServe nat
  | WSnapshot nat
  | WRead nat "64 word"
  | WDrop nat
  | WEnd
  | WFinished

record win_transport =
  wt_stopping :: bool
  wt_handle :: "nat option"
  wt_generation :: "64 word"
  wt_signaled :: "bool option"                     \<comment> \<open>what \<open>Start\<close> is told, once\<close>
  wt_pc :: win_pc
  wt_buffer :: string
  wt_posted :: "(dict \<times> 64 word \<times> nat list) list"
  wt_open :: "nat set"
  wt_bad_closes :: nat
  wt_pipe :: nat
  wt_origin :: "nat list"
  wt_written :: "(64 word \<times> nat \<times> string) list"

definition new_win_transport :: win_transport where
  "new_win_transport =
     \<lparr>wt_stopping = False, wt_handle = None, wt_generation = 0, wt_signaled = None, wt_pc = WFinished,
      wt_buffer = [], wt_posted = [], wt_open = {}, wt_bad_closes = 0, wt_pipe = 0, wt_origin = [],
      wt_written = []\<rparr>"

definition CloseHandle :: "nat \<Rightarrow> win_transport \<Rightarrow> win_transport" where
  "CloseHandle h s =
     (if h \<in> wt_open s then s\<lparr>wt_open := wt_open s - {h}\<rparr> else s\<lparr>wt_bad_closes := Suc (wt_bad_closes s)\<rparr>)"

definition CloseHandlePtr :: "win_transport \<Rightarrow> win_transport" where
  "CloseHandlePtr s =
     (case wt_handle s of None \<Rightarrow> s | Some h \<Rightarrow> (CloseHandle h s)\<lparr>wt_handle := None\<rparr>)"

definition WinRequestStopLocked :: "win_transport \<Rightarrow> win_transport" where
  "WinRequestStopLocked s = CloseHandlePtr s"

text \<open>Closing the pipe at the end of a turn: through the shared handle if it is still that pipe.\<close>

definition close_pipe :: "nat \<Rightarrow> win_transport \<Rightarrow> win_transport" where
  "close_pipe h s = (if wt_handle s = Some h then CloseHandlePtr s else CloseHandle h s)"

text \<open>What the system calls return; \<open>wa_read\<close> is \<open>None\<close> for a failed read and for no bytes.\<close>

record win_answer =
  wa_create :: "nat option"
  wa_connect :: bool
  wa_read :: "string option"

definition win_step :: "base_lib \<Rightarrow> win_answer \<Rightarrow> win_transport \<Rightarrow> win_transport" where
  "win_step L a s =
     (case wt_pc s of
        WTop \<Rightarrow> s\<lparr>wt_pc := if wt_stopping s then WEnd else WCreate\<rparr>
      | WCreate \<Rightarrow>
          (case wa_create a of
             None \<Rightarrow>
               s\<lparr>wt_signaled := (if wt_signaled s = None then Some False else wt_signaled s), wt_pc := WFinished\<rparr>
           | Some h \<Rightarrow> s\<lparr>wt_open := insert h (wt_open s), wt_pc := WFile h\<rparr>)
      | WFile h \<Rightarrow>
          s\<lparr>wt_handle := Some h, wt_generation := wt_generation s + 1, wt_pipe := Suc (wt_pipe s),
            wt_signaled := (if wt_signaled s = None then Some True else wt_signaled s), wt_pc := WConnect h\<rparr>
      | WConnect h \<Rightarrow>
          (if \<not> wa_connect a then s\<lparr>wt_pc := WRefuse h\<rparr>
           else s\<lparr>wt_buffer := [], wt_origin := [], wt_pc := WServe h\<rparr>)
      | WRefuse h \<Rightarrow> (close_pipe h s)\<lparr>wt_pc := WTop\<rparr>
      | WServe h \<Rightarrow> s\<lparr>wt_pc := if wt_stopping s then WDrop h else WSnapshot h\<rparr>
      | WSnapshot h \<Rightarrow> s\<lparr>wt_pc := WRead h (wt_generation s)\<rparr>
      | WRead h client_generation \<Rightarrow>
          (case wa_read a of
             None \<Rightarrow> s\<lparr>wt_pc := WDrop h\<rparr>
           | Some chunk \<Rightarrow>
               let r = recv_chunk chunk ([], wt_buffer s); origin = wt_origin s @ [wt_pipe s]
               in s\<lparr>wt_buffer := snd r, wt_origin := origin,
                    wt_posted := wt_posted s @ concat (map (DispatchLine L client_generation origin) (fst r)),
                    wt_pc := WServe h\<rparr>)
      | WDrop h \<Rightarrow> (close_pipe h s)\<lparr>wt_pc := WTop\<rparr>
      | WEnd \<Rightarrow> (WinRequestStopLocked s)\<lparr>wt_pc := WFinished\<rparr>
      | WFinished \<Rightarrow> s)"

lemma win_step_simps:
  "wt_pc s = WTop \<Longrightarrow> win_step L a s = s\<lparr>wt_pc := if wt_stopping s then WEnd else WCreate\<rparr>"
  "wt_pc s = WCreate \<Longrightarrow> wa_create a = Some h \<Longrightarrow> win_step L a s = s\<lparr>wt_open := insert h (wt_open s), wt_pc := WFile h\<rparr>"
  "wt_pc s = WFile h \<Longrightarrow> win_step L a s =
     s\<lparr>wt_handle := Some h, wt_generation := wt_generation s + 1, wt_pipe := Suc (wt_pipe s),
       wt_signaled := (if wt_signaled s = None then Some True else wt_signaled s), wt_pc := WConnect h\<rparr>"
  "wt_pc s = WConnect h \<Longrightarrow> wa_connect a \<Longrightarrow> win_step L a s = s\<lparr>wt_buffer := [], wt_origin := [], wt_pc := WServe h\<rparr>"
  "wt_pc s = WServe h \<Longrightarrow> win_step L a s = s\<lparr>wt_pc := if wt_stopping s then WDrop h else WSnapshot h\<rparr>"
  "wt_pc s = WSnapshot h \<Longrightarrow> win_step L a s = s\<lparr>wt_pc := WRead h (wt_generation s)\<rparr>"
  "wt_pc s = WRead h g \<Longrightarrow> wa_read a = None \<Longrightarrow> win_step L a s = s\<lparr>wt_pc := WDrop h\<rparr>"
  "wt_pc s = WDrop h \<Longrightarrow> win_step L a s = (close_pipe h s)\<lparr>wt_pc := WTop\<rparr>"
  by (simp_all add: win_step_def)

text \<open>
  The start of \<open>RunLoop\<close>: \<open>security_ok\<close> is whether the security descriptor of the current user
  could be made.
\<close>

definition WinRunLoop_start :: "base_lib \<Rightarrow> bool \<Rightarrow> string \<Rightarrow> win_transport \<Rightarrow> win_transport" where
  "WinRunLoop_start L security_ok path s =
     (if NormalizePipeName L path = None \<or> \<not> security_ok then s\<lparr>wt_signaled := Some False, wt_pc := WFinished\<rparr>
      else s\<lparr>wt_pc := WTop\<rparr>)"

definition WinStopTransport :: "win_transport \<Rightarrow> win_transport" where
  "WinStopTransport s = WinRequestStopLocked (s\<lparr>wt_stopping := True\<rparr>)"

subsection \<open>Sending a response\<close>

text \<open>
  The \<open>WriteFile\<close> loop: for each call the number of bytes it wrote, or \<open>None\<close> for a failure; a call
  that writes none is a failure as well. The length is cut to that of a \<open>DWORD\<close>.
\<close>

fun write_all :: "nat option list \<Rightarrow> string \<Rightarrow> string \<times> send_outcome option" where
  "write_all ws [] = ([], None)"
| "write_all [] (b # bs) = ([], Some SendInterrupted)"
| "write_all (w # ws) (b # bs) =
     (case w of
        None \<Rightarrow> ([], Some SendFailure)
      | Some n \<Rightarrow>
          if n = 0 then ([], Some SendFailure)
          else let (out, e) = write_all ws (drop n (b # bs)) in (take n (b # bs) @ out, e))"

definition WinSendSerializedResponse ::
  "nat option list \<Rightarrow> 64 word \<Rightarrow> string \<Rightarrow> win_transport \<Rightarrow> win_transport" where
  "WinSendSerializedResponse ws client_generation serialized s =
     (if wt_handle s = None \<or> wt_generation s \<noteq> client_generation then s
      else
        let (bytes, e) = write_all ws (take (2 ^ 32 - 1) serialized);
            s1 = s\<lparr>wt_written := wt_written s @ [(client_generation, wt_pipe s, bytes)]\<rparr>
        in if e = Some SendFailure then CloseHandlePtr s1 else s1)"

definition WinSendResponse ::
  "base_lib \<Rightarrow> nat option list \<Rightarrow> 64 word \<Rightarrow> dict option \<Rightarrow> win_transport \<Rightarrow> win_transport" where
  "WinSendResponse L ws client_generation response s =
     (case response of
        None \<Rightarrow> s
      | Some r \<Rightarrow>
          (case SerializeMCPTransportMessage L r of
             None \<Rightarrow> s
           | Some serialized \<Rightarrow> WinSendSerializedResponse ws client_generation serialized s))"

subsection \<open>Runs\<close>

text \<open>\<open>CreateNamedPipe\<close> returns a handle that is not open.\<close>

definition win_answer_ok :: "win_answer \<Rightarrow> win_transport \<Rightarrow> bool" where
  "win_answer_ok a s \<longleftrightarrow> wt_pc s \<noteq> WCreate \<or> (case wa_create a of None \<Rightarrow> True | Some h \<Rightarrow> h \<notin> wt_open s)"

inductive win_run :: "base_lib \<Rightarrow> win_transport \<Rightarrow> bool" for L where
  start: "win_run L (WinRunLoop_start L security_ok path new_win_transport)"
| loop: "win_run L s \<Longrightarrow> win_answer_ok a s \<Longrightarrow> win_run L (win_step L a s)"
| respond: "win_run L s \<Longrightarrow> (m, g, src) \<in> set (wt_posted s) \<Longrightarrow>
    win_run L (WinSendResponse L ws g response s)"
| stop: "win_run L s \<Longrightarrow> win_run L (WinStopTransport s)"

definition win_reading_ok :: "win_pc \<Rightarrow> 64 word \<Rightarrow> bool" where
  "win_reading_ok pc generation = (case pc of WRead h g \<Rightarrow> g = generation | _ \<Rightarrow> True)"

definition win_serving :: "win_pc \<Rightarrow> bool" where
  "win_serving pc \<longleftrightarrow> (case pc of WServe h \<Rightarrow> True | WSnapshot h \<Rightarrow> True | WRead h g \<Rightarrow> True | _ \<Rightarrow> False)"

definition win_ok :: "win_transport \<Rightarrow> bool" where
  "win_ok s \<longleftrightarrow>
     gens_ok (wt_pipe s) (wt_posted s) (wt_written s) \<and> wt_generation s = of_nat (wt_pipe s) \<and>
     (win_serving (wt_pc s) \<longrightarrow> set (wt_origin s) \<subseteq> {wt_pipe s}) \<and> win_reading_ok (wt_pc s) (wt_generation s)"

text \<open>The shared handle is open, and so is a pipe that was made and not filed yet.\<close>

definition handle_ok :: "win_transport \<Rightarrow> bool" where
  "handle_ok s \<longleftrightarrow> set_option (wt_handle s) \<subseteq> wt_open s \<and>
     (case wt_pc s of WFile h \<Rightarrow> h \<in> wt_open s \<and> wt_handle s \<noteq> Some h | _ \<Rightarrow> True)"

lemma close_fields [simp]:
  "win_ok (CloseHandle h s) = win_ok s" "win_ok (CloseHandlePtr s) = win_ok s" "win_ok (close_pipe h s) = win_ok s"
  "wt_pc (CloseHandlePtr s) = wt_pc s" "wt_pc (close_pipe h s) = wt_pc s"
  by (simp_all add: win_ok_def CloseHandle_def CloseHandlePtr_def close_pipe_def split: option.split)

lemma win_ok_idle:
  "win_ok s \<Longrightarrow> \<not> win_serving pc \<Longrightarrow> win_ok (s\<lparr>wt_pc := pc\<rparr>)"
  by (auto simp: win_ok_def win_reading_ok_def win_serving_def split: win_pc.splits)

lemma win_ok_step:
  assumes "win_ok s" shows "win_ok (win_step L a s)"
proof (cases "wt_pc s")
  case (WRead h g)
  with assms have "gens_ok (wt_pipe s) (wt_posted s @ concat (map (DispatchLine L (of_nat (wt_pipe s))
      (wt_origin s @ [wt_pipe s])) ls)) (wt_written s)" for ls
    by (intro gens_post) (simp_all add: win_ok_def win_serving_def)
  with WRead assms show ?thesis
    by (simp add: win_step_def win_ok_def win_reading_ok_def win_serving_def Let_def split: option.split)
next
  case (WFile h)
  then show ?thesis using assms
    by (simp add: win_step_def win_ok_def win_reading_ok_def win_serving_def gens_later)
next
  case (WRefuse h)
  then show ?thesis using win_ok_idle [of "close_pipe h s" WTop] assms
    by (simp add: win_step_def win_serving_def)
next
  case (WDrop h)
  then show ?thesis using win_ok_idle [of "close_pipe h s" WTop] assms
    by (simp add: win_step_def win_serving_def)
next
  case WEnd
  then show ?thesis using win_ok_idle [of "CloseHandlePtr s" WFinished] assms
    by (simp add: win_step_def win_serving_def WinRequestStopLocked_def)
qed (use assms in \<open>simp_all add: win_step_def win_ok_def win_reading_ok_def win_serving_def split: option.split\<close>)

lemma win_send_cases:
  "WinSendResponse L ws g response s = s \<or>
   (\<exists>bytes. wt_generation s = g \<and>
      WinSendResponse L ws g response s \<in>
        (let s1 = s\<lparr>wt_written := wt_written s @ [(g, wt_pipe s, bytes)]\<rparr> in {s1, CloseHandlePtr s1}))"
  by (auto simp: WinSendResponse_def WinSendSerializedResponse_def Let_def split: option.split prod.split)

lemma win_ok_send:
  assumes "win_ok s" shows "win_ok (WinSendResponse L ws g response s)"
  using win_send_cases [of L ws g response s]
proof
  assume "\<exists>bytes. wt_generation s = g \<and> WinSendResponse L ws g response s \<in>
        (let s1 = s\<lparr>wt_written := wt_written s @ [(g, wt_pipe s, bytes)]\<rparr> in {s1, CloseHandlePtr s1})"
  then obtain bytes where g: "wt_generation s = g" and
    "WinSendResponse L ws g response s \<in>
       (let s1 = s\<lparr>wt_written := wt_written s @ [(g, wt_pipe s, bytes)]\<rparr> in {s1, CloseHandlePtr s1})" by blast
  moreover have "win_ok (s\<lparr>wt_written := wt_written s @ [(g, wt_pipe s, bytes)]\<rparr>)"
    using assms g by (auto simp: win_ok_def gens_write)
  ultimately show ?thesis by (auto simp: Let_def)
qed (use assms in simp)

lemma handle_ok_close: "handle_ok s \<Longrightarrow> handle_ok (CloseHandlePtr s)"
  by (auto simp: handle_ok_def CloseHandlePtr_def CloseHandle_def split: option.splits win_pc.splits)

lemma handle_ok_close_pipe: "handle_ok s \<Longrightarrow> handle_ok ((close_pipe h s)\<lparr>wt_pc := WTop\<rparr>)"
  by (auto simp: handle_ok_def close_pipe_def CloseHandlePtr_def CloseHandle_def split: option.splits)

lemma handle_ok_step:
  assumes "handle_ok s" "win_answer_ok a s" shows "handle_ok (win_step L a s)"
proof (cases "wt_pc s")
  case WEnd
  with handle_ok_close [OF assms(1)] show ?thesis
    by (simp add: win_step_def WinRequestStopLocked_def handle_ok_def)
next
  case (WRefuse h)
  with handle_ok_close_pipe [OF assms(1)] show ?thesis by (simp add: win_step_def)
next
  case (WDrop h)
  with handle_ok_close_pipe [OF assms(1)] show ?thesis by (simp add: win_step_def)
qed (use assms in \<open>auto simp: win_step_def win_answer_ok_def Let_def handle_ok_def
      split: option.splits\<close>)

lemma win_run_ok: "win_run L s \<Longrightarrow> win_ok s \<and> handle_ok s"
proof (induction rule: win_run.induct)
  case (start security_ok path)
  then show ?case
    by (simp add: WinRunLoop_start_def new_win_transport_def win_ok_def gens_ok_def win_reading_ok_def win_serving_def
        handle_ok_def)
next
  case (stop s)
  have "win_ok (s\<lparr>wt_stopping := True\<rparr>) = win_ok s" "handle_ok (s\<lparr>wt_stopping := True\<rparr>) = handle_ok s"
    by (simp_all add: win_ok_def handle_ok_def split: win_pc.split)
  with stop show ?case by (simp add: WinStopTransport_def WinRequestStopLocked_def handle_ok_close)
next
  case (respond s m g src ws response)
  have "handle_ok (s\<lparr>wt_written := w\<rparr>) = handle_ok s" for w by (simp add: handle_ok_def split: win_pc.split)
  with respond win_send_cases [of L ws g response s] show ?case
    by (auto simp: win_ok_send Let_def handle_ok_close)
qed (simp_all add: win_ok_step handle_ok_step)

section \<open>Properties\<close>

text \<open>
  As on POSIX an answer goes home: the response to a message read from one pipe is written to that pipe
  or to none.
\<close>

lemma win_answers_go_home:
  assumes "win_run L s" and "wt_pipe s < 2 ^ 64"
    and "(m, g, src) \<in> set (wt_posted s)" "n \<in> set src" and "(g, c, bytes) \<in> set (wt_written s)"
  shows "c = n"
  using win_run_ok [OF assms(1)] assms(2-5) by (auto simp: win_ok_def intro: gens_home)

text \<open>A pipe name is the prefix and one plain name: it cannot leave the name space of pipes.\<close>

lemma pipe_name_plain:
  assumes "NormalizePipeName L path = Some name"
  shows "\<exists>rest. name = kPipePrefix @ rest \<and> rest \<noteq> [] \<and> CHR 0x5C \<notin> set rest \<and> CHR ''/'' \<notin> set rest"
proof -
  obtain rest where "(if rest = [] \<or> (\<exists>c \<in> set rest. c = CHR 0x5C \<or> c = CHR ''/'') then None
       else Some (kPipePrefix @ rest)) = Some name"
    using assms unfolding NormalizePipeName_def Let_def by (rule that)
  then have "name = kPipePrefix @ rest" "rest \<noteq> []" "\<not> (\<exists>c \<in> set rest. c = CHR 0x5C \<or> c = CHR ''/'')"
    by (simp_all only: split: if_splits) simp_all
  then show ?thesis by blast
qed

text \<open>
  C40: on Windows the handle of a client is closed twice when the transport stops while it is served:
  the main thread closes it to end the read, and the loop thread, which finds that it is not the
  shared handle any more, closes the number again, whatever it names by then.
\<close>

theorem win_handle_closed_twice:
  assumes "win_run L s" "wt_pc s = WRead h g" "wt_handle s = Some h" "wa_read a = None"
  shows "wt_bad_closes (win_step L b (win_step L a (WinStopTransport s))) = Suc (wt_bad_closes s)"
proof -
  let ?s = "s\<lparr>wt_stopping := True, wt_open := wt_open s - {h}, wt_handle := None, wt_pc := WDrop h\<rparr>"
  from win_run_ok [OF assms(1)] assms(3) have "h \<in> wt_open s" by (simp add: handle_ok_def)
  with assms(2,3) have "WinStopTransport s = s\<lparr>wt_stopping := True, wt_open := wt_open s - {h}, wt_handle := None\<rparr>"
    by (simp add: WinStopTransport_def WinRequestStopLocked_def CloseHandlePtr_def CloseHandle_def)
  then have "win_step L a (WinStopTransport s) = ?s" using assms(2,4) by (simp add: win_step_simps(7))
  moreover have "win_step L b ?s = (close_pipe h ?s)\<lparr>wt_pc := WTop\<rparr>" by (rule win_step_simps(8)) simp
  moreover have "wt_bad_closes (close_pipe h ?s) = Suc (wt_bad_closes s)" by (simp add: close_pipe_def CloseHandle_def)
  ultimately show ?thesis by simp
qed

definition pipe_answer :: win_answer where
  "pipe_answer = \<lparr>wa_create = Some 4, wa_connect = True, wa_read = None\<rparr>"

text \<open>A pipe made, filed, connected and about to be read.\<close>

definition demo_pipe :: win_transport where
  "demo_pipe = new_win_transport\<lparr>wt_open := {4}, wt_handle := Some 4, wt_generation := 1, wt_pipe := 1,
     wt_signaled := Some True, wt_pc := WRead 4 1\<rparr>"

lemma demo_pipe_start: "WinRunLoop_start ref_lib True ''b'' new_win_transport = new_win_transport\<lparr>wt_pc := WTop\<rparr>"
  by (simp add: WinRunLoop_start_def NormalizePipeName_def ref_lib_def kPipePrefix_def ascii_lower_def)

lemma demo_pipe_run: "win_run ref_lib demo_pipe"
proof -
  note step = win_run.loop [where a = pipe_answer and L = ref_lib]
  note eval = win_step_def new_win_transport_def win_answer_ok_def pipe_answer_def
  have "win_run ref_lib (new_win_transport\<lparr>wt_pc := WTop\<rparr>)"
    using win_run.start [of ref_lib True "''b''"] by (simp only: demo_pipe_start)
  from step [OF this] have "win_run ref_lib (new_win_transport\<lparr>wt_pc := WCreate\<rparr>)" by (simp add: eval)
  from step [OF this] have "win_run ref_lib (new_win_transport\<lparr>wt_open := {4}, wt_pc := WFile 4\<rparr>)" by (simp add: eval)
  from step [OF this] have "win_run ref_lib (demo_pipe\<lparr>wt_pc := WConnect 4\<rparr>)" by (simp add: eval demo_pipe_def)
  from step [OF this] have "win_run ref_lib (demo_pipe\<lparr>wt_pc := WServe 4\<rparr>)" by (simp add: eval demo_pipe_def)
  from step [OF this] have "win_run ref_lib (demo_pipe\<lparr>wt_pc := WSnapshot 4\<rparr>)" by (simp add: eval demo_pipe_def)
  from step [OF this] show ?thesis by (simp add: eval demo_pipe_def)
qed

lemma demo_pipe_reads: "wt_pc demo_pipe = WRead 4 1" "wt_handle demo_pipe = Some 4" "wt_bad_closes demo_pipe = 0"
  by (simp_all add: demo_pipe_def new_win_transport_def)

theorem win_handle_closed_twice_witness:
  "wt_bad_closes (win_step ref_lib pipe_answer (win_step ref_lib pipe_answer (WinStopTransport demo_pipe))) = 1"
  using win_handle_closed_twice [OF demo_pipe_run demo_pipe_reads(1,2), of pipe_answer] demo_pipe_reads(3)
  by (simp add: pipe_answer_def)

end
