(* ===== verification/Runtime.thy ===== *)
theory Runtime
  imports Base_Lib
begin

section \<open>The runtime interface (\<open>browser_runtime.h\<close>)\<close>

text \<open>
  A runtime owns the tabs. The controller reaches it through the virtual class
  \<open>BrowserRuntime\<close>; here that class is the locale \<open>tab_runtime\<close>: the operations the controller
  calls and what each runtime promises about them. A tab is named by its target id, its page is
  a number (a \<open>content::WebContents*\<close>). The environment answers what the content layer
  returns when a tab is made; \<open>fresh\<close> says which answers can occur.
\<close>

type_synonym web_contents = nat

record BrowserTabInfo =
  tab_target_id :: string
  tab_title :: string
  tab_url :: string

text \<open>What the content layer says of a page: its title and its URL.\<close>

type_synonym page_info = "web_contents \<Rightarrow> string \<times> string"

locale tab_runtime =
  fixes inv :: "'s \<Rightarrow> bool"
    and ids :: "'s \<Rightarrow> string list"
    and active :: "'s \<Rightarrow> string option"
    and lookup :: "string \<Rightarrow> 's \<Rightarrow> web_contents option"
    and fresh :: "'e \<Rightarrow> 's \<Rightarrow> bool"
    and create :: "'e \<Rightarrow> 's \<Rightarrow> string option \<times> 's"
    and close :: "string option \<Rightarrow> 's \<Rightarrow> bool \<times> 's"
  assumes ids_distinct: "inv s \<Longrightarrow> distinct (ids s)"
    and active_listed: "inv s \<Longrightarrow> active s = Some t \<Longrightarrow> t \<in> set (ids s)"
    and active_when_tabs: "inv s \<Longrightarrow> active s = None \<longleftrightarrow> ids s = []"
    and lookup_listed: "inv s \<Longrightarrow> lookup t s = None \<longleftrightarrow> t \<notin> set (ids s)"
    and create_some: "inv s \<Longrightarrow> fresh e s \<Longrightarrow> create e s = (Some t, s') \<Longrightarrow>
      inv s' \<and> t \<notin> set (ids s) \<and> ids s' = ids s @ [t] \<and> active s' = Some t"
    and create_none: "inv s \<Longrightarrow> fresh e s \<Longrightarrow> create e s = (None, s') \<Longrightarrow>
      inv s' \<and> ids s' = ids s \<and> active s' = active s"
    and close_known: "inv s \<Longrightarrow> t \<in> set (ids s) \<Longrightarrow> close (Some t) s = (b, s') \<Longrightarrow>
      b \<and> inv s' \<and> ids s' = filter (\<lambda>u. u \<noteq> t) (ids s)"
    and close_unknown: "inv s \<Longrightarrow> t \<notin> set (ids s) \<Longrightarrow> close (Some t) s = (False, s)"
    and close_active: "inv s \<Longrightarrow> close None s = (case active s of None \<Rightarrow> (False, s) | Some t \<Rightarrow> close (Some t) s)"
begin

lemma close_inv: "inv s \<Longrightarrow> close t s = (b, s') \<Longrightarrow> inv s'"
  using close_known close_unknown close_active active_listed
  by (cases t; cases "active s") (metis option.simps(4,5) prod.inject)+

lemma close_again:
  assumes "inv s" "close (Some t) s = (b, s')" shows "close (Some t) s' = (False, s')"
proof (cases "t \<in> set (ids s)")
  case True
  from close_known [OF assms(1) True assms(2)] have "inv s'" "t \<notin> set (ids s')" by auto
  then show ?thesis by (rule close_unknown)
next
  case False
  from close_unknown [OF assms(1) False] assms(2) have "s' = s" by simp
  with close_unknown [OF assms(1) False] show ?thesis by simp
qed

lemma close_created:
  assumes "inv s" "fresh e s" "create e s = (Some t, s')" "close (Some t) s' = (b, s'')"
  shows "b \<and> ids s'' = ids s"
proof -
  from create_some [OF assms(1-3)] have *: "inv s'" "t \<notin> set (ids s)" "ids s' = ids s @ [t]" by auto
  with close_known [OF *(1) _ assms(4)] have "b" "ids s'' = filter (\<lambda>u. u \<noteq> t) (ids s @ [t])" by auto
  moreover have "filter (\<lambda>u. u \<noteq> t) (ids s) = ids s" using *(2) by (induction "ids s") (auto simp: filter_id_conv)
  ultimately show ?thesis by simp
qed

lemma lookup_after_close:
  assumes "inv s" "close (Some t) s = (b, s')" shows "lookup t s' = None"
proof (cases "t \<in> set (ids s)")
  case True
  from close_known [OF assms(1) True assms(2)] have "inv s'" "t \<notin> set (ids s')" by auto
  then show ?thesis using lookup_listed [of s' t] by simp
next
  case False
  from close_unknown [OF assms(1) False] assms(2) have "s' = s" by simp
  with False show ?thesis using lookup_listed [OF assms(1), of t] by simp
qed

text \<open>Closing the active tab again and again ends with no tab, after as many times as there are tabs.\<close>

lemma close_active_shorter:
  assumes "inv s" "ids s \<noteq> []" "close None s = (b, s')"
  shows "b \<and> inv s' \<and> Suc (length (ids s')) = length (ids s)"
proof -
  from assms(1,2) active_when_tabs obtain t where t: "active s = Some t" by fastforce
  then have "t \<in> set (ids s)" using active_listed assms(1) by blast
  moreover have "close (Some t) s = (b, s')" using close_active [OF assms(1)] t assms(3) by simp
  ultimately have "b" "inv s'" and f: "ids s' = filter (\<lambda>u. u \<noteq> t) (ids s)"
    using close_known assms(1) by blast+
  have "ids s' = remove1 t (ids s)"
    using f distinct_remove1_filter [OF ids_distinct [OF assms(1)]] by simp
  with \<open>b\<close> \<open>inv s'\<close> \<open>t \<in> set (ids s)\<close> show ?thesis
    using length_pos_if_in_set [of t "ids s"] by (simp add: length_remove1)
qed

lemma close_all: "inv s \<Longrightarrow> length (ids s) \<le> n \<Longrightarrow> ids (((\<lambda>s. snd (close None s)) ^^ n) s) = []"
proof (induction n arbitrary: s)
  case (Suc n)
  obtain b s' where c: "close None s = (b, s')" by fastforce
  show ?case
  proof (cases "ids s = []")
    case True
    then have "active s = None" using active_when_tabs Suc.prems(1) by blast
    then have "close None s = (False, s)" using close_active [OF Suc.prems(1)] by simp
    with True Suc show ?thesis by (simp add: funpow_Suc_right del: funpow.simps)
  next
    case False
    from close_active_shorter [OF Suc.prems(1) False c] Suc c show ?thesis
      by (simp add: funpow_Suc_right del: funpow.simps)
  qed
qed simp

end

end
