(* ===== verification/Gui_Runtime.thy ===== *)
theory Gui_Runtime
  imports Runtime
begin

section \<open>The GUI runtime (\<open>gui/gui_runtime.cc\<close>)\<close>

text \<open>
  The tabs are a vector of target ids with their windows, here with the page a window holds. The
  environment says whether the content layer makes a page and whether the platform makes a
  window. \<open>gui_closed\<close> holds the pages of the windows closed, \<open>gui_loads\<close> the loads started, \<open>gui_sizes\<close> the
  sizes given to windows, by the page they hold, \<open>gui_quits\<close> counts the runs of the quit callback.
\<close>

record gui_tab =
  gt_target_id :: string
  gt_contents :: web_contents

record gui_runtime =
  gui_tabs :: "gui_tab list"
  gui_active :: string
  gui_next_tab_id :: "64 word"
  gui_create_initial_tab :: bool
  gui_shutdown_on_zero_tabs :: bool
  gui_has_quit_callback :: bool
  gui_shutdown_started :: bool
  gui_quits :: nat
  gui_closed :: "web_contents list"
  gui_loads :: "(web_contents \<times> string) list"
  gui_sizes :: "(web_contents \<times> int \<times> int) list"

record gui_env =
  ge_contents :: "web_contents option"   \<comment> \<open>\<open>WebContents::Create\<close>\<close>
  ge_window :: bool                      \<comment> \<open>\<open>CreateGuiWindow\<close>\<close>

definition new_gui_runtime :: "bool \<Rightarrow> bool \<Rightarrow> gui_runtime" where
  "new_gui_runtime create_initial_tab shutdown_on_zero_tabs =
     \<lparr>gui_tabs = [], gui_active = [], gui_next_tab_id = 1,
      gui_create_initial_tab = create_initial_tab, gui_shutdown_on_zero_tabs = shutdown_on_zero_tabs,
      gui_has_quit_callback = True, gui_shutdown_started = False, gui_quits = 0, gui_closed = [],
      gui_loads = [], gui_sizes = []\<rparr>"

definition GuiFindTab :: "string \<Rightarrow> gui_runtime \<Rightarrow> gui_tab option" where
  "GuiFindTab target_id s = find (\<lambda>tab. gt_target_id tab = target_id) (gui_tabs s)"

definition GuiActiveTab :: "gui_runtime \<Rightarrow> gui_tab option" where
  "GuiActiveTab s = GuiFindTab (gui_active s) s"

definition gui_active_web_contents :: "gui_runtime \<Rightarrow> web_contents option" where
  "gui_active_web_contents s = map_option gt_contents (GuiActiveTab s)"

definition GuiGetWebContentsByTargetId :: "string \<Rightarrow> gui_runtime \<Rightarrow> web_contents option" where
  "GuiGetWebContentsByTargetId target_id s = map_option gt_contents (GuiFindTab target_id s)"

definition GuiAllWebContents :: "gui_runtime \<Rightarrow> web_contents list" where
  "GuiAllWebContents s = map gt_contents (gui_tabs s)"

definition GuiMakeTabInfo :: "page_info \<Rightarrow> gui_tab \<Rightarrow> BrowserTabInfo" where
  "GuiMakeTabInfo page tab =
     \<lparr>tab_target_id = gt_target_id tab, tab_title = fst (page (gt_contents tab)),
      tab_url = snd (page (gt_contents tab))\<rparr>"

definition GuiListTabs :: "page_info \<Rightarrow> gui_runtime \<Rightarrow> BrowserTabInfo list" where
  "GuiListTabs page s = map (GuiMakeTabInfo page) (gui_tabs s)"

definition gui_target_id :: "base_lib \<Rightarrow> 64 word \<Rightarrow> string" where
  "gui_target_id L n = ''gui-'' @ lib_number_to_string L (uint n)"

definition GuiCreateTab ::
  "base_lib \<Rightarrow> page_info \<Rightarrow> gui_env \<Rightarrow> string \<Rightarrow> gui_runtime \<Rightarrow> BrowserTabInfo option \<times> gui_runtime" where
  "GuiCreateTab L page e url s =
     (case ge_contents e of
        None \<Rightarrow> (None, s)
      | Some wc \<Rightarrow>
          let target_id = gui_target_id L (gui_next_tab_id s);
              s1 = s\<lparr>gui_next_tab_id := gui_next_tab_id s + 1\<rparr>
          in if \<not> ge_window e then (None, s1)
             else
               let tab = \<lparr>gt_target_id = target_id, gt_contents = wc\<rparr>
               in (Some (GuiMakeTabInfo page tab),
                   s1\<lparr>gui_tabs := gui_tabs s @ [tab], gui_active := target_id,
                      gui_loads := gui_loads s @ [(wc, url)]\<rparr>))"

definition GuiInitialize :: "base_lib \<Rightarrow> page_info \<Rightarrow> gui_env \<Rightarrow> gui_runtime \<Rightarrow> bool \<times> gui_runtime" where
  "GuiInitialize L page e s =
     (if \<not> gui_create_initial_tab s then (True, s)
      else let (r, s1) = GuiCreateTab L page e ''about:blank'' s in (r \<noteq> None, s1))"

definition GuiResizeActive :: "int \<times> int \<Rightarrow> gui_runtime \<Rightarrow> gui_runtime" where
  "GuiResizeActive extent s =
     (case GuiActiveTab s of
        None \<Rightarrow> s
      | Some tab \<Rightarrow> s\<lparr>gui_sizes := gui_sizes s @ [(gt_contents tab, extent)]\<rparr>)"

definition GuiShutdown :: "gui_runtime \<Rightarrow> gui_runtime" where
  "GuiShutdown s =
     (if gui_shutdown_started s then s
      else s\<lparr>gui_shutdown_started := True,
             gui_closed := gui_closed s @ map gt_contents (gui_tabs s),
             gui_tabs := [], gui_active := [],
             gui_quits := gui_quits s + (if gui_has_quit_callback s then 1 else 0)\<rparr>)"

definition GuiChooseFallbackActiveTab :: "gui_runtime \<Rightarrow> gui_runtime" where
  "GuiChooseFallbackActiveTab s =
     s\<lparr>gui_active := (case gui_tabs s of [] \<Rightarrow> [] | t # ts \<Rightarrow> gt_target_id t)\<rparr>"

text \<open>
  \<open>tabs_.erase(it)\<close> removes the first tab with the id. Both \<open>CloseTab\<close> and
  \<open>RemoveClosedWindow\<close> then choose a new active tab if the active one went, and shut down when
  no tab is left, if the options say so.
\<close>

fun erase_tab :: "string \<Rightarrow> gui_tab list \<Rightarrow> gui_tab list" where
  "erase_tab i [] = []"
| "erase_tab i (t # ts) = (if gt_target_id t = i then ts else t # erase_tab i ts)"

definition after_erase :: "bool \<Rightarrow> gui_runtime \<Rightarrow> gui_runtime" where
  "after_erase was_active s =
     (let s1 = (if was_active then GuiChooseFallbackActiveTab s else s)
      in if gui_tabs s1 = [] \<and> gui_shutdown_on_zero_tabs s1 then GuiShutdown s1 else s1)"

definition GuiCloseTab :: "string option \<Rightarrow> gui_runtime \<Rightarrow> bool \<times> gui_runtime" where
  "GuiCloseTab target_id s =
     (let i = (case target_id of Some t \<Rightarrow> t | None \<Rightarrow> gui_active s)
      in if i = [] then (False, s)
         else case GuiFindTab i s of
                None \<Rightarrow> (False, s)
              | Some tab \<Rightarrow>
                  (True, after_erase (gui_active s = i)
                     (s\<lparr>gui_closed := gui_closed s @ [gt_contents tab],
                        gui_tabs := erase_tab i (gui_tabs s)\<rparr>)))"

text \<open>A window closed by the user: the posted task removes its tab, if it is still there.\<close>

definition GuiRemoveClosedWindow :: "string \<Rightarrow> gui_runtime \<Rightarrow> gui_runtime" where
  "GuiRemoveClosedWindow target_id s =
     (case GuiFindTab target_id s of
        None \<Rightarrow> s
      | Some tab \<Rightarrow>
          after_erase (gui_active s = target_id) (s\<lparr>gui_tabs := erase_tab target_id (gui_tabs s)\<rparr>))"

section \<open>The invariant\<close>

definition gui_ids :: "gui_runtime \<Rightarrow> string list" where
  "gui_ids s = map gt_target_id (gui_tabs s)"

definition gui_active_id :: "gui_runtime \<Rightarrow> string option" where
  "gui_active_id s = map_option gt_target_id (GuiActiveTab s)"

text \<open>
  Target ids are distinct, were made from earlier values of the counter, and the active tab is
  one of the tabs unless there is none. (The law that different numbers print differently is a
  part of the invariant, so that the runtime is an instance of the interface for any library.)
\<close>

definition gui_ok :: "base_lib \<Rightarrow> gui_runtime \<Rightarrow> bool" where
  "gui_ok L s \<longleftrightarrow>
     number_law L \<and> distinct (gui_ids s) \<and>
     (\<forall>t \<in> set (gui_ids s). \<exists>n. n < uint (gui_next_tab_id s) \<and> t = ''gui-'' @ lib_number_to_string L n) \<and>
     (if gui_tabs s = [] then gui_active s = [] else gui_active s \<in> set (gui_ids s))"

text \<open>The counter does not wrap with this tab.\<close>

definition gui_fresh :: "gui_env \<times> string \<Rightarrow> gui_runtime \<Rightarrow> bool" where
  "gui_fresh e s \<longleftrightarrow> uint (gui_next_tab_id s) < 2 ^ 64 - 1"

lemma gui_find_iff: "GuiFindTab i s = None \<longleftrightarrow> i \<notin> set (gui_ids s)"
  by (auto simp: GuiFindTab_def gui_ids_def find_None_iff)

lemma gui_find_id: "GuiFindTab i s = Some t \<Longrightarrow> gt_target_id t = i \<and> t \<in> set (gui_tabs s)"
  unfolding GuiFindTab_def by (drule find_SomeD) simp

lemma erase_tab_ids: "map gt_target_id (erase_tab i ts) = remove1 i (map gt_target_id ts)"
  by (induction ts) auto

lemma erase_tab_other: "t \<in> set ts \<Longrightarrow> gt_target_id t \<noteq> i \<Longrightarrow> t \<in> set (erase_tab i ts)"
  by (induction ts) auto

lemma uint_next: "uint (n :: 64 word) < 2 ^ 64 - 1 \<Longrightarrow> uint (n + 1) = uint n + 1"
  by (simp add: uint_word_ariths)

lemma gui_ids_simps [simp]:
  "gui_ids (s\<lparr>gui_closed := x\<rparr>) = gui_ids s" "gui_ids (s\<lparr>gui_next_tab_id := n\<rparr>) = gui_ids s"
  "gui_ids (s\<lparr>gui_active := a\<rparr>) = gui_ids s" "gui_ids (s\<lparr>gui_tabs := ts\<rparr>) = map gt_target_id ts"
  "gui_ids (s\<lparr>gui_loads := l\<rparr>) = gui_ids s" "gui_ids (s\<lparr>gui_sizes := z\<rparr>) = gui_ids s"
  by (simp_all add: gui_ids_def)

lemma gui_ids_Nil: "gui_ids s = [] \<longleftrightarrow> gui_tabs s = []"
  by (simp add: gui_ids_def)

lemma gui_ok_id_nonempty: "gui_ok L s \<Longrightarrow> i \<in> set (gui_ids s) \<Longrightarrow> i \<noteq> []"
  by (auto simp: gui_ok_def)

lemma gui_ok_active:
  assumes "gui_ok L s"
  shows "gui_active_id s = (if gui_tabs s = [] then None else Some (gui_active s))"
proof (cases "gui_tabs s = []")
  case True
  then show ?thesis by (simp add: gui_active_id_def GuiActiveTab_def GuiFindTab_def)
next
  case False
  with assms have "gui_active s \<in> set (gui_ids s)" by (simp add: gui_ok_def)
  then obtain t where "GuiFindTab (gui_active s) s = Some t" using gui_find_iff by blast
  with False gui_find_id [OF this] show ?thesis by (simp add: gui_active_id_def GuiActiveTab_def)
qed

lemma gui_ok_shutdown [inv_intros]: "gui_ok L s \<Longrightarrow> gui_ok L (GuiShutdown s)"
  unfolding GuiShutdown_def by (simp add: gui_ok_def gui_ids_Nil [symmetric]) (simp add: gui_ids_def)

lemma gui_ok_resize [inv_intros]: "gui_ok L s \<Longrightarrow> gui_ok L (GuiResizeActive extent s)"
  by (simp add: GuiResizeActive_def gui_ok_def split: option.split)

lemma gui_ok_fallback:
  assumes "number_law L" "distinct (gui_ids s)"
    "\<forall>t \<in> set (gui_ids s). \<exists>n. n < uint (gui_next_tab_id s) \<and> t = ''gui-'' @ lib_number_to_string L n"
  shows "gui_ok L (GuiChooseFallbackActiveTab s)"
  using assms
  by (auto simp: gui_ok_def GuiChooseFallbackActiveTab_def gui_ids_def split: list.split)

lemma after_erase_ok:
  assumes "gui_ok L s" "gui_ids t = remove1 i (gui_ids s)" "gui_active t = gui_active s"
    "gui_next_tab_id t = gui_next_tab_id s"
  shows "gui_ok L (after_erase (gui_active s = i) t)"
proof -
  have laws: "number_law L" "distinct (gui_ids t)"
    "\<forall>u \<in> set (gui_ids t). \<exists>n. n < uint (gui_next_tab_id t) \<and> u = ''gui-'' @ lib_number_to_string L n"
    using assms notin_set_remove1 by (auto simp: gui_ok_def dest: notin_set_remove1)
  show ?thesis
  proof (cases "gui_active s = i")
    case True
    with gui_ok_fallback [OF laws] gui_ok_shutdown show ?thesis
      by (simp add: after_erase_def Let_def)
  next
    case False
    have "gui_ok L t"
    proof (cases "gui_tabs s = []")
      case True
      then have "gui_ids t = []" using assms(2) by (simp add: gui_ids_def)
      then have "gui_tabs t = []" by (simp add: gui_ids_def)
      with True assms(1,3) laws show ?thesis by (simp add: gui_ok_def)
    next
      case ne: False
      with assms(1) have "gui_active s \<in> set (gui_ids s)" by (simp add: gui_ok_def)
      with False assms(2,3) have "gui_active t \<in> set (gui_ids t)" by simp
      with laws show ?thesis by (auto simp: gui_ok_def gui_ids_def)
    qed
    with False gui_ok_shutdown show ?thesis by (simp add: after_erase_def Let_def)
  qed
qed

lemma after_erase_ids: "gui_ids (after_erase w t) = gui_ids t"
  by (simp add: after_erase_def GuiChooseFallbackActiveTab_def GuiShutdown_def Let_def gui_ids_def)

lemma gui_ok_erase:
  assumes "gui_ok L s"
  shows "gui_ok L (after_erase (gui_active s = i) (s\<lparr>gui_closed := c, gui_tabs := erase_tab i (gui_tabs s)\<rparr>))"
  by (rule after_erase_ok [OF assms]) (simp_all add: erase_tab_ids gui_ids_def)

lemma gui_ok_close [inv_intros]: "gui_ok L s \<Longrightarrow> gui_ok L (snd (GuiCloseTab target_id s))"
  unfolding GuiCloseTab_def Let_def using gui_ok_erase [of L s "case target_id of Some t \<Rightarrow> t | None \<Rightarrow> gui_active s"]
  by (simp split: option.split)

lemma gui_ok_remove_window [inv_intros]: "gui_ok L s \<Longrightarrow> gui_ok L (GuiRemoveClosedWindow t s)"
  using gui_ok_erase [of L s t "gui_closed s"]
  by (simp add: GuiRemoveClosedWindow_def split: option.split)

lemma gui_target_id_fresh:
  assumes "gui_ok L s" shows "gui_target_id L (gui_next_tab_id s) \<notin> set (gui_ids s)"
proof
  assume "gui_target_id L (gui_next_tab_id s) \<in> set (gui_ids s)"
  with assms obtain n where n: "n < uint (gui_next_tab_id s)"
    "lib_number_to_string L (uint (gui_next_tab_id s)) = lib_number_to_string L n"
    by (auto simp: gui_ok_def gui_target_id_def)
  with assms have "uint (gui_next_tab_id s) = n"
    by (auto simp: gui_ok_def number_law_def dest: injD)
  with n(1) show False by simp
qed

lemma gui_create:
  assumes "gui_ok L s" "gui_fresh e s" "GuiCreateTab L page (fst e) (snd e) s = (r, s')"
  shows "gui_ok L s' \<and> (case r of
      None \<Rightarrow> gui_tabs s' = gui_tabs s \<and> gui_active s' = gui_active s
    | Some i \<Rightarrow> tab_target_id i = gui_target_id L (gui_next_tab_id s) \<and>
        gui_ids s' = gui_ids s @ [tab_target_id i] \<and> gui_active s' = tab_target_id i)"
proof -
  have up: "uint (gui_next_tab_id s + 1) = uint (gui_next_tab_id s) + 1"
    using assms(2) by (simp add: gui_fresh_def uint_next)
  have old: "\<forall>t \<in> set (gui_ids s). \<exists>n. n < uint (gui_next_tab_id s) + 1 \<and> t = ''gui-'' @ lib_number_to_string L n"
    using assms(1) unfolding gui_ok_def by (metis less_add_one order_less_trans)
  have new: "\<exists>n. n < uint (gui_next_tab_id s) + 1 \<and>
      gui_target_id L (gui_next_tab_id s) = ''gui-'' @ lib_number_to_string L n"
    by (intro exI [of _ "uint (gui_next_tab_id s)"]) (simp add: gui_target_id_def)
  show ?thesis
  proof (cases "ge_contents (fst e)")
    case None
    with assms show ?thesis by (auto simp: GuiCreateTab_def)
  next
    case (Some wc)
    show ?thesis
    proof (cases "ge_window (fst e)")
      case False
      with Some assms(3) have "r = None" "s' = s\<lparr>gui_next_tab_id := gui_next_tab_id s + 1\<rparr>"
        by (simp_all add: GuiCreateTab_def Let_def)
      with assms(1) old up show ?thesis by (simp add: gui_ok_def)
    next
      case True
      let ?tab = "\<lparr>gt_target_id = gui_target_id L (gui_next_tab_id s), gt_contents = wc\<rparr>"
      from True Some assms(3) have s': "r = Some (GuiMakeTabInfo page ?tab)"
        "gui_tabs s' = gui_tabs s @ [?tab]" "gui_active s' = gui_target_id L (gui_next_tab_id s)"
        "gui_next_tab_id s' = gui_next_tab_id s + 1"
        by (auto simp: GuiCreateTab_def Let_def)
      then have ids: "gui_ids s' = gui_ids s @ [gui_target_id L (gui_next_tab_id s)]"
        by (simp add: gui_ids_def)
      with s' assms(1) old new up gui_target_id_fresh [OF assms(1)] show ?thesis
        by (simp add: gui_ok_def GuiMakeTabInfo_def)
    qed
  qed
qed

section \<open>The runtime implements the interface\<close>

definition gui_create_id ::
  "base_lib \<Rightarrow> page_info \<Rightarrow> gui_env \<times> string \<Rightarrow> gui_runtime \<Rightarrow> string option \<times> gui_runtime" where
  "gui_create_id L page e s =
     (map_option tab_target_id (fst (GuiCreateTab L page (fst e) (snd e) s)),
      snd (GuiCreateTab L page (fst e) (snd e) s))"

lemma GuiCloseTab_found:
  assumes "gui_ok L s" "GuiFindTab i s = Some tab"
  shows "GuiCloseTab (Some i) s =
    (True, after_erase (gui_active s = i)
       (s\<lparr>gui_closed := gui_closed s @ [gt_contents tab], gui_tabs := erase_tab i (gui_tabs s)\<rparr>))"
proof -
  from assms(2) gui_find_iff [of i s] have "i \<in> set (gui_ids s)" by simp
  with assms gui_ok_id_nonempty show ?thesis by (fastforce simp: GuiCloseTab_def)
qed

lemma GuiCloseTab_ids:
  assumes "gui_ok L s" "i \<in> set (gui_ids s)" "GuiCloseTab (Some i) s = (b, s')"
  shows "b \<and> gui_ok L s' \<and> gui_ids s' = filter (\<lambda>u. u \<noteq> i) (gui_ids s)"
proof -
  obtain tab where tab: "GuiFindTab i s = Some tab" using assms(2) gui_find_iff [of i s] by auto
  from GuiCloseTab_found [OF assms(1) tab] assms(3)
  have "b" and s': "s' = after_erase (gui_active s = i)
       (s\<lparr>gui_closed := gui_closed s @ [gt_contents tab], gui_tabs := erase_tab i (gui_tabs s)\<rparr>)"
    by simp_all
  have "gui_ids s' = remove1 i (gui_ids s)"
    unfolding s' after_erase_ids by (simp add: erase_tab_ids gui_ids_def)
  moreover have "remove1 i (gui_ids s) = filter (\<lambda>u. u \<noteq> i) (gui_ids s)"
    using assms(1) by (intro distinct_remove1_filter) (simp add: gui_ok_def)
  moreover have "gui_ok L s'" using gui_ok_close [OF assms(1), of "Some i"] assms(3) by simp
  ultimately show ?thesis using \<open>b\<close> by simp
qed

lemma GuiCloseTab_unknown: "gui_ok L s \<Longrightarrow> i \<notin> set (gui_ids s) \<Longrightarrow> GuiCloseTab (Some i) s = (False, s)"
  using gui_find_iff [of i s] by (simp add: GuiCloseTab_def)

lemma GuiCloseTab_active:
  assumes "gui_ok L s"
  shows "GuiCloseTab None s = (case gui_active_id s of None \<Rightarrow> (False, s) | Some t \<Rightarrow> GuiCloseTab (Some t) s)"
  using assms by (simp add: gui_ok_active [OF assms] GuiCloseTab_def gui_ok_def)

interpretation gui: tab_runtime "gui_ok L" gui_ids gui_active_id GuiGetWebContentsByTargetId gui_fresh
  "gui_create_id L page" GuiCloseTab for L page
proof unfold_locales
  show "gui_ok L s \<Longrightarrow> distinct (gui_ids s)" for s by (simp add: gui_ok_def)
  show "gui_ok L s \<Longrightarrow> gui_active_id s = Some t \<Longrightarrow> t \<in> set (gui_ids s)" for s t
    by (auto simp: gui_ok_active gui_ok_def split: if_splits)
  show "gui_ok L s \<Longrightarrow> gui_active_id s = None \<longleftrightarrow> gui_ids s = []" for s
    by (simp add: gui_ok_active gui_ids_Nil)
  show "GuiGetWebContentsByTargetId t s = None \<longleftrightarrow> t \<notin> set (gui_ids s)" for s t
    by (simp add: GuiGetWebContentsByTargetId_def gui_find_iff)
  show "gui_ok L s' \<and> t \<notin> set (gui_ids s) \<and> gui_ids s' = gui_ids s @ [t] \<and> gui_active_id s' = Some t"
    if "gui_ok L s" "gui_fresh e s" "gui_create_id L page e s = (Some t, s')" for s e t s'
  proof -
    from that(3) obtain i where "GuiCreateTab L page (fst e) (snd e) s = (Some i, s')" "tab_target_id i = t"
      by (auto simp: gui_create_id_def prod_eq_iff)
    from gui_create [OF that(1,2) this(1)] this(2) gui_target_id_fresh [OF that(1)] show ?thesis
      by (auto simp: gui_ok_active gui_ids_Nil [symmetric])
  qed
  show "gui_ok L s' \<and> gui_ids s' = gui_ids s \<and> gui_active_id s' = gui_active_id s"
    if "gui_ok L s" "gui_fresh e s" "gui_create_id L page e s = (None, s')" for s e s'
  proof -
    from that(3) have "GuiCreateTab L page (fst e) (snd e) s = (None, s')"
      by (auto simp: gui_create_id_def prod_eq_iff)
    from gui_create [OF that(1,2) this] show ?thesis
      by (simp add: gui_ids_def gui_active_id_def GuiActiveTab_def GuiFindTab_def)
  qed
qed (rule GuiCloseTab_ids GuiCloseTab_unknown GuiCloseTab_active; assumption)+

section \<open>Properties\<close>

text \<open>Everything that happens to the runtime, in any order, while the tab counter does not wrap.\<close>

inductive gui_run :: "base_lib \<Rightarrow> page_info \<Rightarrow> gui_runtime \<Rightarrow> bool" for L page where
  start: "gui_run L page (new_gui_runtime c z)"
| init: "gui_run L page s \<Longrightarrow> gui_fresh (e, ''about:blank'') s \<Longrightarrow> gui_run L page (snd (GuiInitialize L page e s))"
| create: "gui_run L page s \<Longrightarrow> gui_fresh (e, url) s \<Longrightarrow> gui_run L page (snd (GuiCreateTab L page e url s))"
| close: "gui_run L page s \<Longrightarrow> gui_run L page (snd (GuiCloseTab t s))"
| window_closed: "gui_run L page s \<Longrightarrow> gui_run L page (GuiRemoveClosedWindow t s)"
| shutdown: "gui_run L page s \<Longrightarrow> gui_run L page (GuiShutdown s)"

lemma gui_create_ok: "gui_ok L s \<Longrightarrow> gui_fresh (e, url) s \<Longrightarrow> gui_ok L (snd (GuiCreateTab L page e url s))"
  using gui_create [of L s "(e, url)" page] by (metis fst_conv prod.collapse snd_conv)

lemma gui_run_ok: "gui_run L page s \<Longrightarrow> number_law L \<Longrightarrow> gui_ok L s"
proof (induction rule: gui_run.induct)
  case (start c z)
  then show ?case by (simp add: gui_ok_def new_gui_runtime_def gui_ids_def)
next
  case (init s e)
  then show ?case
    using gui_create_ok [of L s e "''about:blank''" page] by (simp add: GuiInitialize_def case_prod_beta)
next
  case (create s e url)
  then show ?case by (simp add: gui_create_ok)
qed (simp_all add: inv_intros)

definition quit_ok :: "gui_runtime \<Rightarrow> bool" where
  "quit_ok s \<longleftrightarrow> gui_quits s \<le> 1 \<and> (gui_quits s = 1 \<longrightarrow> gui_shutdown_started s)"

lemma quit_ok_steps [simp]:
  "quit_ok (s\<lparr>gui_closed := c\<rparr>) = quit_ok s" "quit_ok (s\<lparr>gui_tabs := ts\<rparr>) = quit_ok s"
  "quit_ok (GuiChooseFallbackActiveTab s) = quit_ok s"
  by (simp_all add: quit_ok_def GuiChooseFallbackActiveTab_def)

lemma quit_ok_shutdown [inv_intros]: "quit_ok s \<Longrightarrow> quit_ok (GuiShutdown s)"
  by (auto simp: quit_ok_def GuiShutdown_def)

lemma quit_ok_after_erase [inv_intros]: "quit_ok s \<Longrightarrow> quit_ok (after_erase w s)"
  by (simp add: after_erase_def Let_def quit_ok_shutdown)

lemma quit_ok_create [inv_intros]: "quit_ok s \<Longrightarrow> quit_ok (snd (GuiCreateTab L page e url s))"
  by (simp add: GuiCreateTab_def quit_ok_def Let_def split: option.split)

lemma gui_run_quit_ok: "gui_run L page s \<Longrightarrow> quit_ok s"
proof (induction rule: gui_run.induct)
  case (start c z)
  show ?case by (simp add: quit_ok_def new_gui_runtime_def)
next
  case (init s e)
  then show ?case by (simp add: GuiInitialize_def case_prod_beta quit_ok_create)
next
  case (close s t)
  then show ?case by (auto simp: GuiCloseTab_def Let_def intro!: quit_ok_after_erase split: option.split)
next
  case (window_closed s t)
  then show ?case by (auto simp: GuiRemoveClosedWindow_def intro!: quit_ok_after_erase split: option.split)
qed (simp_all add: inv_intros)

definition demo_page :: page_info where
  "demo_page wc = (''page'', ''about:blank'')"

definition demo_gui :: gui_runtime where
  "demo_gui =
     snd (GuiCreateTab ref_lib demo_page \<lparr>ge_contents = Some 8, ge_window = True\<rparr> ''http://a/''
       (snd (GuiCreateTab ref_lib demo_page \<lparr>ge_contents = Some 7, ge_window = True\<rparr> ''about:blank''
         (new_gui_runtime True True))))"

lemma demo_gui_run: "gui_run ref_lib demo_page demo_gui"
proof -
  let ?s = "snd (GuiCreateTab ref_lib demo_page \<lparr>ge_contents = Some 7, ge_window = True\<rparr> ''about:blank''
         (new_gui_runtime True True))"
  have "gui_run ref_lib demo_page ?s"
    by (rule gui_run.create [OF gui_run.start]) (simp add: gui_fresh_def new_gui_runtime_def)
  then show ?thesis unfolding demo_gui_def
    by (rule gui_run.create) (simp add: gui_fresh_def new_gui_runtime_def GuiCreateTab_def Let_def)
qed

text \<open>
  C16: in every run of the GUI runtime the target ids of the tabs are distinct, the active tab is
  one of the tabs, there is no active tab only when there is no tab, and the quit callback has run
  at most once, and only after shutdown has started.
\<close>

theorem gui_tabs_consistent:
  assumes "gui_run L page s" and "number_law L"
  shows "distinct (map gt_target_id (gui_tabs s)) \<and>
    (if gui_tabs s = [] then gui_active s = [] else gui_active s \<in> gt_target_id ` set (gui_tabs s)) \<and>
    gui_quits s \<le> 1 \<and> (gui_quits s = 1 \<longrightarrow> gui_shutdown_started s)"
  using gui_run_ok [OF assms] gui_run_quit_ok [OF assms(1)]
  by (auto simp: gui_ok_def gui_ids_def quit_ok_def)

theorem gui_tabs_consistent_witness:
  "distinct (map gt_target_id (gui_tabs demo_gui)) \<and> gui_active demo_gui = ''gui-2''"
proof -
  have "gui_active demo_gui = ''gui-2''" by code_simp
  then show ?thesis using gui_tabs_consistent [OF demo_gui_run number_law_ref_lib] by simp
qed

text \<open>
  Closing a tab of the GUI runtime closes exactly that tab: the other tabs stay, in order;
  the active tab stays active when another one is closed, and otherwise the first tab left
  becomes active; the window is closed; and when the last tab goes the runtime shuts down if its
  options say so.
\<close>

lemma gui_close_tab:
  assumes "gui_ok L s" and "GuiFindTab t s = Some tab" and "GuiCloseTab (Some t) s = (b, s')"
  shows "b \<and> gui_ids s' = filter (\<lambda>u. u \<noteq> t) (gui_ids s) \<and>
    gui_active s' = (if gui_active s \<noteq> t then gui_active s
                     else case gui_ids s' of [] \<Rightarrow> [] | u # us \<Rightarrow> u) \<and>
    (\<exists>more. gui_closed s' = gui_closed s @ gt_contents tab # more) \<and>
    (gui_ids s' = [] \<and> gui_shutdown_on_zero_tabs s \<longrightarrow> gui_shutdown_started s')"
proof -
  have mem: "t \<in> set (gui_ids s)" using assms(2) gui_find_iff [of t s] by simp
  have s': "s' = after_erase (gui_active s = t)
      (s\<lparr>gui_closed := gui_closed s @ [gt_contents tab], gui_tabs := erase_tab t (gui_tabs s)\<rparr>)"
    using assms(3) GuiCloseTab_found [OF assms(1,2)] by simp
  have empty: "gui_active s = t" if "erase_tab t (gui_tabs s) = []"
  proof -
    have "gui_tabs s \<noteq> []" using mem by (auto simp: gui_ids_def)
    then have "gui_active s \<in> set (gui_ids s)" using assms(1) by (simp add: gui_ok_def)
    moreover have "remove1 t (gui_ids s) = []"
      using that erase_tab_ids [of t "gui_tabs s"] by (simp add: gui_ids_def)
    ultimately show ?thesis by (metis empty_iff in_set_remove1 list.set(1))
  qed
  have "gui_active s' = (if gui_active s \<noteq> t then gui_active s
      else case gui_ids s' of [] \<Rightarrow> [] | u # us \<Rightarrow> u)"
    using empty by (auto simp: s' after_erase_def GuiChooseFallbackActiveTab_def GuiShutdown_def Let_def
        gui_ids_def split: list.split)
  moreover have "\<exists>more. gui_closed s' = gui_closed s @ gt_contents tab # more"
    by (simp add: s' after_erase_def GuiChooseFallbackActiveTab_def GuiShutdown_def Let_def)
  moreover have "gui_ids s' = [] \<and> gui_shutdown_on_zero_tabs s \<longrightarrow> gui_shutdown_started s'"
    by (auto simp: s' after_erase_ids after_erase_def GuiChooseFallbackActiveTab_def GuiShutdown_def Let_def gui_ids_def)
  ultimately show ?thesis using GuiCloseTab_ids [OF assms(1) mem assms(3)] by blast
qed

lemma gui_close_tab_witness:
  "gui_active (snd (GuiCloseTab (Some ''gui-2'') demo_gui)) = ''gui-1''"
proof -
  have ok: "gui_ok ref_lib demo_gui" by (rule gui_run_ok [OF demo_gui_run number_law_ref_lib])
  have f: "GuiFindTab ''gui-2'' demo_gui = Some \<lparr>gt_target_id = ''gui-2'', gt_contents = 8\<rparr>" by code_simp
  have i: "gui_ids demo_gui = [''gui-1'', ''gui-2'']" and a: "gui_active demo_gui = ''gui-2''" by code_simp+
  obtain b s' where c: "GuiCloseTab (Some ''gui-2'') demo_gui = (b, s')" by fastforce
  from gui_close_tab [OF ok f c] i a c show ?thesis by simp
qed

text \<open>
  A tab that was just made and is closed again leaves the tabs as they were, and closing it
  once more reports that there is no such tab; its page is no longer found.
\<close>

lemma gui_create_then_close:
  assumes "gui_ok L s" and "gui_fresh (e, url) s"
    and "GuiCreateTab L page e url s = (Some i, s1)" and "GuiCloseTab (Some (tab_target_id i)) s1 = (b, s2)"
  shows "b \<and> gui_ids s2 = gui_ids s \<and> GuiGetWebContentsByTargetId (tab_target_id i) s2 = None \<and>
    GuiCloseTab (Some (tab_target_id i)) s2 = (False, s2)"
proof -
  have c: "gui_create_id L page (e, url) s = (Some (tab_target_id i), s1)"
    using assms(3) by (simp add: gui_create_id_def)
  have "gui_ok L s1" using gui.create_some [OF assms(1,2) c] by blast
  then show ?thesis
    using gui.close_created [OF assms(1,2) c assms(4)] gui.close_again [OF _ assms(4)]
      gui.lookup_after_close [OF _ assms(4)] by blast
qed

lemma gui_create_then_close_witness:
  "gui_ids (snd (GuiCloseTab (Some ''gui-3'') (snd (GuiCreateTab ref_lib demo_page
     \<lparr>ge_contents = Some 9, ge_window = True\<rparr> ''http://b/'' demo_gui)))) = [''gui-1'', ''gui-2'']"
proof -
  let ?e = "\<lparr>ge_contents = Some 9, ge_window = True\<rparr>"
  let ?c = "GuiCreateTab ref_lib demo_page ?e ''http://b/'' demo_gui"
  have ok: "gui_ok ref_lib demo_gui" by (rule gui_run_ok [OF demo_gui_run number_law_ref_lib])
  have "gui_next_tab_id demo_gui = 3" by code_simp
  then have fr: "gui_fresh (?e, ''http://b/'') demo_gui" by (simp add: gui_fresh_def)
  have f: "fst ?c = Some \<lparr>tab_target_id = ''gui-3'', tab_title = ''page'', tab_url = ''about:blank''\<rparr>" by code_simp
  have c: "?c = (Some \<lparr>tab_target_id = ''gui-3'', tab_title = ''page'', tab_url = ''about:blank''\<rparr>, snd ?c)"
    unfolding f [symmetric] by simp
  obtain b s2 where cl: "GuiCloseTab (Some ''gui-3'') (snd ?c) = (b, s2)" by fastforce
  have i: "gui_ids demo_gui = [''gui-1'', ''gui-2'']" by code_simp
  from gui_create_then_close [OF ok fr c, of b s2] cl i show ?thesis by simp
qed

text \<open>
  Closing the active tab as many times as there are tabs closes them all, whichever tab
  becomes active in between.
\<close>

lemma gui_close_active_drains:
  assumes "gui_ok L s"
  shows "gui_ids (((\<lambda>s. snd (GuiCloseTab None s)) ^^ length (gui_tabs s)) s) = []"
  using gui.close_all [OF assms, of "length (gui_tabs s)"] by (simp add: gui_ids_def)

lemma gui_close_active_drains_witness:
  "gui_ids (((\<lambda>s. snd (GuiCloseTab None s)) ^^ 2) demo_gui) = []"
proof -
  have "length (gui_tabs demo_gui) = 2" by code_simp
  with gui_close_active_drains [OF gui_run_ok [OF demo_gui_run number_law_ref_lib]] show ?thesis by metis
qed

end
