(* ===== verification/Headless_Runtime.thy ===== *)
theory Headless_Runtime
  imports Runtime
begin

section \<open>The headless runtime (\<open>headless_runtime.cc\<close>)\<close>

text \<open>
  The tabs are the live web contents of a headless browser context, which the headless library
  owns: \<open>Build()\<close> adds one, \<open>Close()\<close> destroys one. A target id is the printed address of the
  headless object (\<open>fmt\<close> is \<open>StringPrintf("%p")\<close>). The runtime itself keeps the active page.
\<close>

record headless_tab =
  ht_address :: nat
  ht_web_contents :: "web_contents option"   \<comment> \<open>\<open>impl ? impl->web_contents() : nullptr\<close>\<close>

record headless_runtime =
  hl_browser :: bool
  hl_context :: "headless_tab list option"
  hl_active :: "web_contents option"
  hl_loads :: "(nat \<times> string) list"
  hl_sizes :: "(web_contents \<times> int \<times> int) list"
  hl_shutdowns :: nat

definition new_headless_runtime :: headless_runtime where
  "new_headless_runtime =
     \<lparr>hl_browser = True, hl_context = None, hl_active = None, hl_loads = [], hl_sizes = [], hl_shutdowns = 0\<rparr>"

definition hl_all :: "headless_runtime \<Rightarrow> headless_tab list" where
  "hl_all s = (case hl_context s of None \<Rightarrow> [] | Some ts \<Rightarrow> ts)"

definition HlMakeTargetId :: "(nat \<Rightarrow> string) \<Rightarrow> headless_tab \<Rightarrow> string" where
  "HlMakeTargetId fmt t = fmt (ht_address t)"

definition HlMakeTabInfo :: "(nat \<Rightarrow> string) \<Rightarrow> page_info \<Rightarrow> headless_tab \<Rightarrow> BrowserTabInfo" where
  "HlMakeTabInfo fmt page t =
     (case ht_web_contents t of
        None \<Rightarrow> \<lparr>tab_target_id = HlMakeTargetId fmt t, tab_title = [], tab_url = []\<rparr>
      | Some wc \<Rightarrow> \<lparr>tab_target_id = HlMakeTargetId fmt t, tab_title = fst (page wc), tab_url = snd (page wc)\<rparr>)"

text \<open>\<open>dir_ok\<close> is \<open>GetHeadlessUserDataDir\<close>, \<open>built\<close> the web contents the library builds.\<close>

definition HlInitialize :: "bool \<Rightarrow> headless_tab option \<Rightarrow> headless_runtime \<Rightarrow> bool \<times> headless_runtime" where
  "HlInitialize dir_ok built s =
     (if \<not> dir_ok then (False, s)
      else
        case built of
          None \<Rightarrow> (False, s\<lparr>hl_context := Some []\<rparr>)
        | Some t \<Rightarrow>
            (ht_web_contents t \<noteq> None,
             s\<lparr>hl_context := Some [t], hl_active := ht_web_contents t,
               hl_loads := hl_loads s @ [(ht_address t, ''about:blank'')]\<rparr>))"

definition HlFindByTargetId :: "(nat \<Rightarrow> string) \<Rightarrow> string \<Rightarrow> headless_runtime \<Rightarrow> headless_tab option" where
  "HlFindByTargetId fmt target_id s =
     (case hl_context s of
        None \<Rightarrow> None
      | Some ts \<Rightarrow> find (\<lambda>t. HlMakeTargetId fmt t = target_id) ts)"

definition HlGetWebContentsByTargetId ::
  "(nat \<Rightarrow> string) \<Rightarrow> string \<Rightarrow> headless_runtime \<Rightarrow> web_contents option" where
  "HlGetWebContentsByTargetId fmt target_id s =
     (case HlFindByTargetId fmt target_id s of None \<Rightarrow> None | Some t \<Rightarrow> ht_web_contents t)"

definition HlAllWebContents :: "headless_runtime \<Rightarrow> web_contents list" where
  "HlAllWebContents s = List.map_filter ht_web_contents (hl_all s)"

definition HlListTabs :: "(nat \<Rightarrow> string) \<Rightarrow> page_info \<Rightarrow> headless_runtime \<Rightarrow> BrowserTabInfo list" where
  "HlListTabs fmt page s = map (HlMakeTabInfo fmt page) (hl_all s)"

definition HlActiveHeadlessWebContents :: "headless_runtime \<Rightarrow> headless_tab option" where
  "HlActiveHeadlessWebContents s =
     (case hl_active s of
        None \<Rightarrow> None
      | Some wc \<Rightarrow> find (\<lambda>t. ht_web_contents t = Some wc) (hl_all s))"

definition HlCreateTab ::
  "(nat \<Rightarrow> string) \<Rightarrow> page_info \<Rightarrow> headless_tab option \<Rightarrow> string \<Rightarrow> headless_runtime \<Rightarrow>
     BrowserTabInfo option \<times> headless_runtime" where
  "HlCreateTab fmt page built url s =
     (case hl_context s of
        None \<Rightarrow> (None, s)
      | Some ts \<Rightarrow>
          case built of
            None \<Rightarrow> (None, s)
          | Some t \<Rightarrow>
              (Some (HlMakeTabInfo fmt page t),
               s\<lparr>hl_context := Some (ts @ [t]), hl_active := ht_web_contents t,
                 hl_loads := hl_loads s @ [(ht_address t, url)]\<rparr>))"

definition HlResizeActive :: "int \<times> int \<Rightarrow> headless_runtime \<Rightarrow> headless_runtime" where
  "HlResizeActive extent s =
     (case hl_active s of None \<Rightarrow> s | Some wc \<Rightarrow> s\<lparr>hl_sizes := hl_sizes s @ [(wc, extent)]\<rparr>)"

definition HlShutdown :: "headless_runtime \<Rightarrow> headless_runtime" where
  "HlShutdown s = (if hl_browser s then s\<lparr>hl_shutdowns := Suc (hl_shutdowns s)\<rparr> else s)"

text \<open>The loop takes the first other web contents that has a page.\<close>

fun first_page :: "nat \<Rightarrow> headless_tab list \<Rightarrow> web_contents option" where
  "first_page closing [] = None"
| "first_page closing (t # ts) =
     (if ht_address t = closing then first_page closing ts
      else case ht_web_contents t of Some wc \<Rightarrow> Some wc | None \<Rightarrow> first_page closing ts)"

definition HlChooseFallbackActiveTab :: "headless_tab \<Rightarrow> headless_runtime \<Rightarrow> headless_runtime" where
  "HlChooseFallbackActiveTab closing s =
     s\<lparr>hl_active := (case hl_context s of None \<Rightarrow> None | Some ts \<Rightarrow> first_page (ht_address closing) ts)\<rparr>"

definition HlCloseTab :: "(nat \<Rightarrow> string) \<Rightarrow> string option \<Rightarrow> headless_runtime \<Rightarrow> bool \<times> headless_runtime" where
  "HlCloseTab fmt target_id s =
     (case (case target_id of Some t \<Rightarrow> HlFindByTargetId fmt t s | None \<Rightarrow> HlActiveHeadlessWebContents s) of
        None \<Rightarrow> (False, s)
      | Some contents \<Rightarrow>
          let s1 = HlChooseFallbackActiveTab contents s;
              s2 = s1\<lparr>hl_context := map_option (filter (\<lambda>t. ht_address t \<noteq> ht_address contents)) (hl_context s1)\<rparr>
          in (True, if hl_active s2 = None then HlShutdown s2 else s2))"

section \<open>The runtime implements the interface\<close>

definition hl_ids :: "(nat \<Rightarrow> string) \<Rightarrow> headless_runtime \<Rightarrow> string list" where
  "hl_ids fmt s = map (HlMakeTargetId fmt) (hl_all s)"

definition hl_active_id :: "(nat \<Rightarrow> string) \<Rightarrow> headless_runtime \<Rightarrow> string option" where
  "hl_active_id fmt s = map_option (HlMakeTargetId fmt) (HlActiveHeadlessWebContents s)"

text \<open>
  The context is there, its objects and their pages are different, addresses print differently,
  and the active page belongs to one of the objects unless there is none.
\<close>

definition headless_ok :: "(nat \<Rightarrow> string) \<Rightarrow> headless_runtime \<Rightarrow> bool" where
  "headless_ok fmt s \<longleftrightarrow>
     inj fmt \<and> hl_context s \<noteq> None \<and> distinct (map ht_address (hl_all s)) \<and>
     distinct (map ht_web_contents (hl_all s)) \<and> None \<notin> set (map ht_web_contents (hl_all s)) \<and>
     (if hl_all s = [] then hl_active s = None else hl_active s \<in> set (map ht_web_contents (hl_all s)))"

definition hl_fresh :: "headless_tab option \<times> string \<Rightarrow> headless_runtime \<Rightarrow> bool" where
  "hl_fresh e s \<longleftrightarrow>
     (case fst e of
        None \<Rightarrow> True
      | Some t \<Rightarrow> ht_address t \<notin> set (map ht_address (hl_all s)) \<and>
          ht_web_contents t \<noteq> None \<and> ht_web_contents t \<notin> set (map ht_web_contents (hl_all s)))"

definition hl_create_id ::
  "(nat \<Rightarrow> string) \<Rightarrow> page_info \<Rightarrow> headless_tab option \<times> string \<Rightarrow> headless_runtime \<Rightarrow>
     string option \<times> headless_runtime" where
  "hl_create_id fmt page e s =
     (map_option tab_target_id (fst (HlCreateTab fmt page (fst e) (snd e) s)),
      snd (HlCreateTab fmt page (fst e) (snd e) s))"

lemma HlMakeTabInfo_id [simp]: "tab_target_id (HlMakeTabInfo fmt page t) = HlMakeTargetId fmt t"
  by (simp add: HlMakeTabInfo_def split: option.split)

lemma hl_all_simps [simp]:
  "hl_all (s\<lparr>hl_context := Some ts\<rparr>) = ts" "hl_all (s\<lparr>hl_active := a\<rparr>) = hl_all s"
  "hl_all (s\<lparr>hl_sizes := z\<rparr>) = hl_all s" "hl_all (s\<lparr>hl_loads := l\<rparr>) = hl_all s" "hl_all (HlShutdown s) = hl_all s"
  by (simp_all add: hl_all_def HlShutdown_def)

lemma HlFind_alt: "HlFindByTargetId fmt i s = find (\<lambda>t. HlMakeTargetId fmt t = i) (hl_all s)"
  by (simp add: HlFindByTargetId_def hl_all_def split: option.split)

lemma HlFind_None: "HlFindByTargetId fmt i s = None \<longleftrightarrow> i \<notin> set (hl_ids fmt s)"
  by (auto simp: HlFind_alt find_None_iff hl_ids_def)

lemma HlFind_Some: "HlFindByTargetId fmt i s = Some t \<Longrightarrow> HlMakeTargetId fmt t = i \<and> t \<in> set (hl_all s)"
  unfolding HlFind_alt by (rule find_SomeD)

lemma first_page_filter:
  "None \<notin> set (map ht_web_contents ts) \<Longrightarrow>
     first_page a ts = (case filter (\<lambda>t. ht_address t \<noteq> a) ts of [] \<Rightarrow> None | t # _ \<Rightarrow> ht_web_contents t)"
  by (induction ts) (auto split: option.split)

lemma headless_ok_resize [inv_intros]: "headless_ok fmt s \<Longrightarrow> headless_ok fmt (HlResizeActive extent s)"
  by (cases "hl_active s") (auto simp: HlResizeActive_def headless_ok_def split: if_splits)

lemma hl_close_found:
  assumes "headless_ok fmt s" "HlFindByTargetId fmt i s = Some c"
  shows "\<exists>s'. HlCloseTab fmt (Some i) s = (True, s') \<and>
    hl_all s' = filter (\<lambda>t. ht_address t \<noteq> ht_address c) (hl_all s) \<and>
    hl_active s' = (case hl_all s' of [] \<Rightarrow> None | t # _ \<Rightarrow> ht_web_contents t) \<and>
    hl_context s' \<noteq> None \<and>
    hl_shutdowns s' = (if hl_all s' = [] \<and> hl_browser s then Suc (hl_shutdowns s) else hl_shutdowns s)"
proof -
  obtain ts where ts: "hl_context s = Some ts" "hl_all s = ts"
    using assms(1) by (auto simp: headless_ok_def hl_all_def)
  let ?rest = "filter (\<lambda>t. ht_address t \<noteq> ht_address c) ts"
  have pages: "None \<notin> ht_web_contents ` set ts" using assms(1) ts by (auto simp: headless_ok_def)
  have f: "first_page (ht_address c) ts = (case ?rest of [] \<Rightarrow> None | t # _ \<Rightarrow> ht_web_contents t)"
    using pages by (intro first_page_filter) simp
  have "(case ?rest of [] \<Rightarrow> None | t # _ \<Rightarrow> ht_web_contents t) = None \<longleftrightarrow> ?rest = []"
  proof (cases ?rest)
    case (Cons t ts')
    then have "t \<in> set ts" by (metis filter_eq_ConsD in_set_conv_decomp)
    with pages Cons show ?thesis by force
  qed simp
  then show ?thesis
    using assms(2) ts f
    by (auto simp: HlCloseTab_def HlChooseFallbackActiveTab_def HlShutdown_def Let_def hl_all_def)
qed

lemma headless_ok_rest:
  assumes "headless_ok fmt s" "hl_all s' = filter P (hl_all s)" "hl_context s' \<noteq> None"
    "hl_active s' = (case hl_all s' of [] \<Rightarrow> None | t # _ \<Rightarrow> ht_web_contents t)"
  shows "headless_ok fmt s'"
proof -
  have "distinct (map ht_address (hl_all s'))" "distinct (map ht_web_contents (hl_all s'))"
    "None \<notin> set (map ht_web_contents (hl_all s'))"
    using assms(1,2) by (auto simp: headless_ok_def distinct_map inj_on_def)
  with assms(1,3,4) show ?thesis by (cases "hl_all s'") (simp_all add: headless_ok_def)
qed

lemma hl_ids_filter:
  assumes "inj fmt"
  shows "map (HlMakeTargetId fmt) (filter (\<lambda>t. ht_address t \<noteq> ht_address c) ts) =
    filter (\<lambda>u. u \<noteq> HlMakeTargetId fmt c) (map (HlMakeTargetId fmt) ts)"
  using assms by (induction ts) (auto simp: HlMakeTargetId_def dest: injD)

lemma hl_close_known:
  assumes "headless_ok fmt s" "i \<in> set (hl_ids fmt s)" "HlCloseTab fmt (Some i) s = (b, s')"
  shows "b \<and> headless_ok fmt s' \<and> hl_ids fmt s' = filter (\<lambda>u. u \<noteq> i) (hl_ids fmt s)"
proof -
  obtain c where c: "HlFindByTargetId fmt i s = Some c" using assms(2) HlFind_None [of fmt i s] by auto
  from hl_close_found [OF assms(1) c] assms(3) have *: "b"
    "hl_all s' = filter (\<lambda>t. ht_address t \<noteq> ht_address c) (hl_all s)" "hl_context s' \<noteq> None"
    "hl_active s' = (case hl_all s' of [] \<Rightarrow> None | t # _ \<Rightarrow> ht_web_contents t)" by simp_all
  from HlFind_Some [OF c] have i: "HlMakeTargetId fmt c = i" by simp
  have "inj fmt" using assms(1) by (simp add: headless_ok_def)
  from hl_ids_filter [OF this, of c "hl_all s"] *(2) i
  have "hl_ids fmt s' = filter (\<lambda>u. u \<noteq> i) (hl_ids fmt s)" by (simp add: hl_ids_def)
  with *(1) headless_ok_rest [OF assms(1) *(2,3,4)] show ?thesis by simp
qed

lemma hl_close_unknown: "i \<notin> set (hl_ids fmt s) \<Longrightarrow> HlCloseTab fmt (Some i) s = (False, s)"
  using HlFind_None [of fmt i s] by (simp add: HlCloseTab_def)

lemma find_unique:
  "distinct (map f xs) \<Longrightarrow> x \<in> set xs \<Longrightarrow> find (\<lambda>y. f y = f x) xs = Some x"
  by (induction xs) auto

lemma headless_ok_page:
  assumes "headless_ok fmt s" "t \<in> set (hl_all s)" shows "ht_web_contents t \<noteq> None"
proof
  assume "ht_web_contents t = None"
  then have "None \<in> set (map ht_web_contents (hl_all s))" using assms(2) by force
  with assms(1) show False unfolding headless_ok_def by blast
qed

lemma hl_active_some:
  assumes "headless_ok fmt s" "hl_all s \<noteq> []"
  obtains t where "t \<in> set (hl_all s)" "hl_active s = ht_web_contents t"
    "HlActiveHeadlessWebContents s = Some t" "HlFindByTargetId fmt (HlMakeTargetId fmt t) s = Some t"
proof -
  from assms obtain t where t: "t \<in> set (hl_all s)" "hl_active s = ht_web_contents t"
    by (auto simp: headless_ok_def)
  moreover from headless_ok_page [OF assms(1) t(1)] obtain wc where wc: "ht_web_contents t = Some wc" by blast
  moreover have "find (\<lambda>u. ht_web_contents u = ht_web_contents t) (hl_all s) = Some t"
    using assms(1) t by (intro find_unique) (simp_all add: headless_ok_def)
  moreover have "distinct (map (HlMakeTargetId fmt) (hl_all s))"
    using assms(1) by (auto simp: headless_ok_def HlMakeTargetId_def distinct_map comp_inj_on inj_on_def dest: injD)
  then have "HlFindByTargetId fmt (HlMakeTargetId fmt t) s = Some t"
    unfolding HlFind_alt by (rule find_unique) (rule t)
  ultimately show ?thesis using that by (simp add: HlActiveHeadlessWebContents_def)
qed

lemma hl_active_none: "headless_ok fmt s \<Longrightarrow> hl_all s = [] \<Longrightarrow> HlActiveHeadlessWebContents s = None"
  by (simp add: HlActiveHeadlessWebContents_def headless_ok_def)

lemma hl_close_active:
  assumes "headless_ok fmt s"
  shows "HlCloseTab fmt None s =
    (case hl_active_id fmt s of None \<Rightarrow> (False, s) | Some t \<Rightarrow> HlCloseTab fmt (Some t) s)"
proof (cases "hl_all s = []")
  case True
  with hl_active_none [OF assms] show ?thesis by (simp add: HlCloseTab_def hl_active_id_def)
next
  case False
  from hl_active_some [OF assms this] obtain t where
    "HlActiveHeadlessWebContents s = Some t" "HlFindByTargetId fmt (HlMakeTargetId fmt t) s = Some t" .
  then show ?thesis by (simp add: HlCloseTab_def hl_active_id_def)
qed

lemma hl_create:
  assumes "headless_ok fmt s" "hl_fresh e s" "HlCreateTab fmt page (fst e) (snd e) s = (r, s')"
  shows "headless_ok fmt s' \<and> (case r of
      None \<Rightarrow> s' = s
    | Some i \<Rightarrow> (\<exists>t. tab_target_id i = HlMakeTargetId fmt t \<and> HlMakeTargetId fmt t \<notin> set (hl_ids fmt s) \<and>
        hl_all s' = hl_all s @ [t] \<and> hl_active s' = ht_web_contents t))"
proof -
  obtain ts where ts: "hl_context s = Some ts" "hl_all s = ts"
    using assms(1) by (auto simp: headless_ok_def hl_all_def)
  show ?thesis
  proof (cases "fst e")
    case None
    with assms ts show ?thesis by (auto simp: HlCreateTab_def)
  next
    case (Some t)
    with assms ts have s': "r = Some (HlMakeTabInfo fmt page t)" "hl_all s' = ts @ [t]"
      "hl_active s' = ht_web_contents t" "hl_context s' = Some (ts @ [t])"
      by (auto simp: HlCreateTab_def hl_all_def)
    moreover have "HlMakeTargetId fmt t \<notin> set (hl_ids fmt s)"
      using assms(1,2) Some by (auto simp: headless_ok_def hl_fresh_def hl_ids_def HlMakeTargetId_def dest: injD)
    ultimately show ?thesis
      using assms(1,2) Some ts by (auto simp: headless_ok_def hl_fresh_def)
  qed
qed

interpretation headless: tab_runtime "headless_ok fmt" "hl_ids fmt" "hl_active_id fmt"
  "HlGetWebContentsByTargetId fmt" hl_fresh "hl_create_id fmt page" "HlCloseTab fmt" for fmt page
proof unfold_locales
  show "distinct (hl_ids fmt s)" if "headless_ok fmt s" for s
    using that
    by (auto simp: headless_ok_def hl_ids_def HlMakeTargetId_def distinct_map inj_on_def dest: injD)
  show "t \<in> set (hl_ids fmt s)" if "headless_ok fmt s" "hl_active_id fmt s = Some t" for s t
  proof (cases "hl_all s = []")
    case True
    with that hl_active_none [OF that(1)] show ?thesis by (simp add: hl_active_id_def)
  next
    case False
    from that(1) False obtain u where "u \<in> set (hl_all s)" "HlActiveHeadlessWebContents s = Some u"
      by (rule hl_active_some)
    with that(2) show ?thesis by (auto simp: hl_active_id_def hl_ids_def)
  qed
  show "hl_active_id fmt s = None \<longleftrightarrow> hl_ids fmt s = []" if "headless_ok fmt s" for s
  proof (cases "hl_all s = []")
    case True
    with hl_active_none [OF that] show ?thesis by (simp add: hl_active_id_def hl_ids_def)
  next
    case False
    from that False obtain u where "u \<in> set (hl_all s)" "HlActiveHeadlessWebContents s = Some u"
      by (rule hl_active_some)
    with False show ?thesis by (simp add: hl_active_id_def hl_ids_def)
  qed
  show "HlGetWebContentsByTargetId fmt t s = None \<longleftrightarrow> t \<notin> set (hl_ids fmt s)"
    if "headless_ok fmt s" for s t
  proof (cases "HlFindByTargetId fmt t s")
    case None
    with HlFind_None [of fmt t s] show ?thesis by (simp add: HlGetWebContentsByTargetId_def)
  next
    case (Some c)
    with HlFind_Some [OF Some] headless_ok_page [OF that] have "ht_web_contents c \<noteq> None" by blast
    moreover have "t \<in> set (hl_ids fmt s)" using HlFind_None [of fmt t s] Some by simp
    ultimately show ?thesis using Some by (simp add: HlGetWebContentsByTargetId_def)
  qed
  show "headless_ok fmt s' \<and> t \<notin> set (hl_ids fmt s) \<and> hl_ids fmt s' = hl_ids fmt s @ [t] \<and>
      hl_active_id fmt s' = Some t"
    if "headless_ok fmt s" "hl_fresh e s" "hl_create_id fmt page e s = (Some t, s')" for s e t s'
  proof -
    from that(3) obtain i where c: "HlCreateTab fmt page (fst e) (snd e) s = (Some i, s')" "tab_target_id i = t"
      by (auto simp: hl_create_id_def prod_eq_iff)
    from hl_create [OF that(1,2) c(1)] c(2) obtain u where
      u: "headless_ok fmt s'" "t = HlMakeTargetId fmt u" "t \<notin> set (hl_ids fmt s)"
      "hl_all s' = hl_all s @ [u]" "hl_active s' = ht_web_contents u" by auto
    then have "hl_all s' \<noteq> []" by simp
    with u(1) obtain v where v: "v \<in> set (hl_all s')" "hl_active s' = ht_web_contents v"
      "HlActiveHeadlessWebContents s' = Some v" by (rule hl_active_some)
    have "distinct (map ht_web_contents (hl_all s'))" using u(1) by (simp add: headless_ok_def)
    then have "inj_on ht_web_contents (set (hl_all s'))" by (simp add: distinct_map)
    moreover have "u \<in> set (hl_all s')" "ht_web_contents v = ht_web_contents u" using u v by simp_all
    ultimately have "v = u" using v(1) by (metis inj_onD)
    with u v show ?thesis by (simp add: hl_ids_def hl_active_id_def)
  qed
  show "headless_ok fmt s' \<and> hl_ids fmt s' = hl_ids fmt s \<and> hl_active_id fmt s' = hl_active_id fmt s"
    if "headless_ok fmt s" "hl_fresh e s" "hl_create_id fmt page e s = (None, s')" for s e s'
  proof -
    from that(3) have "HlCreateTab fmt page (fst e) (snd e) s = (None, s')"
      by (auto simp: hl_create_id_def prod_eq_iff)
    from hl_create [OF that(1,2) this] have "s' = s" by simp
    with that(1) show ?thesis by blast
  qed
qed (rule hl_close_known hl_close_unknown hl_close_active; assumption)+

section \<open>Properties\<close>

definition demo_fmt :: "nat \<Rightarrow> string" where
  "demo_fmt n = replicate n (CHR ''x'')"

definition demo_headless :: headless_runtime where
  "demo_headless =
     snd (HlCreateTab demo_fmt (\<lambda>wc. ([], [])) (Some \<lparr>ht_address = 2, ht_web_contents = Some 20\<rparr>) ''http://b/''
       (snd (HlCreateTab demo_fmt (\<lambda>wc. ([], [])) (Some \<lparr>ht_address = 1, ht_web_contents = Some 10\<rparr>) ''http://a/''
         (new_headless_runtime\<lparr>hl_context := Some []\<rparr>))))"

lemma demo_headless_all:
  "hl_all demo_headless = [\<lparr>ht_address = 1, ht_web_contents = Some 10\<rparr>, \<lparr>ht_address = 2, ht_web_contents = Some 20\<rparr>]"
  "hl_active demo_headless = Some 20"
  by code_simp+

lemma demo_headless_ok: "headless_ok demo_fmt demo_headless"
proof -
  have "inj demo_fmt" by (intro injI) (metis demo_fmt_def length_replicate)
  moreover have "hl_context demo_headless \<noteq> None" by code_simp
  ultimately show ?thesis by (simp add: headless_ok_def demo_headless_all)
qed

text \<open>
  C35: closing a tab of the headless runtime closes exactly that tab, keeps the invariant, and
  makes the first tab left the active one, even when the closed tab was not active; the browser, when
  there is one, is shut down once when no tab is left, and is not shut down otherwise.
\<close>

theorem headless_close_tab:
  assumes "headless_ok fmt s" and "HlFindByTargetId fmt t s = Some c"
  shows "\<exists>s'. HlCloseTab fmt (Some t) s = (True, s') \<and> headless_ok fmt s' \<and>
    hl_ids fmt s' = filter (\<lambda>u. u \<noteq> t) (hl_ids fmt s) \<and>
    hl_active s' = (case hl_all s' of [] \<Rightarrow> None | u # us \<Rightarrow> ht_web_contents u) \<and>
    hl_shutdowns s' = (if hl_all s' = [] \<and> hl_browser s then Suc (hl_shutdowns s) else hl_shutdowns s)"
proof -
  have mem: "t \<in> set (hl_ids fmt s)" using assms(2) HlFind_None [of fmt t s] by simp
  obtain s' where "HlCloseTab fmt (Some t) s = (True, s')"
    "hl_active s' = (case hl_all s' of [] \<Rightarrow> None | u # us \<Rightarrow> ht_web_contents u)"
    "hl_shutdowns s' = (if hl_all s' = [] \<and> hl_browser s then Suc (hl_shutdowns s) else hl_shutdowns s)"
    using hl_close_found [OF assms] by blast
  with hl_close_known [OF assms(1) mem] show ?thesis by blast
qed

theorem headless_close_tab_witness:
  "\<exists>s'. HlCloseTab demo_fmt (Some ''x'') demo_headless = (True, s') \<and> headless_ok demo_fmt s' \<and>
     hl_ids demo_fmt s' = [''xx''] \<and> hl_shutdowns s' = 0"
proof -
  have f: "HlFindByTargetId demo_fmt ''x'' demo_headless = Some \<lparr>ht_address = 1, ht_web_contents = Some 10\<rparr>"
    by code_simp
  from headless_close_tab [OF demo_headless_ok f] obtain s' where s':
    "HlCloseTab demo_fmt (Some ''x'') demo_headless = (True, s')" "headless_ok demo_fmt s'"
    "hl_ids demo_fmt s' = filter (\<lambda>u. u \<noteq> ''x'') (hl_ids demo_fmt demo_headless)"
    "hl_shutdowns s' = (if hl_all s' = [] \<and> hl_browser demo_headless then Suc (hl_shutdowns demo_headless)
       else hl_shutdowns demo_headless)" by blast
  moreover have "hl_ids demo_fmt demo_headless = [''x'', ''xx'']" "hl_shutdowns demo_headless = 0" by code_simp+
  ultimately have "hl_ids demo_fmt s' = [''xx'']" by simp
  then have "hl_all s' \<noteq> []" by (auto simp: hl_ids_def)
  with s' \<open>hl_ids demo_fmt s' = [''xx'']\<close> \<open>hl_shutdowns demo_headless = 0\<close> show ?thesis by auto
qed

end
