(* ===== verification/Chrome_Runtime.thy ===== *)
theory Chrome_Runtime
  imports Runtime
begin

section \<open>The native Chrome runtime (\<open>chrome/native_chrome_runtime.cc\<close>)\<close>

text \<open>
  The tabs live in the tab strips of Chrome's windows, which are not the runtime's own; the
  runtime names a tab by its session id and finds it again by walking the windows. The state is
  the windows, in the order of their activation, and the two keep-alives the runtime holds. What
  Chrome's own functions do is a parameter of the operation that calls them: \<open>valid\<close> is
  \<open>SessionID::is_valid\<close>, and the others stand beside their operation.
\<close>

record chrome_window =
  cw_tabs :: "(web_contents \<times> c_int) list"   \<comment> \<open>the tab strip, with the session ids\<close>
  cw_active_index :: int
  cw_profile :: nat
  cw_bounds :: "((int \<times> int) \<times> (int \<times> int)) option"   \<comment> \<open>\<open>GetWindow()\<close>: origin and size\<close>

record chrome_runtime =
  cr_windows :: "chrome_window list"
  cr_last_active :: "nat option"   \<comment> \<open>\<open>GetLastActiveBrowserWindowInterfaceWithAnyProfile\<close>\<close>
  cr_shutting_down :: bool
  cr_keep_alive :: bool
  cr_profile_keep_alive :: bool
  cr_activated :: "nat list"       \<comment> \<open>the windows shown and activated\<close>
  cr_quits :: nat

definition kTargetPrefix :: string where
  "kTargetPrefix = ''chrome-''"

definition CrMakeTargetId :: "(c_int \<Rightarrow> bool) \<Rightarrow> base_lib \<Rightarrow> c_int \<Rightarrow> string" where
  "CrMakeTargetId valid L i =
     (if \<not> valid i then [] else kTargetPrefix @ lib_number_to_string L (sint i))"

definition CrParseTargetId :: "(c_int \<Rightarrow> bool) \<Rightarrow> base_lib \<Rightarrow> string \<Rightarrow> c_int option" where
  "CrParseTargetId valid L target_id =
     (if \<not> std_prefix kTargetPrefix target_id then None
      else
        case lib_string_to_int L (drop (length kTargetPrefix) target_id) of
          None \<Rightarrow> None
        | Some value \<Rightarrow> if \<not> valid value then None else Some value)"

definition CrMakeTabInfo :: "(c_int \<Rightarrow> bool) \<Rightarrow> base_lib \<Rightarrow> page_info \<Rightarrow> web_contents \<times> c_int \<Rightarrow> BrowserTabInfo" where
  "CrMakeTabInfo valid L page t =
     \<lparr>tab_target_id = CrMakeTargetId valid L (snd t), tab_title = fst (page (fst t)),
      tab_url = snd (page (fst t))\<rparr>"

text \<open>The first tab with the session id: its window, its page and its index.\<close>

fun find_index :: "('a \<Rightarrow> bool) \<Rightarrow> nat \<Rightarrow> 'a list \<Rightarrow> (nat \<times> 'a) option" where
  "find_index P n [] = None"
| "find_index P n (x # xs) = (if P x then Some (n, x) else find_index P (Suc n) xs)"

fun locate :: "c_int \<Rightarrow> nat \<Rightarrow> chrome_window list \<Rightarrow> (nat \<times> web_contents \<times> nat) option" where
  "locate target w [] = None"
| "locate target w (b # bs) =
     (case find_index (\<lambda>t. snd t = target) 0 (cw_tabs b) of
        Some (index, t) \<Rightarrow> Some (w, fst t, index)
      | None \<Rightarrow> locate target (Suc w) bs)"

definition CrFindTabByTargetId ::
  "(c_int \<Rightarrow> bool) \<Rightarrow> base_lib \<Rightarrow> string \<Rightarrow> chrome_runtime \<Rightarrow> (nat \<times> web_contents \<times> nat) option" where
  "CrFindTabByTargetId valid L target_id s =
     (case CrParseTargetId valid L target_id of
        None \<Rightarrow> None
      | Some target \<Rightarrow> locate target 0 (cr_windows s))"

definition FirstBrowserWindow :: "chrome_runtime \<Rightarrow> nat option" where
  "FirstBrowserWindow s = (if cr_windows s = [] then None else Some 0)"

definition ActiveBrowserWindow :: "chrome_runtime \<Rightarrow> nat option" where
  "ActiveBrowserWindow s = (case cr_last_active s of Some w \<Rightarrow> Some w | None \<Rightarrow> FirstBrowserWindow s)"

text \<open>\<open>profile_allowed\<close> is whether there is a last used profile that the policy allows.\<close>

definition EnsureKeepAlive :: "bool \<Rightarrow> chrome_runtime \<Rightarrow> chrome_runtime" where
  "EnsureKeepAlive profile_allowed s =
     (if cr_shutting_down s then s
      else
        let s1 = s\<lparr>cr_keep_alive := True\<rparr>
        in if cr_profile_keep_alive s1 then s1
           else if \<not> profile_allowed then s1
           else s1\<lparr>cr_profile_keep_alive := True\<rparr>)"

definition window_at :: "nat \<Rightarrow> chrome_runtime \<Rightarrow> chrome_window option" where
  "window_at w s = (if w < length (cr_windows s) then Some (cr_windows s ! w) else None)"

definition cr_browser_context :: "nat option \<Rightarrow> chrome_runtime \<Rightarrow> nat option" where
  "cr_browser_context last_used_profile s =
     (case Option.bind (ActiveBrowserWindow s) (\<lambda>w. window_at w s) of
        Some b \<Rightarrow> Some (cw_profile b)
      | None \<Rightarrow> last_used_profile)"

definition tab_at :: "int \<Rightarrow> chrome_window \<Rightarrow> (web_contents \<times> c_int) option" where
  "tab_at index b =
     (if 0 \<le> index \<and> nat index < length (cw_tabs b) then Some (cw_tabs b ! nat index) else None)"

definition cr_active_web_contents :: "chrome_runtime \<Rightarrow> web_contents option" where
  "cr_active_web_contents s =
     (case Option.bind (ActiveBrowserWindow s) (\<lambda>w. window_at w s) of
        Some b \<Rightarrow> map_option fst (tab_at (cw_active_index b) b)
      | None \<Rightarrow> None)"

definition CrGetWebContentsByTargetId ::
  "(c_int \<Rightarrow> bool) \<Rightarrow> base_lib \<Rightarrow> string \<Rightarrow> chrome_runtime \<Rightarrow> web_contents option" where
  "CrGetWebContentsByTargetId valid L target_id s =
     map_option (\<lambda>(w, wc, i). wc) (CrFindTabByTargetId valid L target_id s)"

definition CrAllWebContents :: "chrome_runtime \<Rightarrow> web_contents list" where
  "CrAllWebContents s = concat (map (\<lambda>b. map fst (cw_tabs b)) (cr_windows s))"

definition CrListTabs :: "(c_int \<Rightarrow> bool) \<Rightarrow> base_lib \<Rightarrow> page_info \<Rightarrow> chrome_runtime \<Rightarrow> BrowserTabInfo list" where
  "CrListTabs valid L page s =
     concat (map (\<lambda>b. map (CrMakeTabInfo valid L page) (cw_tabs b)) (cr_windows s))"

text \<open>\<open>ActivateChromeApplication\<close> does nothing outside macOS.\<close>

definition ShowAndActivate :: "nat \<Rightarrow> chrome_runtime \<Rightarrow> chrome_runtime" where
  "ShowAndActivate w s =
     (case window_at w s of
        None \<Rightarrow> s
      | Some b \<Rightarrow> if cw_bounds b = None then s else s\<lparr>cr_activated := cr_activated s @ [w]\<rparr>)"

text \<open>
  \<open>open_window\<close> is \<open>OpenEmptyWindow\<close> for an allowed profile (its index and the windows then),
  \<open>add_tab\<close> is \<open>AddAndReturnTabAt\<close>, with the tab it added.
\<close>

definition CrCreateTab ::
  "(c_int \<Rightarrow> bool) \<Rightarrow> base_lib \<Rightarrow> page_info \<Rightarrow>
     (chrome_runtime \<Rightarrow> (nat \<times> chrome_runtime) option) \<Rightarrow>
     (nat \<Rightarrow> string \<Rightarrow> chrome_runtime \<Rightarrow> ((web_contents \<times> c_int) \<times> chrome_runtime) option) \<Rightarrow>
     bool \<Rightarrow> string \<Rightarrow> chrome_runtime \<Rightarrow> BrowserTabInfo option \<times> chrome_runtime" where
  "CrCreateTab valid L page open_window add_tab profile_allowed url s0 =
     (let s = EnsureKeepAlive profile_allowed s0
      in case (case ActiveBrowserWindow s of
                 Some w \<Rightarrow> Some (w, s)
               | None \<Rightarrow> if \<not> profile_allowed then None else open_window s) of
           None \<Rightarrow> (None, s)
         | Some (w, s1) \<Rightarrow>
             (case add_tab w url s1 of
                None \<Rightarrow> (None, s1)
              | Some (t, s2) \<Rightarrow> (Some (CrMakeTabInfo valid L page t), ShowAndActivate w s2)))"

text \<open>\<open>close_at\<close> is \<open>CloseWebContentsAt\<close> of the tab strip of a window.\<close>

definition CrCloseTab ::
  "(c_int \<Rightarrow> bool) \<Rightarrow> base_lib \<Rightarrow> (nat \<Rightarrow> int \<Rightarrow> chrome_runtime \<Rightarrow> chrome_runtime) \<Rightarrow> bool \<Rightarrow>
     string option \<Rightarrow> chrome_runtime \<Rightarrow> bool \<times> chrome_runtime" where
  "CrCloseTab valid L close_at profile_allowed target_id s0 =
     (let s = EnsureKeepAlive profile_allowed s0;
          place =
            (case target_id of
               Some t \<Rightarrow> map_option (\<lambda>(w, wc, i). (w, int i)) (CrFindTabByTargetId valid L t s)
             | None \<Rightarrow>
                 Option.bind (ActiveBrowserWindow s)
                   (\<lambda>w. map_option (\<lambda>b. (w, cw_active_index b)) (window_at w s)))
      in case place of
           None \<Rightarrow> (False, s)
         | Some (w, index) \<Rightarrow>
             (case window_at w s of
                None \<Rightarrow> (False, s)
              | Some b \<Rightarrow>
                  if tab_at index b = None then (False, s) else (True, close_at w index s)))"

definition CrResizeActive :: "bool \<Rightarrow> int \<times> int \<Rightarrow> chrome_runtime \<Rightarrow> chrome_runtime" where
  "CrResizeActive profile_allowed extent s0 =
     (let s = EnsureKeepAlive profile_allowed s0
      in case ActiveBrowserWindow s of
           None \<Rightarrow> s
         | Some w \<Rightarrow>
             (case window_at w s of
                None \<Rightarrow> s
              | Some b \<Rightarrow>
                  (case cw_bounds b of
                     None \<Rightarrow> s
                   | Some (origin, old_extent) \<Rightarrow>
                       s\<lparr>cr_windows := (cr_windows s)[w := b\<lparr>cw_bounds := Some (origin, extent)\<rparr>]\<rparr>)))"

definition CrShutdown :: "chrome_runtime \<Rightarrow> chrome_runtime" where
  "CrShutdown s =
     s\<lparr>cr_profile_keep_alive := False, cr_keep_alive := False, cr_quits := Suc (cr_quits s)\<rparr>"

section \<open>Properties\<close>

lemma CrParse_Make:
  assumes "int_law L" "valid i" shows "CrParseTargetId valid L (CrMakeTargetId valid L i) = Some i"
  using assms by (simp add: CrParseTargetId_def CrMakeTargetId_def int_law_def)

lemma find_index_Some:
  "find_index P n xs = Some (i, x) \<Longrightarrow> \<exists>j. i = n + j \<and> j < length xs \<and> xs ! j = x \<and> P x"
proof (induction P n xs rule: find_index.induct)
  case (2 P n y ys)
  show ?case
  proof (cases "P y")
    case True
    with 2(2) show ?thesis by (intro exI [of _ 0]) simp
  next
    case False
    with 2 obtain j where "i = Suc n + j" "j < length ys" "ys ! j = x" "P x" by auto
    then show ?thesis by (intro exI [of _ "Suc j"]) simp
  qed
qed simp

lemma find_index_None: "find_index P n xs = None \<longleftrightarrow> (\<forall>x \<in> set xs. \<not> P x)"
  by (induction P n xs rule: find_index.induct) auto

lemma locate_Some:
  "locate target n bs = Some (w, wc, i) \<Longrightarrow>
     \<exists>j. w = n + j \<and> j < length bs \<and> i < length (cw_tabs (bs ! j)) \<and> cw_tabs (bs ! j) ! i = (wc, target)"
proof (induction target n bs rule: locate.induct)
  case (2 target n b bs)
  show ?case
  proof (cases "find_index (\<lambda>t. snd t = target) 0 (cw_tabs b)")
    case None
    with 2 obtain j where "w = Suc n + j" "j < length bs" "i < length (cw_tabs (bs ! j))"
      "cw_tabs (bs ! j) ! i = (wc, target)" by auto
    then show ?thesis by (intro exI [of _ "Suc j"]) simp
  next
    case (Some r)
    obtain k t where r: "r = (k, t)" by (cases r)
    from find_index_Some [OF Some [unfolded r]] 2(2) Some r show ?thesis
      by (intro exI [of _ 0]) auto
  qed
qed simp

lemma locate_None:
  "locate target n bs = None \<longleftrightarrow> (\<forall>b \<in> set bs. \<forall>t \<in> set (cw_tabs b). snd t \<noteq> target)"
proof (induction target n bs rule: locate.induct)
  case (2 target n b bs)
  then show ?case
    using find_index_None [of "\<lambda>t. snd t = target" 0 "cw_tabs b"]
    by (cases "find_index (\<lambda>t. snd t = target) 0 (cw_tabs b)") auto
qed simp

text \<open>
  C36: the target ids that Chrome's tabs are listed with can be used: the id of every listed tab
  that has a valid session id is found again, and the tab found is a tab of that session id, so
  the very tab when session ids are not shared.
\<close>

theorem chrome_target_ids_resolve:
  assumes "int_law L" and "i \<in> set (CrListTabs valid L page s)" and "tab_target_id i \<noteq> []"
  shows "\<exists>w wc k n. CrFindTabByTargetId valid L (tab_target_id i) s = Some (w, wc, k) \<and>
    w < length (cr_windows s) \<and> k < length (cw_tabs (cr_windows s ! w)) \<and>
    cw_tabs (cr_windows s ! w) ! k = (wc, n) \<and> CrMakeTargetId valid L n = tab_target_id i"
proof -
  from assms(2) obtain b t where bt: "b \<in> set (cr_windows s)" "t \<in> set (cw_tabs b)"
    "tab_target_id i = CrMakeTargetId valid L (snd t)"
    by (auto simp: CrListTabs_def CrMakeTabInfo_def)
  with assms(3) have "valid (snd t)" by (auto simp: CrMakeTargetId_def split: if_splits)
  then have find: "CrFindTabByTargetId valid L (tab_target_id i) s = locate (snd t) 0 (cr_windows s)"
    using bt(3) CrParse_Make [OF assms(1)] by (simp add: CrFindTabByTargetId_def)
  have "locate (snd t) 0 (cr_windows s) \<noteq> None" using bt by (auto simp: locate_None)
  then obtain w wc k where l: "locate (snd t) 0 (cr_windows s) = Some (w, wc, k)" by auto
  from locate_Some [OF this] find l bt(3) show ?thesis by auto
qed

definition demo_chrome :: chrome_runtime where
  "demo_chrome =
     \<lparr>cr_windows = [\<lparr>cw_tabs = [(1, 41)], cw_active_index = 0, cw_profile = 0, cw_bounds = Some ((0, 0), (800, 600))\<rparr>,
                    \<lparr>cw_tabs = [(2, 42), (3, 43)], cw_active_index = 1, cw_profile = 0, cw_bounds = None\<rparr>],
      cr_last_active = None, cr_shutting_down = False, cr_keep_alive = False,
      cr_profile_keep_alive = False, cr_activated = [], cr_quits = 0\<rparr>"

theorem chrome_target_ids_resolve_witness:
  "\<exists>w wc k. CrFindTabByTargetId (\<lambda>i. 0 < sint i) ref_lib ''chrome-43'' demo_chrome = Some (w, wc, k)"
proof -
  let ?i = "CrMakeTabInfo (\<lambda>i. 0 < sint i) ref_lib (\<lambda>wc. ([], [])) (3, 43)"
  have "?i \<in> set (CrListTabs (\<lambda>i. 0 < sint i) ref_lib (\<lambda>wc. ([], [])) demo_chrome)"
    by (simp add: CrListTabs_def demo_chrome_def)
  moreover have t: "tab_target_id ?i = ''chrome-43''" by code_simp
  ultimately show ?thesis
    using chrome_target_ids_resolve [OF int_law_ref_lib, of ?i "\<lambda>i. 0 < sint i" "\<lambda>wc. ([], [])" demo_chrome]
    by auto
qed

text \<open>
  \<open>CloseTab\<close> of the Chrome runtime closes something only when it answers yes, and then it asks
  Chrome to close an existing tab, the one of the given target id; otherwise the windows are left
  alone.
\<close>

lemma chrome_close_tab:
  assumes "CrCloseTab valid L close_at p (Some t) s = (b, s')"
  shows "if b then \<exists>w wc k n. CrParseTargetId valid L t = Some n \<and> window_at w s \<noteq> None \<and>
        k < length (cw_tabs (cr_windows s ! w)) \<and> cw_tabs (cr_windows s ! w) ! k = (wc, n) \<and>
        s' = close_at w (int k) (EnsureKeepAlive p s)
    else cr_windows s' = cr_windows s \<and> CrFindTabByTargetId valid L t s = None"
proof -
  have win: "cr_windows (EnsureKeepAlive p s) = cr_windows s"
    by (simp add: EnsureKeepAlive_def Let_def)
  then have find: "CrFindTabByTargetId valid L t (EnsureKeepAlive p s) = CrFindTabByTargetId valid L t s"
    "window_at w (EnsureKeepAlive p s) = window_at w s" for w
    by (simp_all add: CrFindTabByTargetId_def window_at_def split: option.split)
  show ?thesis
  proof (cases "CrFindTabByTargetId valid L t s")
    case None
    with assms find win show ?thesis by (simp add: CrCloseTab_def Let_def)
  next
    case (Some r)
    obtain w wc k where r: "r = (w, wc, k)" by (metis prod_cases3)
    from Some r obtain n where n: "CrParseTargetId valid L t = Some n" "locate n 0 (cr_windows s) = Some (w, wc, k)"
      by (auto simp: CrFindTabByTargetId_def split: option.splits)
    from locate_Some [OF n(2)] have loc: "w < length (cr_windows s)"
      "k < length (cw_tabs (cr_windows s ! w))" "cw_tabs (cr_windows s ! w) ! k = (wc, n)" by auto
    then have "b" "s' = close_at w (int k) (EnsureKeepAlive p s)"
      using assms find win Some r
      by (simp_all add: CrCloseTab_def Let_def window_at_def tab_at_def split: if_splits)
    with n(1) loc show ?thesis by (auto simp: window_at_def)
  qed
qed

lemma chrome_close_tab_witness:
  "fst (CrCloseTab (\<lambda>i. 0 < sint i) ref_lib (\<lambda>w k s. s) True (Some ''chrome-9'') demo_chrome) = False \<and>
   CrFindTabByTargetId (\<lambda>i. 0 < sint i) ref_lib ''chrome-9'' demo_chrome = None"
proof -
  let ?c = "CrCloseTab (\<lambda>i. 0 < sint i) ref_lib (\<lambda>w k s. s) True (Some ''chrome-9'') demo_chrome"
  have f: "fst ?c = False" by code_simp
  obtain b s' where c: "?c = (b, s')" by (cases ?c)
  with f have "\<not> b" by simp
  with chrome_close_tab [OF c] f show ?thesis by simp
qed

text \<open>
  \<open>ResizeActive\<close> gives the window in use its new size where it stands, and leaves every tab, every
  other window and the order of the windows as they were.
\<close>

lemma chrome_resize_moves_nothing:
  "map (\<lambda>b. (cw_tabs b, cw_active_index b, cw_profile b, map_option fst (cw_bounds b)))
       (cr_windows (CrResizeActive p extent s)) =
     map (\<lambda>b. (cw_tabs b, cw_active_index b, cw_profile b, map_option fst (cw_bounds b))) (cr_windows s) \<and>
   (\<forall>w. Some w \<noteq> ActiveBrowserWindow s \<longrightarrow> window_at w (CrResizeActive p extent s) = window_at w s)"
proof -
  have win: "cr_windows (EnsureKeepAlive p s) = cr_windows s" "cr_last_active (EnsureKeepAlive p s) = cr_last_active s"
    by (simp_all add: EnsureKeepAlive_def Let_def)
  then have "ActiveBrowserWindow (EnsureKeepAlive p s) = ActiveBrowserWindow s"
    by (simp add: ActiveBrowserWindow_def FirstBrowserWindow_def split: option.split)
  with win show ?thesis
    by (auto simp: CrResizeActive_def Let_def window_at_def nth_list_update list_eq_iff_nth_eq
        split: option.splits if_splits)
qed

end
