(* ===== verification/One_Shot.thy ===== *)
theory One_Shot
  imports Prelude
begin

section \<open>Requests that answer once\<close>

text \<open>
  Every asynchronous request of the core (an evaluation, a screenshot, a navigation) holds a
  callback that it runs at most once: \<open>Complete\<close> returns at once when \<open>callback_\<close> is empty and
  moves it out before it runs it. The locale \<open>one_shot\<close> is this discipline as an interface: a
  state with its pending callback and the answers given, the events that reach the request, the
  answers that are allowed, and the events that always end it.
\<close>

locale one_shot =
  fixes pending :: "'s \<Rightarrow> bool"
    and answers :: "'s \<Rightarrow> 'r list"
    and step :: "'e \<Rightarrow> 's \<Rightarrow> 's"
    and good :: "'r \<Rightarrow> bool"
    and ev_ok :: "'e \<Rightarrow> bool"
    and final :: "'e \<Rightarrow> 's \<Rightarrow> bool"
  assumes step_once: "ev_ok e \<Longrightarrow>
      (answers (step e s) = answers s \<and> (pending (step e s) \<longleftrightarrow> pending s)) \<or>
      (pending s \<and> \<not> pending (step e s) \<and> (\<exists>r. good r \<and> answers (step e s) = answers s @ [r]))"
    and final_ends: "final e s \<Longrightarrow> \<not> pending (step e s)"
begin

lemma stays_ended:
  "\<forall>e \<in> set es. ev_ok e \<Longrightarrow> \<not> pending s \<Longrightarrow>
     \<not> pending (fold step es s) \<and> answers (fold step es s) = answers s"
proof (induction es arbitrary: s)
  case (Cons e es)
  with step_once [of e s] show ?case by auto
qed simp

lemma run_once:
  "\<forall>e \<in> set es. ev_ok e \<Longrightarrow> pending s \<Longrightarrow> answers s = [] \<Longrightarrow>
     (if pending (fold step es s) then answers (fold step es s) = []
      else \<exists>r. good r \<and> answers (fold step es s) = [r])"
proof (induction es arbitrary: s)
  case (Cons e es)
  show ?case
  proof (cases "pending (step e s)")
    case True
    with step_once [of e s] Cons.prems have "answers (step e s) = []" by auto
    with True Cons show ?thesis by simp
  next
    case False
    with step_once [of e s] Cons.prems obtain r where "good r" "answers (step e s) = [r]" by auto
    with False stays_ended [of es "step e s"] Cons.prems show ?thesis by auto
  qed
qed simp

lemma ends_once:
  assumes "\<forall>e \<in> set (a @ e # b). ev_ok e" "pending s" "answers s = []" "final e (fold step a s)"
  shows "\<exists>r. good r \<and> answers (fold step (a @ e # b) s) = [r]"
proof -
  have "\<not> pending (fold step (a @ e # b) s)"
    using assms(1) stays_ended [of b "step e (fold step a s)"] final_ends [OF assms(4)] by simp
  with run_once [OF assms(1-3)] show ?thesis by simp
qed

end

end
