(* ===== verification/Evaluation.thy ===== *)
theory Evaluation
  imports Base_Lib Browser_Result One_Shot Runtime
begin

section \<open>Evaluation requests (\<open>core/browser_controller.cc\<close>, \<open>core/devtools_evaluator.h\<close>)\<close>

text \<open>
  The objects that run a script in a page, each with the events that reach it: the direct
  evaluation (\<open>JavaScriptEvaluationRequest\<close>, which \<open>EvaluateWithDevTools\<close> makes), the DevTools
  client and the screenshot. A request keeps \<open>callback_\<close> as a flag, the answers its callback was
  run with, and what it asked of the content layer. Times are in milliseconds.
\<close>

record DevToolsEvaluationResult =
  de_is_undefined :: bool
  de_value :: json

type_synonym evaluation = "DevToolsEvaluationResult BrowserResult"

text \<open>\<open>JSONWriter::Write(value, &s)\<close> leaves an empty string when it fails.\<close>

definition json_or_empty :: "base_lib \<Rightarrow> json \<Rightarrow> string" where
  "json_or_empty L v = (case lib_json_write L v of Some s \<Rightarrow> s | None \<Rightarrow> [])"

definition ToEvaluateResult :: "base_lib \<Rightarrow> DevToolsEvaluationResult \<Rightarrow> EvaluateResult" where
  "ToEvaluateResult L result =
     (if de_is_undefined result \<or> de_value result = JNone
      then \<lparr>ev_kind = EvalUndefined, ev_json = []\<rparr>
      else \<lparr>ev_kind = EvalJson, ev_json = json_or_empty L (de_value result)\<rparr>)"

subsection \<open>Direct evaluation\<close>

record js_request =
  js_web_contents :: "web_contents option"
  js_expression :: string
  js_await_promise :: bool
  js_timeout :: int
  js_callback :: bool
  js_timer :: bool
  js_executed :: "(string \<times> bool) list"
  js_answers :: "evaluation list"
  js_deletes :: nat

definition new_js_request :: "web_contents option \<Rightarrow> string \<Rightarrow> bool \<Rightarrow> int \<Rightarrow> js_request" where
  "new_js_request wc expression await timeout =
     \<lparr>js_web_contents = wc, js_expression = expression, js_await_promise = await,
      js_timeout = timeout, js_callback = True, js_timer = False, js_executed = [], js_answers = [],
      js_deletes = 0\<rparr>"

definition JsComplete :: "evaluation \<Rightarrow> js_request \<Rightarrow> js_request" where
  "JsComplete result s =
     (if \<not> js_callback s then s
      else s\<lparr>js_timer := False, js_callback := False, js_answers := js_answers s @ [result],
             js_deletes := Suc (js_deletes s)\<rparr>)"

text \<open>\<open>frame_live\<close>: there is a primary main frame and it is live.\<close>

definition JsStart :: "bool \<Rightarrow> js_request \<Rightarrow> js_request" where
  "JsStart frame_live s =
     (if js_web_contents s = None then JsComplete (ResultError kTabNotFound ''Tab not found'') s
      else if \<not> frame_live then JsComplete (ResultError kNoActiveFrame ''No active frame'') s
      else s\<lparr>js_timer := js_timeout s > 0,
             js_executed := js_executed s @ [(js_expression s, js_await_promise s)]\<rparr>)"

definition JsOnResult :: "base_lib \<Rightarrow> bool \<Rightarrow> json \<Rightarrow> js_request \<Rightarrow> js_request" where
  "JsOnResult L success value s =
     (if \<not> success then
        let message = (case value of JString m \<Rightarrow> m | _ \<Rightarrow> json_or_empty L value)
        in JsComplete (ResultError kInternalError message) s
      else
        let evaluation =
              (if value = JNone then \<lparr>de_is_undefined = True, de_value = JNone\<rparr>
               else \<lparr>de_is_undefined = False, de_value = value\<rparr>)
        in JsComplete (ResultOk evaluation) s)"

definition JsOnTimeout :: "js_request \<Rightarrow> js_request" where
  "JsOnTimeout s = JsComplete (ResultError kTimeout ''JavaScript evaluation timeout'') s"

text \<open>\<open>EvaluateWithDevTools\<close> makes the request and starts it.\<close>

definition EvaluateWithDevTools ::
  "web_contents option \<Rightarrow> string \<Rightarrow> bool \<Rightarrow> int \<Rightarrow> bool \<Rightarrow> js_request" where
  "EvaluateWithDevTools wc expression await timeout frame_live =
     JsStart frame_live (new_js_request wc expression await timeout)"

datatype js_event = JsResultEvent bool json | JsTimeoutEvent

fun js_step :: "base_lib \<Rightarrow> js_event \<Rightarrow> js_request \<Rightarrow> js_request" where
  "js_step L (JsResultEvent success value) s = JsOnResult L success value s"
| "js_step L JsTimeoutEvent s = (if js_timer s then JsOnTimeout s else s)"

definition js_once :: "js_request \<Rightarrow> js_request \<Rightarrow> bool" where
  "js_once s s' \<longleftrightarrow>
     (js_answers s' = js_answers s \<and> (js_callback s' \<longleftrightarrow> js_callback s)) \<or>
     (js_callback s \<and> \<not> js_callback s' \<and> (\<exists>r. result_wf r \<and> js_answers s' = js_answers s @ [r]))"

lemma JsComplete_once [simp]: "result_wf r \<Longrightarrow> js_once s (JsComplete r s)"
  by (auto simp: JsComplete_def js_once_def)

lemma JsComplete_done [simp]: "\<not> js_callback (JsComplete r s)"
  by (simp add: JsComplete_def)

lemma js_step_once: "js_once s (js_step L e s)"
proof (cases e)
  case JsTimeoutEvent
  then show ?thesis by (cases "js_timer s") (simp_all add: JsOnTimeout_def, simp add: js_once_def)
qed (simp add: JsOnResult_def Let_def)

interpretation js: one_shot js_callback js_answers "js_step L" result_wf "\<lambda>e. True"
  "\<lambda>e s. case e of JsResultEvent b v \<Rightarrow> True | JsTimeoutEvent \<Rightarrow> js_timer s" for L
proof unfold_locales
  show "(js_answers (js_step L e s) = js_answers s \<and> js_callback (js_step L e s) = js_callback s) \<or>
      (js_callback s \<and> \<not> js_callback (js_step L e s) \<and>
       (\<exists>r. result_wf r \<and> js_answers (js_step L e s) = js_answers s @ [r]))" for e s
    using js_step_once [of s L e] by (simp add: js_once_def)
  show "\<not> js_callback (js_step L e s)"
    if "case e of JsResultEvent b v \<Rightarrow> True | JsTimeoutEvent \<Rightarrow> js_timer s" for e s
    using that by (cases e) (simp_all add: JsOnResult_def JsOnTimeout_def Let_def)
qed

subsection \<open>The screenshot\<close>

text \<open>What \<open>GetSnapshotFromBrowser\<close> gives: an image, whether it draws, and its PNG if it encodes.\<close>

record snapshot_image =
  img_empty :: bool
  img_draws_nothing :: bool
  img_png :: "8 word list option"

type_synonym screenshot = "8 word list BrowserResult"

record shot_request =
  sh_web_contents :: "web_contents option"
  sh_view :: bool
  sh_callback :: bool
  sh_timer :: bool
  sh_snapshots :: nat
  sh_fallbacks :: nat
  sh_answers :: "screenshot list"
  sh_deletes :: nat

definition new_shot_request :: "web_contents option \<Rightarrow> bool \<Rightarrow> shot_request" where
  "new_shot_request wc view =
     \<lparr>sh_web_contents = wc, sh_view = view, sh_callback = True, sh_timer = False, sh_snapshots = 0,
      sh_fallbacks = 0, sh_answers = [], sh_deletes = 0\<rparr>"

definition ShotComplete :: "screenshot \<Rightarrow> shot_request \<Rightarrow> shot_request" where
  "ShotComplete result s =
     (if \<not> sh_callback s then s
      else s\<lparr>sh_timer := False, sh_callback := False, sh_answers := sh_answers s @ [result],
             sh_deletes := Suc (sh_deletes s)\<rparr>)"

definition ShotStart :: "bool \<Rightarrow> shot_request \<Rightarrow> shot_request" where
  "ShotStart widget s =
     (if \<not> sh_view s then ShotComplete (ResultError kScreenshotFailed ''No render view available'') s
      else if \<not> widget then ShotComplete (ResultError kScreenshotFailed ''No render widget available'') s
      else s\<lparr>sh_timer := True, sh_snapshots := Suc (sh_snapshots s)\<rparr>)"

definition ShotOnSnapshotFromBrowser :: "snapshot_image \<Rightarrow> shot_request \<Rightarrow> shot_request" where
  "ShotOnSnapshotFromBrowser img s =
     (if img_empty img then ShotComplete (ResultError kScreenshotFailed ''Screenshot failed'') s
      else if img_draws_nothing img then
        ShotComplete (ResultError kScreenshotFailed ''Screenshot is empty'') s
      else
        case img_png img of
          None \<Rightarrow> ShotComplete (ResultError kScreenshotFailed ''PNG encoding failed'') s
        | Some png \<Rightarrow> ShotComplete (ResultOk png) s)"

definition ShotOnCopyFromSurfaceResult :: "snapshot_image option \<Rightarrow> shot_request \<Rightarrow> shot_request" where
  "ShotOnCopyFromSurfaceResult result s =
     (case result of
        None \<Rightarrow> ShotComplete (ResultError kScreenshotFailed ''Screenshot failed'') s
      | Some img \<Rightarrow>
          if img_draws_nothing img then
            ShotComplete (ResultError kScreenshotFailed ''Screenshot is empty'') s
          else
            case img_png img of
              None \<Rightarrow> ShotComplete (ResultError kScreenshotFailed ''PNG encoding failed'') s
            | Some png \<Rightarrow> ShotComplete (ResultOk png) s)"

definition ShotStartDomFallback :: "shot_request \<Rightarrow> shot_request" where
  "ShotStartDomFallback s =
     (if sh_web_contents s = None then
        ShotComplete (ResultError kTimeout ''Screenshot timed out'') s
      else s\<lparr>sh_fallbacks := Suc (sh_fallbacks s)\<rparr>)"

text \<open>The one-shot timer has run out: it is no longer running.\<close>

definition ShotOnTimeout :: "shot_request \<Rightarrow> shot_request" where
  "ShotOnTimeout s = ShotStartDomFallback (s\<lparr>sh_timer := False\<rparr>)"

definition kPngDataUrlPrefix :: string where
  "kPngDataUrlPrefix = ''data:image/png;base64,''"

definition ShotOnDomFallback :: "base_lib \<Rightarrow> evaluation \<Rightarrow> shot_request \<Rightarrow> shot_request" where
  "ShotOnDomFallback L result s =
     (if \<not> result_ok result then
        ShotComplete (ResultError (st_code (res_status result)) (st_message (res_status result))) s
      else
        case map_option de_value (res_value result) of
          Some (JString data_url) \<Rightarrow>
            if \<not> std_prefix kPngDataUrlPrefix data_url then
              ShotComplete (ResultError kScreenshotFailed ''Screenshot fallback returned invalid data'') s
            else
              (case lib_base64_decode L (drop (length kPngDataUrlPrefix) data_url) of
                 None \<Rightarrow> ShotComplete (ResultError kScreenshotFailed ''Screenshot fallback PNG decode failed'') s
               | Some bytes \<Rightarrow>
                   if bytes = [] then
                     ShotComplete (ResultError kScreenshotFailed ''Screenshot fallback PNG decode failed'') s
                   else ShotComplete (ResultOk bytes) s)
        | _ \<Rightarrow> ShotComplete (ResultError kScreenshotFailed ''Screenshot fallback returned no data'') s)"

datatype shot_event =
    ShotSnapshotEvent snapshot_image
  | ShotCopyEvent "snapshot_image option"
  | ShotTimeoutEvent
  | ShotDomEvent evaluation

fun shot_step :: "base_lib \<Rightarrow> shot_event \<Rightarrow> shot_request \<Rightarrow> shot_request" where
  "shot_step L (ShotSnapshotEvent img) s = ShotOnSnapshotFromBrowser img s"
| "shot_step L (ShotCopyEvent result) s = ShotOnCopyFromSurfaceResult result s"
| "shot_step L ShotTimeoutEvent s = (if sh_timer s then ShotOnTimeout s else s)"
| "shot_step L (ShotDomEvent result) s = ShotOnDomFallback L result s"

definition shot_once :: "shot_request \<Rightarrow> shot_request \<Rightarrow> bool" where
  "shot_once s s' \<longleftrightarrow>
     (sh_answers s' = sh_answers s \<and> (sh_callback s' \<longleftrightarrow> sh_callback s)) \<or>
     (sh_callback s \<and> \<not> sh_callback s' \<and> (\<exists>r. result_wf r \<and> sh_answers s' = sh_answers s @ [r]))"

lemma ShotComplete_once [simp]: "result_wf r \<Longrightarrow> shot_once s (ShotComplete r s)"
  by (auto simp: ShotComplete_def shot_once_def)

lemma ShotComplete_done [simp]: "\<not> sh_callback (ShotComplete r s)"
  by (simp add: ShotComplete_def)

lemma ShotOnTimeout_once: "shot_once s (ShotOnTimeout s)"
  by (auto simp: ShotOnTimeout_def ShotStartDomFallback_def ShotComplete_def shot_once_def)

lemma ShotOnDomFallback_once: "shot_once s (ShotOnDomFallback L r s)"
  by (auto simp: ShotOnDomFallback_def result_ok_def status_ok_def split: option.split json.split)

lemma ShotOnDomFallback_done: "\<not> sh_callback (ShotOnDomFallback L r s)"
  by (simp add: ShotOnDomFallback_def split: option.split json.split)

lemma shot_step_once: "shot_once s (shot_step L e s)"
proof (cases e)
  case (ShotTimeoutEvent)
  then show ?thesis using ShotOnTimeout_once by (simp add: shot_once_def)
qed (auto simp: ShotOnSnapshotFromBrowser_def ShotOnCopyFromSurfaceResult_def ShotOnDomFallback_once split: option.split)

interpretation shot: one_shot sh_callback sh_answers "shot_step L" result_wf "\<lambda>e. True"
  "\<lambda>e s. case e of ShotTimeoutEvent \<Rightarrow> False | _ \<Rightarrow> True" for L
proof unfold_locales
  show "(sh_answers (shot_step L e s) = sh_answers s \<and> sh_callback (shot_step L e s) = sh_callback s) \<or>
      (sh_callback s \<and> \<not> sh_callback (shot_step L e s) \<and>
       (\<exists>r. result_wf r \<and> sh_answers (shot_step L e s) = sh_answers s @ [r]))" for e s
    using shot_step_once [of s L e] by (simp add: shot_once_def)
  show "\<not> sh_callback (shot_step L e s)" if "case e of ShotTimeoutEvent \<Rightarrow> False | _ \<Rightarrow> True" for e s
    using that
    by (cases e) (auto simp: ShotOnSnapshotFromBrowser_def ShotOnCopyFromSurfaceResult_def
        ShotOnDomFallback_done split: option.split)
qed

subsection \<open>The DevTools client\<close>

text \<open>
  \<open>DevToolsEvaluationClient\<close> attaches to the tab's agent host, attaches to the frame's target,
  evaluates in that session and reads the reply. The sources define it and do not use it. A
  message is the dictionary it parses to, if it does; the commands sent are dictionaries.
\<close>

definition kDevToolsAttachCommandId :: c_int where
  "kDevToolsAttachCommandId = 1"

definition kDevToolsEvaluateCommandId :: c_int where
  "kDevToolsEvaluateCommandId = 2"

record devtools_client =
  dt_web_contents :: "web_contents option"
  dt_agent_host :: bool
  dt_frame_target_id :: string
  dt_session_id :: string
  dt_expression :: string
  dt_await_promise :: bool
  dt_timeout :: int
  dt_callback :: bool
  dt_timer :: bool
  dt_sent :: "dict list"
  dt_answers :: "evaluation list"

definition new_devtools_client :: "web_contents option \<Rightarrow> string \<Rightarrow> bool \<Rightarrow> int \<Rightarrow> devtools_client" where
  "new_devtools_client wc expression await timeout =
     \<lparr>dt_web_contents = wc, dt_agent_host = False, dt_frame_target_id = [], dt_session_id = [],
      dt_expression = expression, dt_await_promise = await, dt_timeout = timeout,
      dt_callback = True, dt_timer = False, dt_sent = [], dt_answers = []\<rparr>"

definition DtComplete :: "evaluation \<Rightarrow> devtools_client \<Rightarrow> devtools_client" where
  "DtComplete result s =
     (if \<not> dt_callback s then s
      else s\<lparr>dt_callback := False, dt_agent_host := False, dt_answers := dt_answers s @ [result]\<rparr>)"

definition DtSendAttachToFrameTarget :: "devtools_client \<Rightarrow> devtools_client" where
  "DtSendAttachToFrameTarget s =
     (let params = Set ''flatten'' (JBool True) (Set ''targetId'' (JString (dt_frame_target_id s)) []);
          command = Set ''params'' (JDict params)
            (Set ''method'' (JString ''Target.attachToTarget'')
              (Set ''id'' (JInt kDevToolsAttachCommandId) []))
      in s\<lparr>dt_sent := dt_sent s @ [command]\<rparr>)"

definition DtSendEvaluate :: "devtools_client \<Rightarrow> devtools_client" where
  "DtSendEvaluate s =
     (let params = Set ''userGesture'' (JBool True) (Set ''returnByValue'' (JBool True)
            (Set ''awaitPromise'' (JBool (dt_await_promise s))
              (Set ''expression'' (JString (dt_expression s)) [])));
          command = Set ''params'' (JDict params)
            (Set ''method'' (JString ''Runtime.evaluate'')
              (Set ''sessionId'' (JString (dt_session_id s))
                (Set ''id'' (JInt kDevToolsEvaluateCommandId) [])))
      in s\<lparr>dt_sent := dt_sent s @ [command], dt_expression := []\<rparr>)"

text \<open>The frame's host with its id, the tab's host, and whether it takes the client.\<close>

definition DtStart :: "string option \<Rightarrow> bool \<Rightarrow> bool \<Rightarrow> devtools_client \<Rightarrow> devtools_client" where
  "DtStart frame_host tab_host attached s =
     (if dt_web_contents s = None then DtComplete (ResultError kTabNotFound ''Tab not found'') s
      else
        case frame_host of
          None \<Rightarrow> DtComplete (ResultError kInternalError ''Failed to create DevTools frame target'') s
        | Some frame_id \<Rightarrow>
            let s1 = s\<lparr>dt_frame_target_id := frame_id\<rparr>
            in if \<not> tab_host then
                 DtComplete (ResultError kInternalError ''Failed to create DevTools agent host'') s1
               else if \<not> attached then
                 DtComplete (ResultError kInternalError ''Failed to attach DevTools client'')
                   (s1\<lparr>dt_agent_host := False\<rparr>)
               else
                 DtSendAttachToFrameTarget (s1\<lparr>dt_agent_host := True, dt_timer := dt_timeout s > 0\<rparr>))"

definition DtCompleteProtocolError :: "dict \<Rightarrow> string \<Rightarrow> devtools_client \<Rightarrow> devtools_client" where
  "DtCompleteProtocolError error fallback_message s =
     DtComplete (ResultError kInternalError
       (case FindString error ''message'' of Some m \<Rightarrow> m | None \<Rightarrow> fallback_message)) s"

definition exception_message :: "dict \<Rightarrow> string" where
  "exception_message exception =
     (case FindDict exception ''exception'' of
        Some details \<Rightarrow>
          (case FindString details ''description'' of
             Some d \<Rightarrow> d
           | None \<Rightarrow>
               (case FindString details ''value'' of
                  Some v \<Rightarrow> v
                | None \<Rightarrow> ''DevTools evaluation exception''))
      | None \<Rightarrow>
          (case FindString exception ''text'' of
             Some t \<Rightarrow> t
           | None \<Rightarrow> ''DevTools evaluation exception''))"

definition remote_object_value :: "dict \<Rightarrow> DevToolsEvaluationResult" where
  "remote_object_value remote_object =
     (if FindString remote_object ''type'' = Some ''undefined'' then
        \<lparr>de_is_undefined = True, de_value = JNone\<rparr>
      else
        case Find remote_object ''value'' of
          Some v \<Rightarrow> \<lparr>de_is_undefined = False, de_value = v\<rparr>
        | None \<Rightarrow>
            (case FindString remote_object ''unserializableValue'' of
               Some u \<Rightarrow> \<lparr>de_is_undefined = False, de_value = JString u\<rparr>
             | None \<Rightarrow>
                 (case FindString remote_object ''description'' of
                    Some d \<Rightarrow> \<lparr>de_is_undefined = False, de_value = JString d\<rparr>
                  | None \<Rightarrow> \<lparr>de_is_undefined = True, de_value = JNone\<rparr>)))"

definition DtDispatchProtocolMessage :: "dict option \<Rightarrow> devtools_client \<Rightarrow> devtools_client" where
  "DtDispatchProtocolMessage parsed s =
     (case parsed of
        None \<Rightarrow> s
      | Some d \<Rightarrow>
          (case FindInt d ''id'' of
             None \<Rightarrow> s
           | Some i \<Rightarrow>
               if i = kDevToolsAttachCommandId then
                 (case FindDict d ''error'' of
                    Some error \<Rightarrow> DtCompleteProtocolError error ''DevTools attach failed'' s
                  | None \<Rightarrow>
                      (case Option.bind (FindDict d ''result'') (\<lambda>r. FindString r ''sessionId'') of
                         Some session \<Rightarrow>
                           if session = [] then
                             DtComplete (ResultError kInternalError ''DevTools attach returned no session id'') s
                           else DtSendEvaluate (s\<lparr>dt_session_id := session\<rparr>)
                       | None \<Rightarrow>
                           DtComplete (ResultError kInternalError ''DevTools attach returned no session id'') s))
               else if i \<noteq> kDevToolsEvaluateCommandId then s
               else
                 (case FindDict d ''error'' of
                    Some error \<Rightarrow> DtCompleteProtocolError error ''DevTools evaluation failed'' s
                  | None \<Rightarrow>
                      (case FindDict d ''result'' of
                         None \<Rightarrow>
                           DtComplete (ResultError kInternalError ''DevTools evaluation returned no result'') s
                       | Some result \<Rightarrow>
                           (case FindDict result ''exceptionDetails'' of
                              Some exception \<Rightarrow>
                                DtComplete (ResultError kInternalError (exception_message exception)) s
                            | None \<Rightarrow>
                                (case FindDict result ''result'' of
                                   None \<Rightarrow>
                                     DtComplete (ResultError kInternalError
                                       ''DevTools evaluation returned no remote object'') s
                                 | Some remote_object \<Rightarrow>
                                     DtComplete (ResultOk (remote_object_value remote_object)) s))))))"

definition DtAgentHostClosed :: "devtools_client \<Rightarrow> devtools_client" where
  "DtAgentHostClosed s =
     DtComplete (ResultError kInternalError ''DevTools agent host closed'') (s\<lparr>dt_agent_host := False\<rparr>)"

definition DtOnTimeout :: "devtools_client \<Rightarrow> devtools_client" where
  "DtOnTimeout s = DtComplete (ResultError kTimeout ''DevTools evaluation timeout'') s"

datatype devtools_event = DtMessageEvent "dict option" | DtClosedEvent | DtTimeoutEvent

fun devtools_step :: "devtools_event \<Rightarrow> devtools_client \<Rightarrow> devtools_client" where
  "devtools_step (DtMessageEvent m) s = DtDispatchProtocolMessage m s"
| "devtools_step DtClosedEvent s = DtAgentHostClosed s"
| "devtools_step DtTimeoutEvent s = (if dt_timer s then DtOnTimeout s else s)"

definition devtools_once :: "devtools_client \<Rightarrow> devtools_client \<Rightarrow> bool" where
  "devtools_once s s' \<longleftrightarrow>
     (dt_answers s' = dt_answers s \<and> (dt_callback s' \<longleftrightarrow> dt_callback s)) \<or>
     (dt_callback s \<and> \<not> dt_callback s' \<and> (\<exists>r. result_wf r \<and> dt_answers s' = dt_answers s @ [r]))"

lemma DtComplete_once [simp]: "result_wf r \<Longrightarrow> devtools_once s (DtComplete r s)"
  by (auto simp: DtComplete_def devtools_once_def)

lemma DtComplete_done [simp]: "\<not> dt_callback (DtComplete r s)"
  by (simp add: DtComplete_def)

lemma devtools_once_silent [simp]: "devtools_once s s" "devtools_once s (DtSendEvaluate (s\<lparr>dt_session_id := i\<rparr>))"
  by (simp_all add: devtools_once_def DtSendEvaluate_def)

lemma DtDispatch_once: "devtools_once s (DtDispatchProtocolMessage m s)"
  by (simp add: DtDispatchProtocolMessage_def DtCompleteProtocolError_def split: option.split)

lemma DtClosed_once: "devtools_once s (DtAgentHostClosed s)"
  by (auto simp: DtAgentHostClosed_def DtComplete_def devtools_once_def)

lemma devtools_step_once: "devtools_once s (devtools_step e s)"
  by (cases e) (simp_all add: DtDispatch_once DtClosed_once DtOnTimeout_def)

interpretation devtools: one_shot dt_callback dt_answers devtools_step result_wf "\<lambda>e. True"
  "\<lambda>e s. case e of DtMessageEvent m \<Rightarrow> False | DtClosedEvent \<Rightarrow> True | DtTimeoutEvent \<Rightarrow> dt_timer s"
proof unfold_locales
  show "(dt_answers (devtools_step e s) = dt_answers s \<and> dt_callback (devtools_step e s) = dt_callback s) \<or>
      (dt_callback s \<and> \<not> dt_callback (devtools_step e s) \<and>
       (\<exists>r. result_wf r \<and> dt_answers (devtools_step e s) = dt_answers s @ [r]))" for e s
    using devtools_step_once [of s e] by (simp add: devtools_once_def)
  show "\<not> dt_callback (devtools_step e s)"
    if "case e of DtMessageEvent m \<Rightarrow> False | DtClosedEvent \<Rightarrow> True | DtTimeoutEvent \<Rightarrow> dt_timer s" for e s
    using that by (cases e) (simp_all add: DtAgentHostClosed_def DtOnTimeout_def)
qed

section \<open>Properties\<close>

text \<open>
  C22: an evaluation answers exactly once, with a well-formed result (a value exactly when it is
  ok): at once when there is no page or no live frame, and otherwise as soon as the script's result
  comes in or the running timer fires, whatever happens before and after.
\<close>

theorem evaluation_answers_once:
  assumes "frame_live = False \<or> wc = None \<or>
      (\<exists>a e b. es = a @ e # b \<and> (e = JsTimeoutEvent \<longrightarrow> timeout > 0))"
  shows "\<exists>r. result_wf r \<and> js_answers (fold (js_step L) es (EvaluateWithDevTools wc x await timeout frame_live)) = [r]"
proof -
  let ?s = "EvaluateWithDevTools wc x await timeout frame_live"
  show ?thesis
  proof (cases "frame_live \<and> wc \<noteq> None")
    case False
    then have "\<not> js_callback ?s" "\<exists>r. result_wf r \<and> js_answers ?s = [r]"
      by (auto simp: EvaluateWithDevTools_def JsStart_def JsComplete_def new_js_request_def)
    with js.stays_ended [of es ?s L] show ?thesis by auto
  next
    case True
    with assms obtain a e b where es: "es = a @ e # b" and e: "e = JsTimeoutEvent \<longrightarrow> timeout > 0" by auto
    have start: "js_callback ?s" "js_answers ?s = []" "js_timer ?s \<longleftrightarrow> timeout > 0"
      using True by (auto simp: EvaluateWithDevTools_def JsStart_def new_js_request_def)
    show ?thesis
    proof (cases "js_callback (fold (js_step L) a ?s)")
      case True
      have timer: "js_callback (fold (js_step L) a t) \<Longrightarrow> js_timer (fold (js_step L) a t) = js_timer t" for t
      proof (induction a arbitrary: t)
        case (Cons ev evs)
        have "js_callback (js_step L ev t)"
          using Cons.prems js.stays_ended [of evs "js_step L ev t" L] by auto
        then have "js_timer (js_step L ev t) = js_timer t"
          by (cases ev) (auto simp: JsOnResult_def JsOnTimeout_def Let_def split: if_splits)
        with Cons show ?case by simp
      qed simp
      have "js_timer (fold (js_step L) a ?s) \<longleftrightarrow> timeout > 0" using timer [OF True] start(3) by simp
      then have "case e of JsResultEvent b v \<Rightarrow> True | JsTimeoutEvent \<Rightarrow> js_timer (fold (js_step L) a ?s)"
        using e by (cases e) simp_all
      from js.ends_once [OF _ start(1,2) this, of b] show ?thesis by (simp add: es)
    next
      case False
      then have "\<not> js_callback (fold (js_step L) es ?s)"
        using js.stays_ended [of "e # b" "fold (js_step L) a ?s" L] by (simp add: es)
      with js.run_once [of es ?s L] start show ?thesis by simp
    qed
  qed
qed

theorem evaluation_answers_once_witness:
  "\<exists>r. result_wf r \<and> js_answers (fold (js_step ref_lib) [JsTimeoutEvent, JsResultEvent True (JInt 3)]
     (EvaluateWithDevTools (Some 1) ''1+2'' True 10000 True)) = [r]"
proof (rule evaluation_answers_once)
  have "[JsTimeoutEvent, JsResultEvent True (JInt 3)] = [] @ JsTimeoutEvent # [JsResultEvent True (JInt 3)] \<and>
    (JsTimeoutEvent = JsTimeoutEvent \<longrightarrow> (10000 :: int) > 0)" by simp
  then show "True = False \<or> Some 1 = None \<or> (\<exists>a e b. [JsTimeoutEvent, JsResultEvent True (JInt 3)] = a @ e # b \<and>
      (e = JsTimeoutEvent \<longrightarrow> (10000 :: int) > 0))" by blast
qed

text \<open>
  A screenshot answers at most once, with a well-formed result, whichever of the browser's
  snapshot, the timer and the DOM fallback come first and however late the others come; and once
  the snapshot or the DOM fallback has come back it has answered, so a timeout never leaves it open
  when its page is gone or the fallback script ends.
\<close>

lemma screenshot_answers_once:
  assumes "es = a @ e # b" and "e = ShotTimeoutEvent \<Longrightarrow> wc = None \<and> a = []"
  shows "\<exists>r. result_wf r \<and> sh_answers (fold (shot_step L) es (ShotStart widget (new_shot_request wc view))) = [r]"
proof -
  let ?s = "ShotStart widget (new_shot_request wc view)"
  show ?thesis
  proof (cases "view \<and> widget")
    case False
    then have "\<not> sh_callback ?s" "\<exists>r. result_wf r \<and> sh_answers ?s = [r]"
      by (auto simp: ShotStart_def ShotComplete_def new_shot_request_def)
    with shot.stays_ended [of es ?s L] show ?thesis by auto
  next
    case True
    then have start: "sh_callback ?s" "sh_answers ?s = []" "sh_timer ?s" "sh_web_contents ?s = wc"
      by (simp_all add: ShotStart_def new_shot_request_def)
    show ?thesis
    proof (cases "e = ShotTimeoutEvent")
      case False
      then have "case e of ShotTimeoutEvent \<Rightarrow> False | _ \<Rightarrow> True" by (cases e) simp_all
      with start shot.ends_once [of a e b ?s L] show ?thesis by (simp add: assms(1))
    next
      case True
      with assms(2) have e: "es = ShotTimeoutEvent # b" "wc = None" by (simp_all add: assms(1) True)
      have "\<not> sh_callback (shot_step L ShotTimeoutEvent ?s)"
        using start e(2) by (simp add: ShotOnTimeout_def ShotStartDomFallback_def)
      then have "\<not> sh_callback (fold (shot_step L) es ?s)"
        using shot.stays_ended [of b] e(1) by simp
      with start shot.run_once [of es ?s L] show ?thesis by simp
    qed
  qed
qed

lemma screenshot_answers_once_witness:
  "\<exists>r. result_wf r \<and> sh_answers (fold (shot_step ref_lib)
     [ShotTimeoutEvent, ShotDomEvent (ResultOk \<lparr>de_is_undefined = False, de_value = JString ''data:image/png;base64,AA''\<rparr>),
      ShotSnapshotEvent \<lparr>img_empty = True, img_draws_nothing = True, img_png = None\<rparr>]
     (ShotStart True (new_shot_request (Some 1) True))) = [r]"
  by (rule screenshot_answers_once [where a = "[ShotTimeoutEvent]"
        and e = "ShotDomEvent (ResultOk \<lparr>de_is_undefined = False, de_value = JString ''data:image/png;base64,AA''\<rparr>)"]) simp_all

text \<open>
  The DOM fallback of a pending screenshot answers ok exactly when the page's script returned a
  string that is a PNG data URL whose base64 text decodes to at least one byte, and then with those
  bytes; every other reply is an error and the bytes are never invented.
\<close>

lemma screenshot_fallback_bytes:
  assumes "sh_callback s" "result_wf r"
  shows "sh_answers (ShotOnDomFallback L r s) = sh_answers s @ [ResultOk png] \<longleftrightarrow>
     (\<exists>v d. res_value r = Some v \<and> de_value v = JString (kPngDataUrlPrefix @ d) \<and>
        lib_base64_decode L d = Some png \<and> png \<noteq> [])"
proof (cases "res_value r")
  case None
  with assms show ?thesis by (simp add: ShotOnDomFallback_def ShotComplete_def result_wf_def)
next
  case (Some v)
  with assms have ok: "result_ok r" by (simp add: result_wf_def)
  show ?thesis
  proof (cases "de_value v")
    case (JString u)
    show ?thesis
    proof (cases "std_prefix kPngDataUrlPrefix u")
      case True
      then obtain d where "u = kPngDataUrlPrefix @ d" by (auto simp: std_prefix_iff)
      with Some ok JString assms(1) show ?thesis
        by (auto simp: ShotOnDomFallback_def ShotComplete_def split: option.split)
    next
      case False
      then have "u \<noteq> kPngDataUrlPrefix @ d" for d by auto
      with Some ok JString assms(1) False show ?thesis
        by (simp add: ShotOnDomFallback_def ShotComplete_def)
    qed
  qed (use Some ok assms(1) in \<open>simp_all add: ShotOnDomFallback_def ShotComplete_def\<close>)
qed

lemma screenshot_fallback_bytes_witness:
  "sh_answers (ShotOnDomFallback ref_lib (ResultOk \<lparr>de_is_undefined = False, de_value = JString ''data:image/png;base64,AA''\<rparr>)
     (ShotStart True (new_shot_request (Some 1) True))) = [ResultOk [65, 65]]"
proof -
  let ?s = "ShotStart True (new_shot_request (Some 1) True)"
  let ?r = "ResultOk \<lparr>de_is_undefined = False, de_value = JString ''data:image/png;base64,AA''\<rparr>"
  have s: "sh_callback ?s" "sh_answers ?s = []" by code_simp+
  have d: "lib_base64_decode ref_lib ''AA'' = Some [65, 65]" by code_simp
  have "\<exists>v d. res_value ?r = Some v \<and> de_value v = JString (kPngDataUrlPrefix @ d) \<and>
      lib_base64_decode ref_lib d = Some [65, 65] \<and> [65, 65 :: 8 word] \<noteq> []"
    by (rule exI [where x = "\<lparr>de_is_undefined = False, de_value = JString ''data:image/png;base64,AA''\<rparr>"],
        rule exI [where x = "''AA''"]) (simp add: d kPngDataUrlPrefix_def)
  then show ?thesis
    using screenshot_fallback_bytes [of ?s ?r ref_lib "[65, 65]"] s by simp
qed

end
