(* ===== verification/Navigation.thy ===== *)
theory Navigation
  imports Evaluation
begin

section \<open>Waiting for a navigation (\<open>core/browser_controller.cc\<close>)\<close>

text \<open>
  \<open>NavigationWaiter\<close> observes a page until the requested navigation has loaded, failed, timed out
  or lost its page; \<open>ReloadWaiter\<close> observes it until it stops loading. Both are observers: an
  event of the page reaches them only while they observe it. What an event handler reads from the
  page (its last committed URL, whether it is loading) comes with the event.
\<close>

record page_state =
  pg_last_committed_url :: gurl
  pg_is_loading :: bool

record navigation_handle =
  nh_is_in_primary_main_frame :: bool
  nh_has_committed :: bool
  nh_url :: gurl
  nh_is_error_page :: bool
  nh_net_error_code :: int

record navigation_waiter =
  nw_observing :: bool          \<comment> \<open>\<open>web_contents() != nullptr\<close>\<close>
  nw_target_url :: gurl
  nw_callback :: bool
  nw_timer :: "int option"      \<comment> \<open>the running timer's delay in ms\<close>
  nw_seen_requested_navigation :: bool
  nw_answers :: "BrowserStatus list"
  nw_deletes :: nat

text \<open>The constructor starts the timer; \<open>CheckCurrentState\<close> is posted, an event below.\<close>

definition new_navigation_waiter :: "gurl \<Rightarrow> navigation_waiter" where
  "new_navigation_waiter target_url =
     \<lparr>nw_observing = True, nw_target_url = target_url, nw_callback = True, nw_timer = Some 15000,
      nw_seen_requested_navigation = False, nw_answers = [], nw_deletes = 0\<rparr>"

definition gurl_eq :: "gurl \<Rightarrow> gurl \<Rightarrow> bool" where
  "gurl_eq a b \<longleftrightarrow> gurl_is_valid a = gurl_is_valid b \<and> gurl_spec a = gurl_spec b"

definition IsRequestedNavigation :: "gurl \<Rightarrow> gurl \<Rightarrow> bool" where
  "IsRequestedNavigation target url =
     (if \<not> gurl_is_valid url \<or> gurl_spec url = ''about:blank'' then False
      else if gurl_eq url target then True
      else if gurl_is_http_or_https target \<and> gurl_is_http_or_https url \<and> gurl_host url = gurl_host target
        then True
      else False)"

definition NavComplete :: "BrowserStatus \<Rightarrow> navigation_waiter \<Rightarrow> navigation_waiter" where
  "NavComplete status s =
     (if \<not> nw_callback s then s
      else s\<lparr>nw_timer := None, nw_observing := False, nw_callback := False,
             nw_answers := nw_answers s @ [status], nw_deletes := Suc (nw_deletes s)\<rparr>)"

definition navigation_failed :: "base_lib \<Rightarrow> int \<Rightarrow> BrowserStatus" where
  "navigation_failed L code = StatusError kNavigationFailed (''Navigation failed: '' @ lib_net_error L code)"

definition NavDidFinishNavigation ::
  "base_lib \<Rightarrow> navigation_handle \<Rightarrow> page_state \<Rightarrow> navigation_waiter \<Rightarrow> navigation_waiter" where
  "NavDidFinishNavigation L h page s =
     (if \<not> nh_is_in_primary_main_frame h \<or> \<not> nh_has_committed h then s
      else if \<not> IsRequestedNavigation (nw_target_url s) (nh_url h) then s
      else
        let s1 = s\<lparr>nw_seen_requested_navigation := True\<rparr>
        in if nh_is_error_page h then NavComplete (navigation_failed L (nh_net_error_code h)) s1
           else if \<not> nw_observing s1 \<or> \<not> pg_is_loading page then NavComplete StatusOk s1
           else s1)"

definition NavDidStopLoading :: "page_state \<Rightarrow> navigation_waiter \<Rightarrow> navigation_waiter" where
  "NavDidStopLoading page s =
     (if \<not> nw_seen_requested_navigation s then
        (if \<not> nw_observing s \<or> \<not> IsRequestedNavigation (nw_target_url s) (pg_last_committed_url page) then s
         else NavComplete StatusOk (s\<lparr>nw_seen_requested_navigation := True\<rparr>))
      else NavComplete StatusOk s)"

definition NavDidFailLoad :: "base_lib \<Rightarrow> bool \<Rightarrow> gurl \<Rightarrow> int \<Rightarrow> navigation_waiter \<Rightarrow> navigation_waiter" where
  "NavDidFailLoad L primary url code s =
     (if nw_observing s \<and> \<not> primary then s
      else if \<not> IsRequestedNavigation (nw_target_url s) url then s
      else NavComplete (navigation_failed L code) s)"

definition NavWebContentsDestroyed :: "navigation_waiter \<Rightarrow> navigation_waiter" where
  "NavWebContentsDestroyed s = NavComplete (StatusError kTabNotFound ''Tab closed during navigation'') s"

definition NavCheckCurrentState :: "page_state \<Rightarrow> navigation_waiter \<Rightarrow> navigation_waiter" where
  "NavCheckCurrentState page s =
     (if \<not> nw_observing s \<or> \<not> IsRequestedNavigation (nw_target_url s) (pg_last_committed_url page) then s
      else
        let s1 = s\<lparr>nw_seen_requested_navigation := True\<rparr>
        in if \<not> pg_is_loading page then NavComplete StatusOk s1 else s1)"

definition NavOnTimeout :: "navigation_waiter \<Rightarrow> navigation_waiter" where
  "NavOnTimeout s = NavComplete (StatusError kTimeout ''Navigation timed out'') s"

datatype nav_event =
    NavFinish navigation_handle page_state
  | NavStopLoading page_state
  | NavFailLoad bool gurl int
  | NavDestroyed
  | NavCheck page_state
  | NavTimeout

fun nav_step :: "base_lib \<Rightarrow> nav_event \<Rightarrow> navigation_waiter \<Rightarrow> navigation_waiter" where
  "nav_step L (NavFinish h page) s = (if nw_observing s then NavDidFinishNavigation L h page s else s)"
| "nav_step L (NavStopLoading page) s = (if nw_observing s then NavDidStopLoading page s else s)"
| "nav_step L (NavFailLoad primary url code) s =
     (if nw_observing s then NavDidFailLoad L primary url code s else s)"
| "nav_step L NavDestroyed s = (if nw_observing s then NavWebContentsDestroyed s else s)"
| "nav_step L (NavCheck page) s = NavCheckCurrentState page s"
| "nav_step L NavTimeout s = (if nw_timer s \<noteq> None then NavOnTimeout s else s)"

definition nav_answer :: "base_lib \<Rightarrow> BrowserStatus \<Rightarrow> bool" where
  "nav_answer L status \<longleftrightarrow>
     status = StatusOk \<or> (\<exists>code. status = navigation_failed L code) \<or>
     status = StatusError kTabNotFound ''Tab closed during navigation'' \<or>
     status = StatusError kTimeout ''Navigation timed out''"

text \<open>A waiter that has not answered observes its page and its timer runs.\<close>

definition nav_waiting :: "navigation_waiter \<Rightarrow> bool" where
  "nav_waiting s \<longleftrightarrow> (nw_callback s \<longleftrightarrow> nw_observing s) \<and> (nw_callback s \<longleftrightarrow> nw_timer s \<noteq> None)"

definition nav_once :: "base_lib \<Rightarrow> navigation_waiter \<Rightarrow> navigation_waiter \<Rightarrow> bool" where
  "nav_once L s s' \<longleftrightarrow>
     (nw_answers s' = nw_answers s \<and> (nw_callback s' \<longleftrightarrow> nw_callback s)) \<or>
     (nw_callback s \<and> \<not> nw_callback s' \<and> (\<exists>r. nav_answer L r \<and> nw_answers s' = nw_answers s @ [r]))"

lemma nav_answers [simp]:
  "nav_answer L StatusOk" "nav_answer L (navigation_failed L code)"
  "nav_answer L (StatusError kTabNotFound ''Tab closed during navigation'')"
  "nav_answer L (StatusError kTimeout ''Navigation timed out'')"
  by (auto simp: nav_answer_def)

lemma NavComplete_once [simp]:
  "nav_answer L r \<Longrightarrow> nav_once L s (NavComplete r s)"
  "nav_answer L r \<Longrightarrow> nav_once L s (NavComplete r (s\<lparr>nw_seen_requested_navigation := b\<rparr>))"
  by (auto simp: NavComplete_def nav_once_def)

lemma nav_once_silent [simp]: "nav_once L s s" "nav_once L s (s\<lparr>nw_seen_requested_navigation := b\<rparr>)"
  by (simp_all add: nav_once_def)

lemma NavComplete_ended [simp]: "\<not> nw_callback (NavComplete r s)"
  by (simp add: NavComplete_def)

lemma NavComplete_waiting [simp]: "nav_waiting s \<Longrightarrow> nav_waiting (NavComplete r s)"
  by (auto simp: NavComplete_def nav_waiting_def)

lemma nav_waiting_seen [simp]: "nav_waiting (s\<lparr>nw_seen_requested_navigation := b\<rparr>) = nav_waiting s"
  by (simp add: nav_waiting_def)

lemmas nav_handlers = NavDidFinishNavigation_def NavDidStopLoading_def NavDidFailLoad_def
  NavWebContentsDestroyed_def NavCheckCurrentState_def NavOnTimeout_def

lemma nav_step_once: "nav_once L s (nav_step L e s)"
  by (cases e) (simp_all add: nav_handlers Let_def)

lemma nav_step_waiting: "nav_waiting s \<Longrightarrow> nav_waiting (nav_step L e s)"
  by (cases e) (simp_all add: nav_handlers Let_def)

lemma nav_run_waiting: "nav_waiting s \<Longrightarrow> nav_waiting (fold (nav_step L) es s)"
  by (induction es arbitrary: s) (simp_all add: nav_step_waiting)

interpretation nav: one_shot nw_callback nw_answers "nav_step L" "nav_answer L" "\<lambda>e. True"
  "\<lambda>e s. nav_waiting s \<and> e \<in> {NavDestroyed, NavTimeout}" for L
proof unfold_locales
  show "(nw_answers (nav_step L e s) = nw_answers s \<and> nw_callback (nav_step L e s) = nw_callback s) \<or>
      (nw_callback s \<and> \<not> nw_callback (nav_step L e s) \<and>
       (\<exists>r. nav_answer L r \<and> nw_answers (nav_step L e s) = nw_answers s @ [r]))" for e s
    using nav_step_once [of L s e] by (simp add: nav_once_def)
  show "\<not> nw_callback (nav_step L e s)" if "nav_waiting s \<and> e \<in> {NavDestroyed, NavTimeout}" for e s
    using that by (auto simp: nav_waiting_def NavWebContentsDestroyed_def NavOnTimeout_def)
qed

lemma nav_waiting_new [simp]: "nav_waiting (new_navigation_waiter url)"
  by (simp add: nav_waiting_def new_navigation_waiter_def)

lemma nav_new_pending [simp]:
  "nw_callback (new_navigation_waiter url)" "nw_answers (new_navigation_waiter url) = []"
  "nw_target_url (new_navigation_waiter url) = url" "\<not> nw_seen_requested_navigation (new_navigation_waiter url)"
  by (simp_all add: new_navigation_waiter_def)

text \<open>The events that show the waiter the page it waits for.\<close>

definition shows_requested :: "gurl \<Rightarrow> nav_event \<Rightarrow> bool" where
  "shows_requested target e =
     (case e of
        NavFinish h page \<Rightarrow> nh_is_in_primary_main_frame h \<and> nh_has_committed h \<and> IsRequestedNavigation target (nh_url h)
      | NavStopLoading page \<Rightarrow> IsRequestedNavigation target (pg_last_committed_url page)
      | NavCheck page \<Rightarrow> IsRequestedNavigation target (pg_last_committed_url page)
      | _ \<Rightarrow> False)"

definition nav_unseen :: "gurl \<Rightarrow> navigation_waiter \<Rightarrow> bool" where
  "nav_unseen target s \<longleftrightarrow>
     nw_target_url s = target \<and> \<not> nw_seen_requested_navigation s \<and> StatusOk \<notin> set (nw_answers s)"

lemma nav_unseen_complete [simp]: "nav_unseen t s \<Longrightarrow> r \<noteq> StatusOk \<Longrightarrow> nav_unseen t (NavComplete r s)"
  by (auto simp: nav_unseen_def NavComplete_def)

lemma error_not_ok [simp]:
  "c \<noteq> kOk \<Longrightarrow> StatusError c m \<noteq> StatusOk" "c \<noteq> kOk \<Longrightarrow> StatusOk \<noteq> StatusError c m" "navigation_failed L code \<noteq> StatusOk"
  by (simp_all add: StatusError_def StatusOk_def navigation_failed_def)

lemma nav_step_unseen: "\<not> shows_requested t e \<Longrightarrow> nav_unseen t s \<Longrightarrow> nav_unseen t (nav_step L e s)"
  by (cases e) (auto simp: nav_handlers shows_requested_def nav_unseen_def [of t s] Let_def)

lemma nav_run_unseen:
  "\<forall>e \<in> set es. \<not> shows_requested t e \<Longrightarrow> nav_unseen t s \<Longrightarrow> nav_unseen t (fold (nav_step L) es s)"
  by (induction es arbitrary: s) (simp_all add: nav_step_unseen)

subsection \<open>Waiting for a reload\<close>

record reload_waiter =
  rw_observing :: bool
  rw_callback :: bool
  rw_deleted :: bool
  rw_answers :: "BrowserStatus list"

definition new_reload_waiter :: reload_waiter where
  "new_reload_waiter = \<lparr>rw_observing = True, rw_callback = True, rw_deleted = False, rw_answers = []\<rparr>"

definition ReloadDidStopLoading :: "reload_waiter \<Rightarrow> reload_waiter" where
  "ReloadDidStopLoading s =
     (let s1 = (if rw_callback s then s\<lparr>rw_callback := False, rw_answers := rw_answers s @ [StatusOk]\<rparr> else s)
      in s1\<lparr>rw_deleted := True, rw_observing := False\<rparr>)"

text \<open>
  The waiter overrides only \<open>DidStopLoading\<close>: when the page is destroyed the base class drops the
  page and nothing else happens; it has no timer.
\<close>

datatype reload_event = ReloadStopLoading | ReloadDestroyed

fun reload_step :: "reload_event \<Rightarrow> reload_waiter \<Rightarrow> reload_waiter" where
  "reload_step ReloadStopLoading s = (if rw_observing s then ReloadDidStopLoading s else s)"
| "reload_step ReloadDestroyed s = s\<lparr>rw_observing := False\<rparr>"

interpretation reload: one_shot rw_callback rw_answers reload_step "\<lambda>r. r = StatusOk" "\<lambda>e. True"
  "\<lambda>e s. rw_observing s \<and> e = ReloadStopLoading"
proof unfold_locales
  show "(rw_answers (reload_step e s) = rw_answers s \<and> rw_callback (reload_step e s) = rw_callback s) \<or>
      (rw_callback s \<and> \<not> rw_callback (reload_step e s) \<and>
       (\<exists>r. r = StatusOk \<and> rw_answers (reload_step e s) = rw_answers s @ [r]))" for e s
    by (cases e) (auto simp: ReloadDidStopLoading_def Let_def)
  show "\<not> rw_callback (reload_step e s)" if "rw_observing s \<and> e = ReloadStopLoading" for e s
    using that by (simp add: ReloadDidStopLoading_def Let_def)
qed

lemma reload_run_blind:
  "\<not> rw_observing s \<Longrightarrow> rw_answers (fold reload_step es s) = rw_answers s"
proof (induction es arbitrary: s)
  case (Cons e es)
  then show ?case by (cases e) simp_all
qed simp

section \<open>Properties\<close>

text \<open>
  C20: a navigation always ends: whatever the page does, once its 15-second timer fires or its page
  is destroyed the request has answered, exactly once, with ok, a navigation failure, a closed tab
  or a timeout.
\<close>

theorem navigation_answers_once:
  assumes "NavTimeout \<in> set es \<or> NavDestroyed \<in> set es"
  shows "\<exists>status. nav_answer L status \<and> nw_answers (fold (nav_step L) es (new_navigation_waiter url)) = [status]"
proof -
  from assms obtain a e b where es: "es = a @ e # b" and e: "e \<in> {NavDestroyed, NavTimeout}"
    by (metis insertCI split_list)
  show ?thesis unfolding es
    by (rule nav.ends_once) (simp_all add: e [simplified] nav_run_waiting)
qed

theorem navigation_answers_once_witness:
  "nw_answers (fold (nav_step ref_lib) [NavCheck \<lparr>pg_last_committed_url = plain_gurl ''about:blank'', pg_is_loading = True\<rparr>,
     NavTimeout, NavDestroyed] (new_navigation_waiter (plain_gurl ''http://a/''))) =
   [StatusError kTimeout ''Navigation timed out'']"
proof -
  let ?es = "[NavCheck \<lparr>pg_last_committed_url = plain_gurl ''about:blank'', pg_is_loading = True\<rparr>, NavTimeout, NavDestroyed]"
  have "\<exists>status. nav_answer ref_lib status \<and>
      nw_answers (fold (nav_step ref_lib) ?es (new_navigation_waiter (plain_gurl ''http://a/''))) = [status]"
    by (rule navigation_answers_once) simp
  moreover have "hd (nw_answers (fold (nav_step ref_lib) ?es (new_navigation_waiter (plain_gurl ''http://a/'')))) =
      StatusError kTimeout ''Navigation timed out''" by code_simp
  ultimately show ?thesis by force
qed

text \<open>
  A navigation is answered ok only after the page has shown the requested URL, or another URL
  of the same host over http or https: a committed main-frame navigation to it, or the page at rest
  on it. A navigation to another site never counts.
\<close>

lemma navigation_ok_was_seen:
  assumes "StatusOk \<in> set (nw_answers (fold (nav_step L) es (new_navigation_waiter url)))"
  shows "\<exists>e \<in> set es. shows_requested url e"
proof (rule ccontr)
  assume "\<not> ?thesis"
  then have "nav_unseen url (fold (nav_step L) es (new_navigation_waiter url))"
    by (intro nav_run_unseen) (auto simp: nav_unseen_def)
  with assms show False by (simp add: nav_unseen_def)
qed

lemma navigation_ok_was_seen_witness:
  "\<exists>e \<in> set [NavStopLoading \<lparr>pg_last_committed_url = plain_gurl ''http://a/x'', pg_is_loading = False\<rparr>].
     shows_requested (plain_gurl ''http://a/'') e"
  by (rule navigation_ok_was_seen [of ref_lib]) code_simp

text \<open>
  A navigation to \<open>about:blank\<close> is never answered ok: \<open>IsRequestedNavigation\<close> rejects that URL
  before it compares it with the target, so no event of the page can complete the request and
  \<open>Navigate\<close> reports a failure for a page that loaded.
\<close>

lemma about_blank_navigation_never_ok:
  assumes "gurl_spec url = ''about:blank''" "\<not> gurl_is_http_or_https url"
  shows "StatusOk \<notin> set (nw_answers (fold (nav_step L) es (new_navigation_waiter url)))"
proof -
  have "\<not> IsRequestedNavigation url u" for u
    using assms by (auto simp: IsRequestedNavigation_def gurl_eq_def)
  then have "\<forall>e \<in> set es. \<not> shows_requested url e"
    by (simp add: shows_requested_def split: nav_event.split)
  from nav_run_unseen [OF this, of "new_navigation_waiter url"] show ?thesis
    by (simp add: nav_unseen_def)
qed

lemma about_blank_navigation_never_ok_witness:
  "StatusOk \<notin> set (nw_answers (fold (nav_step ref_lib)
     [NavFinish \<lparr>nh_is_in_primary_main_frame = True, nh_has_committed = True, nh_url = plain_gurl ''about:blank'',
        nh_is_error_page = False, nh_net_error_code = 0\<rparr> \<lparr>pg_last_committed_url = plain_gurl ''about:blank'', pg_is_loading = False\<rparr>,
      NavStopLoading \<lparr>pg_last_committed_url = plain_gurl ''about:blank'', pg_is_loading = False\<rparr>, NavTimeout]
     (new_navigation_waiter (plain_gurl ''about:blank''))))"
  by (rule about_blank_navigation_never_ok) (simp_all add: plain_gurl_def std_prefix_def)

text \<open>
  A reload is answered ok, once, exactly when the page stops loading before it is destroyed.
  When the page is destroyed first, or never stops loading, the request is never answered: the
  waiter has neither the timer nor the destroyed-page handler that the navigation waiter has.
\<close>

lemma reload_answers_iff_stops:
  "rw_answers (fold reload_step es new_reload_waiter) =
     (if ReloadStopLoading \<in> set (takeWhile (\<lambda>e. e \<noteq> ReloadDestroyed) es) then [StatusOk] else [])"
proof (cases es)
  case (Cons e rest)
  then show ?thesis
    by (cases e) (simp_all add: new_reload_waiter_def ReloadDidStopLoading_def reload_run_blind)
qed (simp add: new_reload_waiter_def)

end
