(* ===== verification/Task.thy ===== *)
theory Task
  imports Navigation
begin

section \<open>Asynchronous operations as task trees\<close>

text \<open>
  An operation of the controller is a chain of callbacks: it runs, asks the content layer for
  something, returns to the message loop, and goes on in the callback. A \<open>task\<close> is that chain: each
  node is what the code does next, and a node that asks has the rest of the code as a function of
  the answer. \<open>'s\<close> is the controller; \<open>Self\<close> reads the weak pointer to it, which is empty when the
  controller is gone. \<open>Undefined\<close> is undefined behaviour: a signed overflow or an empty optional
  that is read.
\<close>

type_synonym f64 = "64 word"   \<comment> \<open>the bits of a \<open>double\<close>\<close>

record point =
  pt_x :: f64
  pt_y :: f64

record canonical_cookie =
  cc_name :: string
  cc_value :: string
  cc_domain :: string
  cc_path :: string
  cc_secure :: bool
  cc_http_only :: bool
  cc_expiry :: "f64 option"   \<comment> \<open>\<open>None\<close>: the null time\<close>

text \<open>The arguments of \<open>CreateSanitizedCookie\<close> that are not constants.\<close>

record cookie_request =
  cr_source_url :: gurl
  cr_name :: string
  cr_value :: string
  cr_domain :: string
  cr_path :: string
  cr_secure :: bool
  cr_http_only :: bool

record cookie_filter =
  cf_name :: "string option"
  cf_url :: "gurl option"
  cf_host_name :: "string option"

record ax_node =
  ax_id :: c_int
  ax_x :: f64
  ax_y :: f64
  ax_width :: f64
  ax_height :: f64

datatype mouse_event_type = kMouseMove | kMouseDown | kMouseUp
datatype key_event_type = kRawKeyDown | kChar | kKeyUp
datatype ax_action = kScrollToMakeVisible | kFocus | kSetValue

text \<open>
  The key codes and keys of Chromium's \<open>ui/events/keycodes\<close> that the program names. \<open>VKEY_LETTER n\<close>
  is \<open>VKEY_A + n\<close>, \<open>VKEY_DIGIT n\<close> is \<open>VKEY_0 + n\<close>, and \<open>VKEY_CHAR c\<close> is the code of a character event.
\<close>

datatype windows_key_code =
    VKEY_ZERO | VKEY_CHAR char | VKEY_LETTER nat | VKEY_DIGIT nat | VKEY_SPACE | VKEY_RETURN | VKEY_TAB | VKEY_ESCAPE
  | VKEY_BACK | VKEY_DELETE | VKEY_UP | VKEY_DOWN | VKEY_LEFT | VKEY_RIGHT
  | VKEY_OEM_1 | VKEY_OEM_2 | VKEY_OEM_3 | VKEY_OEM_4 | VKEY_OEM_5 | VKEY_OEM_6 | VKEY_OEM_7
  | VKEY_OEM_MINUS | VKEY_OEM_PLUS | VKEY_OEM_COMMA | VKEY_OEM_PERIOD

datatype dom_key =
    DomKeyNone | DomKeyCharacter char | DomKeyEnter | DomKeyTab | DomKeyEscape | DomKeyBackspace | DomKeyDel
  | DomKeyArrowUp | DomKeyArrowDown | DomKeyArrowLeft | DomKeyArrowRight

datatype modifiers = kNoModifiers | kShiftKey

record key_event =
  ke_type :: key_event_type
  ke_modifiers :: modifiers
  ke_windows_key_code :: windows_key_code
  ke_dom_key :: dom_key
  ke_text :: "char option"

text \<open>What an operation does to a page.\<close>

datatype effect =
    MouseEvent web_contents mouse_event_type point
  | KeyEvent web_contents key_event
  | WheelEvent web_contents point int int
  | AxAction web_contents ax_action c_int
  | LoadUrl web_contents gurl
  | GoBack web_contents
  | GoForward web_contents
  | ReloadPage web_contents
  | RunScript web_contents string int

fun effect_page :: "effect \<Rightarrow> web_contents" where
  "effect_page (MouseEvent wc _ _) = wc"
| "effect_page (KeyEvent wc _) = wc"
| "effect_page (WheelEvent wc _ _ _) = wc"
| "effect_page (AxAction wc _ _) = wc"
| "effect_page (LoadUrl wc _) = wc"
| "effect_page (GoBack wc) = wc"
| "effect_page (GoForward wc) = wc"
| "effect_page (ReloadPage wc) = wc"
| "effect_page (RunScript wc _ _) = wc"

datatype page_query = HasView | HasFrame | CanGoBack | CanGoForward | HasBrowserContext

text \<open>What a status callback waits for.\<close>

datatype status_request = Navigated gurl | Reloaded

datatype ('s, 'r) task =
    Answer 'r
  | Undefined
  | Self "'s option \<Rightarrow> ('s, 'r) task"
  | Put 's "('s, 'r) task"
  | Later int "('s, 'r) task"
  | Effect effect "('s, 'r) task"
  | AskPage page_query web_contents "bool \<Rightarrow> ('s, 'r) task"
  | AskUrl web_contents "gurl \<Rightarrow> ('s, 'r) task"
  | AskRandom nat "nat \<Rightarrow> ('s, 'r) task"
  | AskDouble "f64 \<Rightarrow> ('s, 'r) task"
  | AskMouse "point \<Rightarrow> ('s, 'r) task"
  | SetMouse point "('s, 'r) task"
  | AskEval web_contents string bool int "evaluation \<Rightarrow> ('s, 'r) task"
  | AskStatus status_request web_contents "BrowserStatus \<Rightarrow> ('s, 'r) task"
  | AskShot web_contents "screenshot \<Rightarrow> ('s, 'r) task"
  | AskNodes web_contents "ax_node list \<Rightarrow> ('s, 'r) task"
  | AskCookies "gurl option" "canonical_cookie list \<Rightarrow> ('s, 'r) task"
  | AskSanitized cookie_request "canonical_cookie option \<Rightarrow> ('s, 'r) task"
  | AskStored canonical_cookie gurl "bool \<Rightarrow> ('s, 'r) task"
  | AskDeleted cookie_filter "32 word \<Rightarrow> ('s, 'r) task"

text \<open>The rest of an operation after one that answers.\<close>

primrec then_task :: "('s, 'a) task \<Rightarrow> ('a \<Rightarrow> ('s, 'r) task) \<Rightarrow> ('s, 'r) task" where
  "then_task (Answer a) f = f a"
| "then_task Undefined f = Undefined"
| "then_task (Self k) f = Self (\<lambda>s. then_task (k s) f)"
| "then_task (Put c t) f = Put c (then_task t f)"
| "then_task (Later d t) f = Later d (then_task t f)"
| "then_task (Effect e t) f = Effect e (then_task t f)"
| "then_task (AskPage q wc k) f = AskPage q wc (\<lambda>b. then_task (k b) f)"
| "then_task (AskUrl wc k) f = AskUrl wc (\<lambda>u. then_task (k u) f)"
| "then_task (AskRandom hi k) f = AskRandom hi (\<lambda>i. then_task (k i) f)"
| "then_task (AskDouble k) f = AskDouble (\<lambda>d. then_task (k d) f)"
| "then_task (AskMouse k) f = AskMouse (\<lambda>p. then_task (k p) f)"
| "then_task (SetMouse p t) f = SetMouse p (then_task t f)"
| "then_task (AskEval wc x aw ms k) f = AskEval wc x aw ms (\<lambda>r. then_task (k r) f)"
| "then_task (AskStatus q wc k) f = AskStatus q wc (\<lambda>r. then_task (k r) f)"
| "then_task (AskShot wc k) f = AskShot wc (\<lambda>r. then_task (k r) f)"
| "then_task (AskNodes wc k) f = AskNodes wc (\<lambda>r. then_task (k r) f)"
| "then_task (AskCookies u k) f = AskCookies u (\<lambda>r. then_task (k r) f)"
| "then_task (AskSanitized q k) f = AskSanitized q (\<lambda>r. then_task (k r) f)"
| "then_task (AskStored c u k) f = AskStored c u (\<lambda>r. then_task (k r) f)"
| "then_task (AskDeleted q k) f = AskDeleted q (\<lambda>r. then_task (k r) f)"

subsection \<open>Runs\<close>

text \<open>
  A run of a task in a world: the controller, if it is still there, and the process-wide mouse
  position. \<open>pages\<close> gives the pages the controller's runtime owns: a page is alive exactly while it
  is one of them, and using a page that is not is a crash. Between a node that returns to the
  message loop and its callback the world may change as \<open>M\<close> allows. An evaluation, a navigation, a
  reload and a screenshot answer what their request objects answer after some events.
\<close>

datatype ('s, 'r) outcome = Answered 'r "'s option" | Pending | Crashed

definition live :: "('s \<Rightarrow> web_contents set) \<Rightarrow> 's option \<Rightarrow> web_contents set" where
  "live pages s = (case s of None \<Rightarrow> {} | Some c \<Rightarrow> pages c)"

definition status_answers :: "base_lib \<Rightarrow> status_request \<Rightarrow> nav_event list \<Rightarrow> reload_event list \<Rightarrow> BrowserStatus list" where
  "status_answers L q nes res =
     (case q of
        Navigated url \<Rightarrow> nw_answers (fold (nav_step L) nes (new_navigation_waiter url))
      | Reloaded \<Rightarrow> rw_answers (fold reload_step res new_reload_waiter))"

definition eval_answers :: "base_lib \<Rightarrow> web_contents \<Rightarrow> string \<Rightarrow> bool \<Rightarrow> int \<Rightarrow> bool \<Rightarrow> js_event list \<Rightarrow> evaluation list" where
  "eval_answers L wc x aw ms frame_live es =
     js_answers (fold (js_step L) es (EvaluateWithDevTools (Some wc) x aw ms frame_live))"

definition shot_answers :: "base_lib \<Rightarrow> web_contents \<Rightarrow> bool \<Rightarrow> shot_event list \<Rightarrow> screenshot list" where
  "shot_answers L wc widget es = sh_answers (fold (shot_step L) es (ShotStart widget (new_shot_request (Some wc) True)))"

inductive run ::
  "base_lib \<Rightarrow> ('s \<Rightarrow> web_contents set) \<Rightarrow> ('s option \<Rightarrow> 's option \<Rightarrow> bool) \<Rightarrow>
   's option \<Rightarrow> point \<Rightarrow> ('s, 'r) task \<Rightarrow> effect list \<Rightarrow> ('s, 'r) outcome \<Rightarrow> bool"
  for L pages M where
  answer: "run L pages M s m (Answer r) [] (Answered r s)"
| undefined: "run L pages M s m Undefined [] Crashed"
| self: "run L pages M s m (k s) tr res \<Longrightarrow> run L pages M s m (Self k) tr res"
| put: "run L pages M (Some c) m t tr res \<Longrightarrow> run L pages M s m (Put c t) tr res"
| later: "M s s' \<Longrightarrow> run L pages M s' m' t tr res \<Longrightarrow> run L pages M s m (Later d t) tr res"
| effect: "effect_page e \<in> live pages s \<Longrightarrow> run L pages M s m t tr res \<Longrightarrow>
    run L pages M s m (Effect e t) (e # tr) res"
| effect_gone: "effect_page e \<notin> live pages s \<Longrightarrow> run L pages M s m (Effect e t) [] Crashed"
| page: "wc \<in> live pages s \<Longrightarrow> run L pages M s m (k b) tr res \<Longrightarrow> run L pages M s m (AskPage q wc k) tr res"
| page_gone: "wc \<notin> live pages s \<Longrightarrow> run L pages M s m (AskPage q wc k) [] Crashed"
| url: "wc \<in> live pages s \<Longrightarrow> run L pages M s m (k u) tr res \<Longrightarrow> run L pages M s m (AskUrl wc k) tr res"
| url_gone: "wc \<notin> live pages s \<Longrightarrow> run L pages M s m (AskUrl wc k) [] Crashed"
| random: "i \<le> hi \<Longrightarrow> run L pages M s m (k i) tr res \<Longrightarrow> run L pages M s m (AskRandom hi k) tr res"
| rand_double: "run L pages M s m (k d) tr res \<Longrightarrow> run L pages M s m (AskDouble k) tr res"
| mouse: "run L pages M s m (k m) tr res \<Longrightarrow> run L pages M s m (AskMouse k) tr res"
| set_mouse: "run L pages M s m' t tr res \<Longrightarrow> run L pages M s m (SetMouse m' t) tr res"
| eval: "wc \<in> live pages s \<Longrightarrow> eval_answers L wc x aw ms frame_live es = [r] \<Longrightarrow> M s s' \<Longrightarrow>
    run L pages M s' m' (k r) tr res \<Longrightarrow> run L pages M s m (AskEval wc x aw ms k) tr res"
| eval_pending: "wc \<in> live pages s \<Longrightarrow> eval_answers L wc x aw ms frame_live es = [] \<Longrightarrow>
    run L pages M s m (AskEval wc x aw ms k) [] Pending"
| eval_gone: "wc \<notin> live pages s \<Longrightarrow> run L pages M s m (AskEval wc x aw ms k) [] Crashed"
| status: "wc \<in> live pages s \<Longrightarrow> status_answers L q nes res' = [r] \<Longrightarrow> M s s' \<Longrightarrow>
    run L pages M s' m' (k r) tr res \<Longrightarrow> run L pages M s m (AskStatus q wc k) tr res"
| status_pending: "wc \<in> live pages s \<Longrightarrow> status_answers L q nes res' = [] \<Longrightarrow>
    run L pages M s m (AskStatus q wc k) [] Pending"
| status_gone: "wc \<notin> live pages s \<Longrightarrow> run L pages M s m (AskStatus q wc k) [] Crashed"
| shot: "wc \<in> live pages s \<Longrightarrow> shot_answers L wc widget es = [r] \<Longrightarrow> M s s' \<Longrightarrow>
    run L pages M s' m' (k r) tr res \<Longrightarrow> run L pages M s m (AskShot wc k) tr res"
| shot_pending: "wc \<in> live pages s \<Longrightarrow> shot_answers L wc widget es = [] \<Longrightarrow>
    run L pages M s m (AskShot wc k) [] Pending"
| shot_gone: "wc \<notin> live pages s \<Longrightarrow> run L pages M s m (AskShot wc k) [] Crashed"
| nodes: "wc \<in> live pages s \<Longrightarrow> M s s' \<Longrightarrow> run L pages M s' m' (k ns) tr res \<Longrightarrow>
    run L pages M s m (AskNodes wc k) tr res"
| nodes_gone: "wc \<notin> live pages s \<Longrightarrow> run L pages M s m (AskNodes wc k) [] Crashed"
| cookies: "M s s' \<Longrightarrow> run L pages M s' m' (k cs) tr res \<Longrightarrow> run L pages M s m (AskCookies u k) tr res"
| sanitized: "run L pages M s m (k c) tr res \<Longrightarrow> run L pages M s m (AskSanitized q k) tr res"
| stored: "M s s' \<Longrightarrow> run L pages M s' m' (k b) tr res \<Longrightarrow> run L pages M s m (AskStored c u k) tr res"
| deleted: "M s s' \<Longrightarrow> run L pages M s' m' (k n) tr res \<Longrightarrow> run L pages M s m (AskDeleted q k) tr res"

inductive_cases run_AnswerE: "run L pages M s m (Answer r) tr res"
inductive_cases run_UndefinedE: "run L pages M s m Undefined tr res"
inductive_cases run_SelfE: "run L pages M s m (Self k) tr res"
inductive_cases run_LaterE: "run L pages M s m (Later d t) tr res"
inductive_cases run_EffectE: "run L pages M s m (Effect e t) tr res"
inductive_cases run_AskPageE: "run L pages M s m (AskPage q wc k) tr res"
inductive_cases run_AskRandomE: "run L pages M s m (AskRandom hi k) tr res"
inductive_cases run_AskMouseE: "run L pages M s m (AskMouse k) tr res"
inductive_cases run_AskEvalE: "run L pages M s m (AskEval wc x aw ms k) tr res"

lemmas run_elims = run_AnswerE run_SelfE run_LaterE run_EffectE run_AskPageE run_AskRandomE run_AskMouseE run_AskEvalE

subsection \<open>Weakest preconditions\<close>

text \<open>
  \<open>wp pages M Q t s\<close>: started with the controller \<open>s\<close>, the task \<open>t\<close> never crashes, and each answer
  it gives satisfies \<open>Q\<close> with the controller of that moment.
\<close>

primrec wp :: "('s, 'r) task \<Rightarrow> ('s \<Rightarrow> web_contents set) \<Rightarrow> ('s option \<Rightarrow> 's option \<Rightarrow> bool) \<Rightarrow>
    ('r \<Rightarrow> 's option \<Rightarrow> bool) \<Rightarrow> 's option \<Rightarrow> bool" where
  "wp (Answer r) pages M Q s = Q r s"
| "wp Undefined pages M Q s = False"
| "wp (Self k) pages M Q s = wp (k s) pages M Q s"
| "wp (Put c t) pages M Q s = wp t pages M Q (Some c)"
| "wp (Later d t) pages M Q s = (\<forall>s'. M s s' \<longrightarrow> wp t pages M Q s')"
| "wp (Effect e t) pages M Q s = (effect_page e \<in> live pages s \<and> wp t pages M Q s)"
| "wp (AskPage q wc k) pages M Q s = (wc \<in> live pages s \<and> (\<forall>b. wp (k b) pages M Q s))"
| "wp (AskUrl wc k) pages M Q s = (wc \<in> live pages s \<and> (\<forall>u. wp (k u) pages M Q s))"
| "wp (AskRandom hi k) pages M Q s = (\<forall>i. i \<le> hi \<longrightarrow> wp (k i) pages M Q s)"
| "wp (AskDouble k) pages M Q s = (\<forall>d. wp (k d) pages M Q s)"
| "wp (AskMouse k) pages M Q s = (\<forall>p. wp (k p) pages M Q s)"
| "wp (SetMouse p t) pages M Q s = wp t pages M Q s"
| "wp (AskEval wc x aw ms k) pages M Q s =
     (wc \<in> live pages s \<and> (\<forall>r s'. result_wf r \<and> M s s' \<longrightarrow> wp (k r) pages M Q s'))"
| "wp (AskStatus q wc k) pages M Q s = (wc \<in> live pages s \<and> (\<forall>r s'. M s s' \<longrightarrow> wp (k r) pages M Q s'))"
| "wp (AskShot wc k) pages M Q s =
     (wc \<in> live pages s \<and> (\<forall>r s'. result_wf r \<and> M s s' \<longrightarrow> wp (k r) pages M Q s'))"
| "wp (AskNodes wc k) pages M Q s = (wc \<in> live pages s \<and> (\<forall>ns s'. M s s' \<longrightarrow> wp (k ns) pages M Q s'))"
| "wp (AskCookies u k) pages M Q s = (\<forall>cs s'. M s s' \<longrightarrow> wp (k cs) pages M Q s')"
| "wp (AskSanitized q k) pages M Q s = (\<forall>c. wp (k c) pages M Q s)"
| "wp (AskStored c u k) pages M Q s = (\<forall>b s'. M s s' \<longrightarrow> wp (k b) pages M Q s')"
| "wp (AskDeleted q k) pages M Q s = (\<forall>n s'. M s s' \<longrightarrow> wp (k n) pages M Q s')"

lemma eval_answers_wf:
  assumes "eval_answers L wc x aw ms frame_live es = [r]" shows "result_wf r"
proof -
  let ?s = "EvaluateWithDevTools (Some wc) x aw ms frame_live"
  have "if js_callback ?s then js_answers ?s = [] else \<exists>r. result_wf r \<and> js_answers ?s = [r]"
    by (auto simp: EvaluateWithDevTools_def JsStart_def JsComplete_def new_js_request_def)
  then show ?thesis
    using js.run_once [of es ?s L] js.stays_ended [of es ?s L] assms
    by (auto simp: eval_answers_def split: if_splits)
qed

lemma shot_answers_wf:
  assumes "shot_answers L wc widget es = [r]" shows "result_wf r"
proof -
  let ?s = "ShotStart widget (new_shot_request (Some wc) True)"
  have "if sh_callback ?s then sh_answers ?s = [] else \<exists>r. result_wf r \<and> sh_answers ?s = [r]"
    by (auto simp: ShotStart_def ShotComplete_def new_shot_request_def)
  then show ?thesis
    using shot.run_once [of es ?s L] shot.stays_ended [of es ?s L] assms
    by (auto simp: shot_answers_def split: if_splits)
qed

definition outcome_ok :: "('r \<Rightarrow> 's option \<Rightarrow> bool) \<Rightarrow> ('s, 'r) outcome \<Rightarrow> bool" where
  "outcome_ok Q res = (case res of Answered r s \<Rightarrow> Q r s | Pending \<Rightarrow> True | Crashed \<Rightarrow> False)"

lemma outcome_ok_simps [simp]:
  "outcome_ok Q (Answered r s) = Q r s" "outcome_ok Q Pending" "\<not> outcome_ok Q Crashed"
  by (simp_all add: outcome_ok_def)

lemma run_wp: "run L pages M s m t tr res \<Longrightarrow> wp t pages M Q s \<Longrightarrow> outcome_ok Q res"
proof (induction rule: run.induct)
  case (eval wc s x aw ms frame_live es r s' m' k tr res m)
  then show ?case using eval_answers_wf by (metis wp.simps(13))
next
  case (shot wc s widget es r s' m' k tr res m)
  then show ?case using shot_answers_wf by (metis wp.simps(15))
qed auto

lemma wp_mono: "wp t pages M Q s \<Longrightarrow> (\<And>r s. Q r s \<Longrightarrow> Q' r s) \<Longrightarrow> wp t pages M Q' s"
proof -
  assume imp: "\<And>r s. Q r s \<Longrightarrow> Q' r s"
  show "wp t pages M Q s \<Longrightarrow> wp t pages M Q' s"
    by (induction t arbitrary: s) (use imp in auto)
qed

lemma wp_then_task: "wp (then_task t f) pages M Q s \<longleftrightarrow> wp t pages M (\<lambda>a s. wp (f a) pages M Q s) s"
  by (induction t arbitrary: s) simp_all

text \<open>
  The completions of the callers read the value of an ok result, which is undefined when there is none; \<open>Undefined\<close>
  is that branch.
\<close>

definition value_or_undefined :: "'a BrowserResult \<Rightarrow> ('a \<Rightarrow> ('s, 'r) task) \<Rightarrow> ('s, 'r) task" where
  "value_or_undefined result k = (case res_value result of None \<Rightarrow> Undefined | Some v \<Rightarrow> k v)"

lemma result_wf_value: "result_wf r \<Longrightarrow> result_ok r \<Longrightarrow> \<exists>v. res_value r = Some v"
  by (simp add: result_wf_def)

text \<open>The code posts an operation to the browser's sequence unless it already runs there.\<close>

definition RunOrPost :: "bool \<Rightarrow> ('s, 'r) task \<Rightarrow> ('s, 'r) task" where
  "RunOrPost in_sequence t = (if in_sequence then t else Later 0 t)"

lemma wp_RunOrPost:
  "wp t pages M Q s \<Longrightarrow> (\<And>s'. M s s' \<Longrightarrow> wp t pages M Q s') \<Longrightarrow> wp (RunOrPost b t) pages M Q s"
  by (simp add: RunOrPost_def)

subsection \<open>Views and frames\<close>

text \<open>
  A page that is alive need not have a render view or a main frame; the code asks for one and gets a null pointer
  when there is none. Input events go to the view, accessibility actions to the frame. What the pages
  have, and the answers of the other questions to a page, may change whenever the code returns to the message loop,
  and only then. \<open>uses_missing H t\<close>: with \<open>H\<close> the questions whose answer is now yes, the task can come to use a
  view or a frame that is not there.
\<close>

fun effect_needs :: "effect \<Rightarrow> page_query option" where
  "effect_needs (MouseEvent _ _ _) = Some HasView"
| "effect_needs (KeyEvent _ _) = Some HasView"
| "effect_needs (WheelEvent _ _ _ _) = Some HasView"
| "effect_needs (AxAction _ _ _) = Some HasFrame"
| "effect_needs _ = None"

inductive uses_missing :: "(page_query \<times> web_contents) set \<Rightarrow> ('s, 'r) task \<Rightarrow> bool" where
  missing: "effect_needs e = Some q \<Longrightarrow> (q, effect_page e) \<notin> H \<Longrightarrow> uses_missing H (Effect e t)"
| "uses_missing H t \<Longrightarrow> uses_missing H (Effect e t)"
| "uses_missing H (k s) \<Longrightarrow> uses_missing H (Self k)"
| "uses_missing H t \<Longrightarrow> uses_missing H (Put c t)"
| "uses_missing H' t \<Longrightarrow> uses_missing H (Later d t)"
| "uses_missing H (k ((q, wc) \<in> H)) \<Longrightarrow> uses_missing H (AskPage q wc k)"
| "uses_missing H (k u) \<Longrightarrow> uses_missing H (AskUrl wc k)"
| "uses_missing H (k i) \<Longrightarrow> uses_missing H (AskRandom hi k)"
| "uses_missing H (k x) \<Longrightarrow> uses_missing H (AskDouble k)"
| "uses_missing H (k p) \<Longrightarrow> uses_missing H (AskMouse k)"
| "uses_missing H t \<Longrightarrow> uses_missing H (SetMouse p t)"
| "uses_missing H' (k r) \<Longrightarrow> uses_missing H (AskEval wc x aw ms k)"
| "uses_missing H' (k st) \<Longrightarrow> uses_missing H (AskStatus q' wc k)"
| "uses_missing H' (k sh) \<Longrightarrow> uses_missing H (AskShot wc k)"
| "uses_missing H' (k ns) \<Longrightarrow> uses_missing H (AskNodes wc k)"
| "uses_missing H' (k cs) \<Longrightarrow> uses_missing H (AskCookies url k)"
| "uses_missing H (k co) \<Longrightarrow> uses_missing H (AskSanitized cr k)"
| "uses_missing H' (k b) \<Longrightarrow> uses_missing H (AskStored cc u k)"
| "uses_missing H' (k n) \<Longrightarrow> uses_missing H (AskDeleted cf k)"

text \<open>The tasks that ask before each use, as a function of the task.\<close>

primrec looks_first :: "('s, 'r) task \<Rightarrow> (page_query \<times> web_contents) set \<Rightarrow> bool" where
  "looks_first (Answer r) H = True"
| "looks_first Undefined H = True"
| "looks_first (Self k) H = (\<forall>s. looks_first (k s) H)"
| "looks_first (Put c t) H = looks_first t H"
| "looks_first (Later d t) H = (\<forall>H'. looks_first t H')"
| "looks_first (Effect e t) H =
     ((case effect_needs e of None \<Rightarrow> True | Some q \<Rightarrow> (q, effect_page e) \<in> H) \<and> looks_first t H)"
| "looks_first (AskPage q wc k) H = looks_first (k ((q, wc) \<in> H)) H"
| "looks_first (AskUrl wc k) H = (\<forall>u. looks_first (k u) H)"
| "looks_first (AskRandom hi k) H = (\<forall>i. looks_first (k i) H)"
| "looks_first (AskDouble k) H = (\<forall>x. looks_first (k x) H)"
| "looks_first (AskMouse k) H = (\<forall>p. looks_first (k p) H)"
| "looks_first (SetMouse p t) H = looks_first t H"
| "looks_first (AskEval wc x aw ms k) H = (\<forall>r H'. looks_first (k r) H')"
| "looks_first (AskStatus q wc k) H = (\<forall>r H'. looks_first (k r) H')"
| "looks_first (AskShot wc k) H = (\<forall>r H'. looks_first (k r) H')"
| "looks_first (AskNodes wc k) H = (\<forall>ns H'. looks_first (k ns) H')"
| "looks_first (AskCookies u k) H = (\<forall>cs H'. looks_first (k cs) H')"
| "looks_first (AskSanitized q k) H = (\<forall>c. looks_first (k c) H)"
| "looks_first (AskStored c u k) H = (\<forall>b H'. looks_first (k b) H')"
| "looks_first (AskDeleted q k) H = (\<forall>n H'. looks_first (k n) H')"

lemma looks_first_never_missing: "looks_first t H \<Longrightarrow> \<not> uses_missing H t"
proof -
  have "uses_missing H t \<Longrightarrow> \<not> looks_first t H" by (induction rule: uses_missing.induct) auto
  then show "looks_first t H \<Longrightarrow> \<not> uses_missing H t" by blast
qed

lemma looks_first_RunOrPost: "(\<And>H. looks_first t H) \<Longrightarrow> looks_first (RunOrPost b t) H"
  by (simp add: RunOrPost_def)

end
