(* ===== verification/Controller.thy ===== *)
theory Controller
  imports Task
begin

section \<open>The browser controller (\<open>core/browser_controller.h\<close>, \<open>core/browser_controller.cc\<close>)\<close>

text \<open>
  The controller owns the runtime, one console observer per page, and the simulator that moves the
  mouse over the active page. The runtime is a \<open>BrowserRuntime\<close>: its virtual functions are the
  record \<open>runtime_class\<close>. Every operation runs or posts itself with a weak pointer to the
  controller, and is here a task that gives the answer its callback is run with.
\<close>

record 'rt runtime_class =
  op_active :: "'rt \<Rightarrow> web_contents option"
  op_lookup :: "string \<Rightarrow> 'rt \<Rightarrow> web_contents option"
  op_all :: "'rt \<Rightarrow> web_contents list"
  op_list :: "'rt \<Rightarrow> BrowserTabInfo list"
  op_create :: "gurl \<Rightarrow> 'rt \<Rightarrow> BrowserTabInfo option \<times> 'rt"
  op_close :: "string option \<Rightarrow> 'rt \<Rightarrow> bool \<times> 'rt"
  op_resize :: "int \<times> int \<Rightarrow> 'rt \<Rightarrow> 'rt"
  op_shutdown :: "'rt \<Rightarrow> 'rt"

text \<open>A \<open>PageInstrumentation\<close> is the page it observes, none once that page is destroyed.\<close>

record 'rt controller =
  ctl_runtime :: "'rt option"
  ctl_instrumentation :: "web_contents option list"
  ctl_simulator :: "web_contents option"

definition controller_pages :: "'rt runtime_class \<Rightarrow> 'rt controller \<Rightarrow> web_contents set" where
  "controller_pages V c = (case ctl_runtime c of None \<Rightarrow> {} | Some rt \<Rightarrow> set (op_all V rt))"

definition TabNotFound :: "string option \<Rightarrow> BrowserStatus" where
  "TabNotFound target_id =
     StatusError kTabNotFound
       (case target_id of Some t \<Rightarrow> ''Tab not found: '' @ t | None \<Rightarrow> ''No active tab'')"

definition session_not_ready :: BrowserStatus where
  "session_not_ready = StatusError kSessionNotReady ''Browser session not ready''"

definition ResolveWebContents :: "'rt runtime_class \<Rightarrow> string option \<Rightarrow> 'rt controller \<Rightarrow> web_contents option" where
  "ResolveWebContents V target_id c =
     (case ctl_runtime c of
        None \<Rightarrow> None
      | Some rt \<Rightarrow>
          (case target_id of
             Some t \<Rightarrow> if t \<noteq> [] then op_lookup V t rt else op_active V rt
           | None \<Rightarrow> op_active V rt))"

fun observe_all :: "web_contents list \<Rightarrow> web_contents option list \<Rightarrow> web_contents option list" where
  "observe_all [] observers = observers"
| "observe_all (wc # rest) observers =
     observe_all rest (if Some wc \<in> set observers then observers else observers @ [Some wc])"

definition RefreshSharedRuntimeBehavior :: "'rt runtime_class \<Rightarrow> 'rt controller \<Rightarrow> 'rt controller" where
  "RefreshSharedRuntimeBehavior V c =
     (case ctl_runtime c of
        None \<Rightarrow> c\<lparr>ctl_instrumentation := [], ctl_simulator := None\<rparr>
      | Some rt \<Rightarrow>
          let all_web_contents = op_all V rt;
              kept = filter (\<lambda>observed. case observed of None \<Rightarrow> False | Some wc \<Rightarrow> wc \<in> set all_web_contents)
                       (ctl_instrumentation c)
          in c\<lparr>ctl_instrumentation := observe_all all_web_contents kept,
               ctl_simulator := op_active V rt\<rparr>)"

definition new_controller :: "'rt runtime_class \<Rightarrow> 'rt option \<Rightarrow> 'rt controller" where
  "new_controller V rt =
     RefreshSharedRuntimeBehavior V
       \<lparr>ctl_runtime = rt, ctl_instrumentation = [], ctl_simulator = None\<rparr>"

text \<open>
  A page that is destroyed: its observer forgets it, and so does the simulator. After a committed
  navigation of the main frame the observer runs the console script, if there is a frame.
\<close>

definition PageDestroyed :: "web_contents \<Rightarrow> 'rt controller \<Rightarrow> 'rt controller" where
  "PageDestroyed wc c =
     c\<lparr>ctl_instrumentation := map (\<lambda>observed. if observed = Some wc then None else observed) (ctl_instrumentation c),
       ctl_simulator := (if ctl_simulator c = Some wc then None else ctl_simulator c)\<rparr>"

definition InstrumentationDidFinishNavigation ::
  "string \<Rightarrow> bool \<Rightarrow> navigation_handle \<Rightarrow> web_contents \<Rightarrow> effect list" where
  "InstrumentationDidFinishNavigation console_capture_script frame h wc =
     (if \<not> nh_is_in_primary_main_frame h \<or> \<not> nh_has_committed h then []
      else if \<not> frame then []
      else [RunScript wc console_capture_script 0])"

subsection \<open>Tabs\<close>

text \<open>The controller and its runtime, when both are there.\<close>

definition with_runtime :: "'r \<Rightarrow> 'rt controller option \<Rightarrow>
    ('rt controller \<Rightarrow> 'rt \<Rightarrow> ('rt controller, 'r) task) \<Rightarrow> ('rt controller, 'r) task" where
  "with_runtime not_ready self k =
     (case self of
        None \<Rightarrow> Answer not_ready
      | Some c \<Rightarrow> (case ctl_runtime c of None \<Rightarrow> Answer not_ready | Some rt \<Rightarrow> k c rt))"

definition result_not_ready :: "'a BrowserResult" where
  "result_not_ready = ResultError kSessionNotReady ''Browser session not ready''"

definition CtlListTabs ::
  "'rt runtime_class \<Rightarrow> bool \<Rightarrow> ('rt controller, BrowserTabInfo list BrowserResult) task" where
  "CtlListTabs V now =
     RunOrPost now (Self (\<lambda>self. with_runtime result_not_ready self (\<lambda>c rt.
       Put (RefreshSharedRuntimeBehavior V c) (Answer (ResultOk (op_list V rt))))))"

definition CtlCreateTab ::
  "'rt runtime_class \<Rightarrow> bool \<Rightarrow> gurl \<Rightarrow> ('rt controller, BrowserTabInfo BrowserResult) task" where
  "CtlCreateTab V now gurl =
     RunOrPost now (Self (\<lambda>self. with_runtime result_not_ready self (\<lambda>c rt.
       if \<not> gurl_is_valid gurl then Answer (ResultError kInvalidArgument ''Invalid URL'')
       else
         let (tab, rt') = op_create V gurl rt;
             c' = RefreshSharedRuntimeBehavior V (c\<lparr>ctl_runtime := Some rt'\<rparr>)
         in Put c'
              (case tab of
                 None \<Rightarrow> Answer (ResultError kInternalError ''Failed to create tab'')
               | Some t \<Rightarrow>
                   if gurl_spec gurl = ''about:blank'' then Answer (ResultOk t)
                   else
                     (case ResolveWebContents V (Some (tab_target_id t)) c' of
                        None \<Rightarrow> Answer (ResultError kTabNotFound ''New tab web contents not found'')
                      | Some wc \<Rightarrow>
                          AskStatus (Navigated gurl) wc (\<lambda>status.
                            if \<not> status_ok status then
                              Answer (ResultError (st_code status) (st_message status))
                            else Self (\<lambda>self. with_runtime result_not_ready self (\<lambda>c2 rt2.
                              Put (RefreshSharedRuntimeBehavior V c2)
                                (case find (\<lambda>current. tab_target_id current = tab_target_id t) (op_list V rt2) of
                                   Some current \<Rightarrow> Answer (ResultOk current)
                                 | None \<Rightarrow>
                                     Answer (ResultError kTabNotFound
                                       (''Tab not found: '' @ tab_target_id t)))))))))))"

definition CtlCloseTab :: "'rt runtime_class \<Rightarrow> bool \<Rightarrow> string option \<Rightarrow> ('rt controller, BrowserStatus) task" where
  "CtlCloseTab V now target_id =
     RunOrPost now (Self (\<lambda>self. with_runtime session_not_ready self (\<lambda>c rt.
       let (closed, rt') = op_close V target_id rt;
           c' = c\<lparr>ctl_runtime := Some rt'\<rparr>
       in if \<not> closed then Put c' (Answer (TabNotFound target_id))
          else Put (RefreshSharedRuntimeBehavior V c') (Answer StatusOk))))"

definition CtlResizeActive :: "'rt runtime_class \<Rightarrow> bool \<Rightarrow> int \<times> int \<Rightarrow> ('rt controller, BrowserStatus) task" where
  "CtlResizeActive V now extent =
     RunOrPost now (Self (\<lambda>self. with_runtime session_not_ready self (\<lambda>c rt.
       Put (c\<lparr>ctl_runtime := Some (op_resize V extent rt)\<rparr>) (Answer StatusOk))))"

definition CtlShutdown :: "'rt runtime_class \<Rightarrow> bool \<Rightarrow> ('rt controller, unit) task" where
  "CtlShutdown V now =
     RunOrPost now (Self (\<lambda>self. with_runtime () self (\<lambda>c rt.
       Put (c\<lparr>ctl_runtime := Some (op_shutdown V rt)\<rparr>) (Answer ()))))"

subsection \<open>Navigation\<close>

text \<open>
  Most operations resolve the page first. The ones that answer a status and the ones that answer
  a result spell the error differently.
\<close>

definition status_page :: "'rt runtime_class \<Rightarrow> string option \<Rightarrow>
    (web_contents \<Rightarrow> ('rt controller, BrowserStatus) task) \<Rightarrow> ('rt controller, BrowserStatus) task" where
  "status_page V target_id k =
     Self (\<lambda>self.
       case (case self of Some c \<Rightarrow> ResolveWebContents V target_id c | None \<Rightarrow> None) of
         None \<Rightarrow> Answer (if self \<noteq> None then TabNotFound target_id else session_not_ready)
       | Some wc \<Rightarrow> k wc)"

definition result_page :: "'rt runtime_class \<Rightarrow> string option \<Rightarrow>
    (web_contents \<Rightarrow> ('rt controller, 'a BrowserResult) task) \<Rightarrow> ('rt controller, 'a BrowserResult) task" where
  "result_page V target_id k =
     Self (\<lambda>self.
       case (case self of Some c \<Rightarrow> ResolveWebContents V target_id c | None \<Rightarrow> None) of
         None \<Rightarrow>
           Answer (ResultError (if self \<noteq> None then kTabNotFound else kSessionNotReady)
             (if self \<noteq> None then st_message (TabNotFound target_id) else ''Browser session not ready''))
       | Some wc \<Rightarrow> k wc)"

text \<open>The waiter observes the page before the load starts, so it sees every event of it.\<close>

definition CtlNavigate ::
  "'rt runtime_class \<Rightarrow> bool \<Rightarrow> string option \<Rightarrow> gurl \<Rightarrow> ('rt controller, BrowserStatus) task" where
  "CtlNavigate V now target_id target_url =
     RunOrPost now (Self (\<lambda>self. with_runtime session_not_ready self (\<lambda>c rt.
       if \<not> gurl_is_valid target_url then Answer (StatusError kInvalidArgument ''Invalid URL'')
       else
         case ResolveWebContents V target_id c of
           None \<Rightarrow> Answer (TabNotFound target_id)
         | Some wc \<Rightarrow> Effect (LoadUrl wc target_url) (AskStatus (Navigated target_url) wc Answer))))"

definition CtlNavigateBack :: "'rt runtime_class \<Rightarrow> bool \<Rightarrow> string option \<Rightarrow> ('rt controller, BrowserStatus) task" where
  "CtlNavigateBack V now target_id =
     RunOrPost now (status_page V target_id (\<lambda>wc.
       AskPage CanGoBack wc (\<lambda>can.
         if \<not> can then Answer (StatusError kNotFound ''Cannot go back'')
         else Effect (GoBack wc) (Answer StatusOk))))"

definition CtlNavigateForward :: "'rt runtime_class \<Rightarrow> bool \<Rightarrow> string option \<Rightarrow> ('rt controller, BrowserStatus) task" where
  "CtlNavigateForward V now target_id =
     RunOrPost now (status_page V target_id (\<lambda>wc.
       AskPage CanGoForward wc (\<lambda>can.
         if \<not> can then Answer (StatusError kNotFound ''Cannot go forward'')
         else Effect (GoForward wc) (Answer StatusOk))))"

definition CtlReload :: "'rt runtime_class \<Rightarrow> bool \<Rightarrow> string option \<Rightarrow> ('rt controller, BrowserStatus) task" where
  "CtlReload V now target_id =
     RunOrPost now (status_page V target_id (\<lambda>wc.
       Effect (ReloadPage wc) (AskStatus Reloaded wc Answer)))"

subsection \<open>Scripts and screenshots\<close>

definition CtlEvaluate ::
  "'rt runtime_class \<Rightarrow> base_lib \<Rightarrow> bool \<Rightarrow> string option \<Rightarrow> string \<Rightarrow>
     ('rt controller, EvaluateResult BrowserResult) task" where
  "CtlEvaluate V L now target_id js =
     RunOrPost now (result_page V target_id (\<lambda>wc.
       AskEval wc js True 10000 (\<lambda>result.
         if \<not> result_ok result then
           Answer (ResultError (st_code (res_status result)) (st_message (res_status result)))
         else
           case res_value result of
             None \<Rightarrow> Undefined
           | Some v \<Rightarrow> Answer (ResultOk (ToEvaluateResult L v)))))"

definition console_script :: string where
  "console_script =
     ''(() => {'' @ ''  if (!window.__browserdLogs) return '[]';'' @
     ''  return JSON.stringify(window.__browserdLogs);'' @ ''})()''"

definition CtlConsoleMessages ::
  "'rt runtime_class \<Rightarrow> bool \<Rightarrow> string option \<Rightarrow> ('rt controller, string BrowserResult) task" where
  "CtlConsoleMessages V now target_id =
     RunOrPost now (result_page V target_id (\<lambda>wc.
       AskEval wc console_script True 10000 (\<lambda>result.
         if \<not> result_ok result then
           Answer (ResultError (st_code (res_status result)) (st_message (res_status result)))
         else
           case map_option de_value (res_value result) of
             Some (JString text) \<Rightarrow> Answer (ResultOk text)
           | _ \<Rightarrow> Answer (ResultOk ''[]''))))"

text \<open>\<open>kDomSnapshotScript\<close> is an argument: the program only passes it on.\<close>

definition CtlSnapshot ::
  "'rt runtime_class \<Rightarrow> string \<Rightarrow> bool \<Rightarrow> string option \<Rightarrow> ('rt controller, string BrowserResult) task" where
  "CtlSnapshot V dom_snapshot_script now target_id =
     RunOrPost now (result_page V target_id (\<lambda>wc.
       AskEval wc dom_snapshot_script True 10000 (\<lambda>result.
         if \<not> result_ok result then
           Answer (ResultError (st_code (res_status result)) (st_message (res_status result)))
         else
           case map_option de_value (res_value result) of
             Some (JString text) \<Rightarrow> Answer (ResultOk text)
           | _ \<Rightarrow> Answer (ResultError kInternalError ''DOM snapshot returned no text''))))"

definition CtlScreenshot ::
  "'rt runtime_class \<Rightarrow> bool \<Rightarrow> string option \<Rightarrow> ('rt controller, screenshot) task" where
  "CtlScreenshot V now target_id =
     RunOrPost now (result_page V target_id (\<lambda>wc.
       AskPage HasView wc (\<lambda>view.
         if \<not> view then Answer (ResultError kScreenshotFailed ''No render view available'')
         else AskShot wc Answer)))"

definition wait_check :: "string \<Rightarrow> string" where
  "wait_check found =
     ''  const start = Date.now();'' @ ''  const check = () => {'' @ found @
     ''    if (Date.now() - start > timeout) { reject(new Error('timeout')); return; }'' @
     ''    setTimeout(check, 100);'' @ ''  };'' @ ''  check();'' @ ''})''"

definition wait_expression :: "base_lib \<Rightarrow> int \<Rightarrow> string option \<Rightarrow> string \<Rightarrow> string" where
  "wait_expression L timeout selector t =
     ''new Promise((resolve, reject) => {'' @ ''  const timeout = '' @ lib_number_to_string L timeout @ '';'' @
     (case selector of
        Some q \<Rightarrow>
          ''  const selector = '' @ lib_quote L q @ '';'' @
          wait_check (''    const el = document.querySelector(selector);'' @
            ''    if (el) { resolve('found'); return; }'')
      | None \<Rightarrow>
          ''  const text = '' @ lib_quote L t @ '';'' @
          wait_check ''    if (document.body && document.body.innerText.includes(text)) { resolve('found'); return; }'')"

definition CtlWaitFor ::
  "'rt runtime_class \<Rightarrow> base_lib \<Rightarrow> bool \<Rightarrow> string option \<Rightarrow> WaitOptions \<Rightarrow> ('rt controller, BrowserStatus) task" where
  "CtlWaitFor V L now target_id options =
     RunOrPost now (status_page V target_id (\<lambda>wc.
       if wait_selector options = None \<and> wait_text options = None then
         Answer (StatusError kInvalidArgument ''Must provide either selector or text to wait for'')
       else
         let timeout = (if sint (wait_timeout_ms options) > 0 then wait_timeout_ms options else 30000);
             expression = wait_expression L (sint timeout) (wait_selector options)
               (case wait_text options of Some t \<Rightarrow> t | None \<Rightarrow> [])
         in case c_add timeout 1000 of
              None \<Rightarrow> Undefined
            | Some limit \<Rightarrow>
                AskEval wc expression True (sint limit) (\<lambda>result.
                  if \<not> result_ok result then
                    Answer (StatusError (st_code (res_status result)) (st_message (res_status result)))
                  else if map_option de_value (res_value result) = Some (JString ''found'') then Answer StatusOk
                  else Answer (StatusError kTimeout ''Wait timeout''))))"

subsection \<open>Cookies\<close>

definition ToCookieInfo :: "canonical_cookie \<Rightarrow> CookieInfo" where
  "ToCookieInfo cookie =
     \<lparr>ci_name = cc_name cookie, ci_value = cc_value cookie, ci_domain = cc_domain cookie,
      ci_path = cc_path cookie, ci_secure = cc_secure cookie, ci_http_only = cc_http_only cookie,
      ci_expires_unix_seconds = (case cc_expiry cookie of None \<Rightarrow> 0 | Some e \<Rightarrow> e)\<rparr>"

text \<open>\<open>GetCookieManager\<close> gives none without a browser context.\<close>

definition GetCookieManager :: "web_contents \<Rightarrow> (bool \<Rightarrow> ('s, 'r) task) \<Rightarrow> ('s, 'r) task" where
  "GetCookieManager wc k = AskPage HasBrowserContext wc k"

definition CtlListCookies ::
  "'rt runtime_class \<Rightarrow> base_lib \<Rightarrow> bool \<Rightarrow> string option \<Rightarrow> CookieListOptions \<Rightarrow>
     ('rt controller, CookieInfo list BrowserResult) task" where
  "CtlListCookies V L now target_id options =
     RunOrPost now (result_page V target_id (\<lambda>wc.
       GetCookieManager wc (\<lambda>cm.
         if \<not> cm then Answer (ResultError kInternalError ''No cookie manager'')
         else AskCookies (map_option (lib_gurl L) (cl_url options))
                (\<lambda>cookies. Answer (ResultOk (map ToCookieInfo cookies))))))"

definition CtlGetCookie ::
  "'rt runtime_class \<Rightarrow> base_lib \<Rightarrow> bool \<Rightarrow> string option \<Rightarrow> CookieGetOptions \<Rightarrow>
     ('rt controller, CookieInfo BrowserResult) task" where
  "CtlGetCookie V L now target_id options =
     then_task (CtlListCookies V L now target_id \<lparr>cl_url = None\<rparr>) (\<lambda>result.
       if \<not> result_ok result then
         Answer (ResultError (st_code (res_status result)) (st_message (res_status result)))
       else
         case res_value result of
           None \<Rightarrow> Undefined
         | Some cookies \<Rightarrow>
             (case find (\<lambda>cookie. ci_name cookie = cg_name options) cookies of
                Some cookie \<Rightarrow> Answer (ResultOk cookie)
              | None \<Rightarrow> Answer (ResultError kNotFound (''Cookie '' @ [CHR 0x27] @ cg_name options @ [CHR 0x27] @ '' not found''))))"

definition CtlSetCookie ::
  "'rt runtime_class \<Rightarrow> base_lib \<Rightarrow> bool \<Rightarrow> string option \<Rightarrow> CookieSetOptions \<Rightarrow>
     ('rt controller, BrowserStatus) task" where
  "CtlSetCookie V L now target_id options =
     RunOrPost now (status_page V target_id (\<lambda>wc.
       GetCookieManager wc (\<lambda>cm.
         if \<not> cm then Answer (StatusError kInternalError ''No cookie manager'')
         else AskUrl wc (\<lambda>last_committed.
           let source_url = lib_gurl L (case cs_url options of Some u \<Rightarrow> u | None \<Rightarrow> gurl_spec last_committed);
               request =
                 \<lparr>cr_source_url = source_url, cr_name = cs_name options, cr_value = cs_value options,
                  cr_domain = (case cs_domain options of Some d \<Rightarrow> d | None \<Rightarrow> []),
                  cr_path = (case cs_path options of Some p \<Rightarrow> p | None \<Rightarrow> ''/''),
                  cr_secure = cs_secure options, cr_http_only = cs_http_only options\<rparr>
           in AskSanitized request (\<lambda>cookie.
                case cookie of
                  None \<Rightarrow> Answer (StatusError kInvalidArgument ''Invalid cookie'')
                | Some cookie \<Rightarrow>
                    AskStored cookie source_url (\<lambda>included.
                      Answer (if included then StatusOk
                              else StatusError kInternalError ''Failed to set cookie'')))))))"

definition CtlDeleteCookie ::
  "'rt runtime_class \<Rightarrow> base_lib \<Rightarrow> bool \<Rightarrow> string option \<Rightarrow> CookieDeleteOptions \<Rightarrow>
     ('rt controller, BrowserStatus) task" where
  "CtlDeleteCookie V L now target_id options =
     RunOrPost now (status_page V target_id (\<lambda>wc.
       GetCookieManager wc (\<lambda>cm.
         if \<not> cm then Answer (StatusError kInternalError ''No cookie manager'')
         else
           AskDeleted \<lparr>cf_name = Some (cd_name options), cf_url = map_option (lib_gurl L) (cd_url options),
                       cf_host_name = cd_domain options\<rparr>
             (\<lambda>deleted_count.
                Answer (if deleted_count > 0 then StatusOk else StatusError kNotFound ''Cookie not found'')))))"

definition CtlClearCookies :: "'rt runtime_class \<Rightarrow> bool \<Rightarrow> string option \<Rightarrow> ('rt controller, BrowserStatus) task" where
  "CtlClearCookies V now target_id =
     RunOrPost now (status_page V target_id (\<lambda>wc.
       GetCookieManager wc (\<lambda>cm.
         if \<not> cm then Answer (StatusError kInternalError ''No cookie manager'')
         else AskDeleted \<lparr>cf_name = None, cf_url = None, cf_host_name = None\<rparr> (\<lambda>n. Answer StatusOk))))"

section \<open>The interface to the runtime\<close>

text \<open>
  What the controller relies on: the pages a runtime names, as the active one or by target id, are
  among the pages it owns, and its operations keep its invariant. \<open>may_create\<close> is when a new tab
  can be made (its page is new, the tab counter does not wrap).
\<close>

locale page_owner =
  fixes V :: "'rt runtime_class"
    and inv :: "'rt \<Rightarrow> bool"
    and may_create :: "'rt \<Rightarrow> bool"
  assumes active_owned: "inv rt \<Longrightarrow> op_active V rt = Some wc \<Longrightarrow> wc \<in> set (op_all V rt)"
    and lookup_owned: "inv rt \<Longrightarrow> op_lookup V t rt = Some wc \<Longrightarrow> wc \<in> set (op_all V rt)"
    and create_inv: "inv rt \<Longrightarrow> may_create rt \<Longrightarrow> op_create V u rt = (r, rt') \<Longrightarrow> inv rt'"
    and close_inv: "inv rt \<Longrightarrow> op_close V i rt = (b, rt') \<Longrightarrow> inv rt'"
    and resize_inv: "inv rt \<Longrightarrow> inv (op_resize V z rt)"
    and shutdown_inv: "inv rt \<Longrightarrow> inv (op_shutdown V rt)"

text \<open>A controller in order, one that can also make a tab, and what may happen meanwhile.\<close>

definition controller_ok :: "('rt \<Rightarrow> bool) \<Rightarrow> 'rt controller \<Rightarrow> bool" where
  "controller_ok ok c \<longleftrightarrow> (case ctl_runtime c of None \<Rightarrow> True | Some rt \<Rightarrow> ok rt)"

definition controllers_ok :: "('rt \<Rightarrow> bool) \<Rightarrow> 'rt controller option \<Rightarrow> bool" where
  "controllers_ok ok s \<longleftrightarrow> (case s of None \<Rightarrow> True | Some c \<Rightarrow> controller_ok ok c)"

definition meanwhile :: "('rt \<Rightarrow> bool) \<Rightarrow> 'rt controller option \<Rightarrow> 'rt controller option \<Rightarrow> bool" where
  "meanwhile ok s s' \<longleftrightarrow> controllers_ok ok s'"

text \<open>Each page of the runtime has exactly one observer, no other page has one, and the simulator is on the active page.\<close>

definition observers_ok :: "'rt runtime_class \<Rightarrow> 'rt controller \<Rightarrow> bool" where
  "observers_ok V c \<longleftrightarrow>
     distinct (ctl_instrumentation c) \<and>
     (case ctl_runtime c of
        None \<Rightarrow> ctl_instrumentation c = [] \<and> ctl_simulator c = None
      | Some rt \<Rightarrow> set (ctl_instrumentation c) = Some ` set (op_all V rt) \<and> ctl_simulator c = op_active V rt)"

text \<open>The observers that are left when pages went away: no page has two.\<close>

definition observers_single :: "'rt controller \<Rightarrow> bool" where
  "observers_single c \<longleftrightarrow> distinct (filter (\<lambda>observed. observed \<noteq> None) (ctl_instrumentation c))"

lemma observe_all_set: "set (observe_all wcs os) = Some ` set wcs \<union> set os"
  by (induction wcs os rule: observe_all.induct) auto

lemma observe_all_distinct: "distinct os \<Longrightarrow> distinct (observe_all wcs os)"
  by (induction wcs os rule: observe_all.induct) auto

lemma refresh_runtime [simp]: "ctl_runtime (RefreshSharedRuntimeBehavior V c) = ctl_runtime c"
  by (simp add: RefreshSharedRuntimeBehavior_def Let_def split: option.split)

lemma kept_observers:
  "filter (\<lambda>observed. case observed of None \<Rightarrow> False | Some wc \<Rightarrow> wc \<in> W) os =
   filter (\<lambda>observed. observed \<in> Some ` W) (filter (\<lambda>observed. observed \<noteq> None) os)"
  by (induction os) (auto split: option.split)

lemma refresh_observers:
  assumes "observers_single c" shows "observers_ok V (RefreshSharedRuntimeBehavior V c)"
proof (cases "ctl_runtime c")
  case (Some rt)
  let ?kept = "filter (\<lambda>observed. case observed of None \<Rightarrow> False | Some wc \<Rightarrow> wc \<in> set (op_all V rt)) (ctl_instrumentation c)"
  have "distinct ?kept"
    using assms unfolding kept_observers observers_single_def by (rule distinct_filter)
  moreover have "set ?kept \<subseteq> Some ` set (op_all V rt)" by (auto split: option.splits)
  ultimately show ?thesis
    using Some by (auto simp: observers_ok_def RefreshSharedRuntimeBehavior_def Let_def observe_all_distinct observe_all_set)
qed (simp add: observers_ok_def RefreshSharedRuntimeBehavior_def)

lemma observers_ok_single: "observers_ok V c \<Longrightarrow> observers_single c"
  by (simp add: observers_ok_def observers_single_def)

lemma page_destroyed_single:
  assumes "observers_single c" shows "observers_single (PageDestroyed wc c)"
proof -
  have "filter (\<lambda>observed. observed \<noteq> None) (map (\<lambda>observed. if observed = Some wc then None else observed) os) =
      filter (\<lambda>observed. observed \<noteq> Some wc) (filter (\<lambda>observed. observed \<noteq> None) os)" for os :: "nat option list"
    by (induction os) auto
  moreover have "ctl_instrumentation (PageDestroyed wc c) =
      map (\<lambda>observed. if observed = Some wc then None else observed) (ctl_instrumentation c)"
    by (simp add: PageDestroyed_def)
  ultimately have "filter (\<lambda>observed. observed \<noteq> None) (ctl_instrumentation (PageDestroyed wc c)) =
      filter (\<lambda>observed. observed \<noteq> Some wc) (filter (\<lambda>observed. observed \<noteq> None) (ctl_instrumentation c))"
    by (simp only:)
  with assms show ?thesis unfolding observers_single_def by (metis distinct_filter)
qed

lemma controllers_ok_simps [simp]:
  "controllers_ok ok None" "controllers_ok ok (Some c) = controller_ok ok c"
  "controller_ok ok (RefreshSharedRuntimeBehavior V c) = controller_ok ok c"
  "controller_ok ok (c\<lparr>ctl_runtime := Some rt\<rparr>) = ok rt"
  by (simp_all add: controllers_ok_def controller_ok_def)

lemma wp_with_runtime:
  assumes "Q e s" "\<And>c rt. s = Some c \<Longrightarrow> ctl_runtime c = Some rt \<Longrightarrow> wp (k c rt) pages M Q s"
  shows "wp (with_runtime e s k) pages M Q s"
  using assms by (cases s) (simp_all add: with_runtime_def split: option.split)

context page_owner
begin

lemma resolve_live:
  assumes "controller_ok inv c" "ResolveWebContents V t c = Some wc"
  shows "wc \<in> live (controller_pages V) (Some c)"
  using assms active_owned lookup_owned
  by (auto simp: controller_ok_def ResolveWebContents_def live_def controller_pages_def
      split: option.splits if_splits)

lemma wp_status_page:
  assumes "controllers_ok inv s"
    and "s = None \<Longrightarrow> Q session_not_ready s"
    and "s \<noteq> None \<Longrightarrow> Q (TabNotFound t) s"
    and "\<And>wc. wc \<in> live (controller_pages V) s \<Longrightarrow> wp (k wc) (controller_pages V) M Q s"
  shows "wp (status_page V t k) (controller_pages V) M Q s"
  using assms resolve_live by (auto simp: status_page_def split: option.split)

lemma wp_result_page:
  assumes "controllers_ok inv s"
    and "\<And>code m. code \<noteq> kOk \<Longrightarrow> Q (ResultError code m) s"
    and "\<And>wc. wc \<in> live (controller_pages V) s \<Longrightarrow> wp (k wc) (controller_pages V) M Q s"
  shows "wp (result_page V t k) (controller_pages V) M Q s"
  using assms resolve_live by (auto simp: result_page_def split: option.split)

lemma wp_posted:
  assumes "\<And>s. controllers_ok ok s \<Longrightarrow> wp t (controller_pages V) (meanwhile ok) Q s" "controllers_ok ok s"
  shows "wp (RunOrPost now t) (controller_pages V) (meanwhile ok) Q s"
  using assms by (intro wp_RunOrPost) (auto simp: meanwhile_def)

text \<open>Operations that answer a status.\<close>

lemma list_tabs_wp:
  assumes "controllers_ok inv s"
  shows "wp (CtlListTabs V now) (controller_pages V) (meanwhile inv)
    (\<lambda>r s. result_wf r \<and> controllers_ok inv s) s"
  unfolding CtlListTabs_def
  by (rule wp_posted [OF _ assms])
    (auto intro!: wp_with_runtime simp: result_not_ready_def controller_ok_def)

lemma close_tab_wp:
  assumes "controllers_ok inv s"
  shows "wp (CtlCloseTab V now t) (controller_pages V) (meanwhile inv) (\<lambda>r s. controllers_ok inv s) s"
  unfolding CtlCloseTab_def
proof (rule wp_posted [OF _ assms])
  fix s :: "'rt controller option" assume ok: "controllers_ok inv s"
  have "inv rt'" if "s = Some c" "ctl_runtime c = Some rt" "op_close V t rt = (b, rt')" for c rt b rt'
    using ok that close_inv by (auto simp: controller_ok_def)
  with ok show "wp (Self (\<lambda>self. with_runtime session_not_ready self (\<lambda>c rt.
       let (closed, rt') = op_close V t rt;
           c' = c\<lparr>ctl_runtime := Some rt'\<rparr>
       in if \<not> closed then Put c' (Answer (TabNotFound t))
          else Put (RefreshSharedRuntimeBehavior V c') (Answer StatusOk)))) (controller_pages V) (meanwhile inv)
        (\<lambda>r s. controllers_ok inv s) s"
    by (auto intro!: wp_with_runtime simp: Let_def split: prod.split)
qed

lemma resize_wp:
  assumes "controllers_ok inv s"
  shows "wp (CtlResizeActive V now z) (controller_pages V) (meanwhile inv) (\<lambda>r s. controllers_ok inv s) s"
  unfolding CtlResizeActive_def
  by (rule wp_posted [OF _ assms]) (auto intro!: wp_with_runtime resize_inv simp: controller_ok_def)

lemma shutdown_wp:
  assumes "controllers_ok inv s"
  shows "wp (CtlShutdown V now) (controller_pages V) (meanwhile inv) (\<lambda>r s. controllers_ok inv s) s"
  unfolding CtlShutdown_def
  by (rule wp_posted [OF _ assms]) (auto intro!: wp_with_runtime shutdown_inv simp: controller_ok_def)

lemma navigate_wp:
  assumes "controllers_ok inv s"
  shows "wp (CtlNavigate V now t url) (controller_pages V) (meanwhile inv) (\<lambda>r s. controllers_ok inv s) s"
  unfolding CtlNavigate_def
  by (rule wp_posted [OF _ assms])
    (auto intro!: wp_with_runtime simp: resolve_live meanwhile_def split: option.split)

lemma history_wp:
  assumes "controllers_ok inv s"
  shows "wp (CtlNavigateBack V now t) (controller_pages V) (meanwhile inv) (\<lambda>r s. controllers_ok inv s) s"
    and "wp (CtlNavigateForward V now t) (controller_pages V) (meanwhile inv) (\<lambda>r s. controllers_ok inv s) s"
    and "wp (CtlReload V now t) (controller_pages V) (meanwhile inv) (\<lambda>r s. controllers_ok inv s) s"
  unfolding CtlNavigateBack_def CtlNavigateForward_def CtlReload_def
  by (rule wp_posted [OF _ assms], rule wp_status_page, simp_all add: meanwhile_def)+

lemma wait_for_wp:
  assumes "controllers_ok inv s" "c_add (wait_timeout_ms options) 1000 \<noteq> None"
  shows "wp (CtlWaitFor V L now t options) (controller_pages V) (meanwhile inv) (\<lambda>r s. controllers_ok inv s) s"
proof -
  have "c_add (if sint (wait_timeout_ms options) > 0 then wait_timeout_ms options else 30000) 1000 \<noteq> None"
    using assms(2) by (simp add: c_add_None)
  then obtain limit where
    l: "c_add (if sint (wait_timeout_ms options) > 0 then wait_timeout_ms options else 30000) 1000 = Some limit" by blast
  show ?thesis
    unfolding CtlWaitFor_def
    by (rule wp_posted [OF _ assms(1)], rule wp_status_page) (simp_all add: Let_def l meanwhile_def)
qed

lemma cookie_status_wp:
  assumes "controllers_ok inv s"
  shows "wp (CtlSetCookie V L now t so) (controller_pages V) (meanwhile inv) (\<lambda>r s. controllers_ok inv s) s"
    and "wp (CtlDeleteCookie V L now t d) (controller_pages V) (meanwhile inv) (\<lambda>r s. controllers_ok inv s) s"
    and "wp (CtlClearCookies V now t) (controller_pages V) (meanwhile inv) (\<lambda>r s. controllers_ok inv s) s"
  unfolding CtlSetCookie_def CtlDeleteCookie_def CtlClearCookies_def GetCookieManager_def
  by (rule wp_posted [OF _ assms], rule wp_status_page,
      simp_all add: meanwhile_def Let_def split: option.split)+

text \<open>Operations that answer a result.\<close>

lemma create_tab_wp:
  assumes "controllers_ok (\<lambda>rt. inv rt \<and> may_create rt) s"
  shows "wp (CtlCreateTab V now url) (controller_pages V) (meanwhile (\<lambda>rt. inv rt \<and> may_create rt))
    (\<lambda>r s. result_wf r \<and> controllers_ok inv s) s"
  unfolding CtlCreateTab_def
proof (rule wp_posted [OF _ assms], goal_cases)
  case (1 s)
  have weaken: "controllers_ok inv s" if "controllers_ok (\<lambda>rt. inv rt \<and> may_create rt) s" for s
    using that by (auto simp: controllers_ok_def controller_ok_def split: option.splits)
  have weaker: "controller_ok inv c" if "controller_ok (\<lambda>rt. inv rt \<and> may_create rt) c" for c
    using weaken [of "Some c"] that by simp
  have "inv rt'" if "s = Some c" "ctl_runtime c = Some rt" "op_create V url rt = (r, rt')" for c rt r rt'
    using 1 that create_inv by (auto simp: controller_ok_def)
  then show ?case
    using weaken [OF 1]
    by (auto intro!: wp_with_runtime resolve_live dest!: weaken weaker simp: result_not_ready_def Let_def meanwhile_def status_ok_def
        split: prod.split option.split)
qed

lemma result_error: "\<not> result_ok r \<Longrightarrow> st_code (res_status r) \<noteq> kOk"
  by (simp add: result_ok_def status_ok_def)

lemma evaluate_wp:
  assumes "controllers_ok inv s"
  shows "wp (CtlEvaluate V L now t js) (controller_pages V) (meanwhile inv)
      (\<lambda>r s. result_wf r \<and> controllers_ok inv s) s"
    and "wp (CtlConsoleMessages V now t) (controller_pages V) (meanwhile inv)
      (\<lambda>r s. result_wf r \<and> controllers_ok inv s) s"
    and "wp (CtlSnapshot V script now t) (controller_pages V) (meanwhile inv)
      (\<lambda>r s. result_wf r \<and> controllers_ok inv s) s"
    and "wp (CtlScreenshot V now t) (controller_pages V) (meanwhile inv)
      (\<lambda>r s. result_wf r \<and> controllers_ok inv s) s"
  unfolding CtlEvaluate_def CtlConsoleMessages_def CtlSnapshot_def CtlScreenshot_def
  by (rule wp_posted [OF _ assms], rule wp_result_page,
      auto simp: meanwhile_def result_error result_wf_def [of r for r :: evaluation]
        split: option.split json.split)+

lemma list_cookies_wp:
  assumes "controllers_ok inv s"
  shows "wp (CtlListCookies V L now t lo) (controller_pages V) (meanwhile inv)
      (\<lambda>r s. result_wf r \<and> controllers_ok inv s) s"
  unfolding CtlListCookies_def GetCookieManager_def
  by (rule wp_posted [OF _ assms], rule wp_result_page) (simp_all add: meanwhile_def)

lemma get_cookie_wp:
  assumes "controllers_ok inv s"
  shows "wp (CtlGetCookie V L now t g) (controller_pages V) (meanwhile inv)
      (\<lambda>r s. result_wf r \<and> controllers_ok inv s \<and> (\<forall>c. res_value r = Some c \<longrightarrow> ci_name c = cg_name g)) s"
  unfolding CtlGetCookie_def wp_then_task
  by (rule wp_mono [OF list_cookies_wp [OF assms]])
    (auto simp: result_error result_wf_def [of r for r :: "CookieInfo list BrowserResult"]
      split: option.split dest: find_SomeD)

end

end
