(* ===== verification/Controller_Runtimes.thy ===== *)
theory Controller_Runtimes
  imports Controller Gui_Runtime Headless_Runtime Chrome_Runtime
begin

section \<open>The three runtimes behind the controller\<close>

text \<open>
  Each runtime as the controller calls it. \<open>e\<close> is what the content layer gives when a tab is made,
  which may depend on the tabs there are.
\<close>

definition gui_class :: "base_lib \<Rightarrow> page_info \<Rightarrow> (gui_runtime \<Rightarrow> gui_env) \<Rightarrow> gui_runtime runtime_class" where
  "gui_class L page e =
     \<lparr>op_active = gui_active_web_contents, op_lookup = GuiGetWebContentsByTargetId,
      op_all = GuiAllWebContents, op_list = GuiListTabs page,
      op_create = (\<lambda>url s. GuiCreateTab L page (e s) (gurl_spec url) s),
      op_close = GuiCloseTab, op_resize = GuiResizeActive, op_shutdown = GuiShutdown\<rparr>"

definition gui_room :: "gui_runtime \<Rightarrow> bool" where
  "gui_room s \<longleftrightarrow> uint (gui_next_tab_id s) < 2 ^ 64 - 1"

definition headless_class ::
  "(nat \<Rightarrow> string) \<Rightarrow> page_info \<Rightarrow> (headless_runtime \<Rightarrow> headless_tab option) \<Rightarrow> headless_runtime runtime_class" where
  "headless_class fmt page e =
     \<lparr>op_active = hl_active, op_lookup = HlGetWebContentsByTargetId fmt,
      op_all = HlAllWebContents, op_list = HlListTabs fmt page,
      op_create = (\<lambda>url s. HlCreateTab fmt page (e s) (gurl_spec url) s),
      op_close = HlCloseTab fmt, op_resize = HlResizeActive, op_shutdown = HlShutdown\<rparr>"

definition chrome_class ::
  "(c_int \<Rightarrow> bool) \<Rightarrow> base_lib \<Rightarrow> page_info \<Rightarrow>
     (chrome_runtime \<Rightarrow> (nat \<times> chrome_runtime) option) \<Rightarrow>
     (nat \<Rightarrow> string \<Rightarrow> chrome_runtime \<Rightarrow> ((web_contents \<times> c_int) \<times> chrome_runtime) option) \<Rightarrow>
     (nat \<Rightarrow> int \<Rightarrow> chrome_runtime \<Rightarrow> chrome_runtime) \<Rightarrow> bool \<Rightarrow> chrome_runtime runtime_class" where
  "chrome_class valid L page open_window add_tab close_at profile_allowed =
     \<lparr>op_active = cr_active_web_contents, op_lookup = CrGetWebContentsByTargetId valid L,
      op_all = CrAllWebContents, op_list = CrListTabs valid L page,
      op_create = (\<lambda>url s. CrCreateTab valid L page open_window add_tab profile_allowed (gurl_spec url) s),
      op_close = CrCloseTab valid L close_at profile_allowed,
      op_resize = CrResizeActive profile_allowed, op_shutdown = CrShutdown\<rparr>"

lemmas class_defs = gui_class_def headless_class_def chrome_class_def

lemma gui_page_owned:
  "GuiFindTab t s = Some tab \<Longrightarrow> gt_contents tab \<in> set (GuiAllWebContents s)"
  using gui_find_id [of t s tab] by (simp add: GuiAllWebContents_def)

interpretation gui_pages: page_owner "gui_class L page e" "gui_ok L" gui_room for L page e
proof unfold_locales
  show "wc \<in> set (op_all (gui_class L page e) s)" if "op_active (gui_class L page e) s = Some wc" for s wc
    using that gui_page_owned by (auto simp: gui_class_def gui_active_web_contents_def GuiActiveTab_def)
  show "wc \<in> set (op_all (gui_class L page e) s)" if "op_lookup (gui_class L page e) t s = Some wc" for s t wc
    using that gui_page_owned by (auto simp: gui_class_def GuiGetWebContentsByTargetId_def)
  show "gui_ok L s'" if "gui_ok L s" "gui_room s" "op_create (gui_class L page e) u s = (r, s')" for s u r s'
    using gui_create_ok [of L s "e s" "gurl_spec u" page] that
    by (simp add: gui_class_def gui_fresh_def gui_room_def)
  show "gui_ok L s'" if "gui_ok L s" "op_close (gui_class L page e) i s = (b, s')" for s i b s'
    using gui_ok_close [of L s i] that by (simp add: gui_class_def)
qed (simp_all add: gui_class_def inv_intros)

lemma hl_page_owned: "t \<in> set (hl_all s) \<Longrightarrow> ht_web_contents t = Some wc \<Longrightarrow> wc \<in> set (HlAllWebContents s)"
  unfolding HlAllWebContents_def map_filter_def by force

lemma headless_ok_shutdown: "headless_ok fmt s \<Longrightarrow> headless_ok fmt (HlShutdown s)"
proof -
  have "hl_all (HlShutdown s) = hl_all s" "hl_active (HlShutdown s) = hl_active s"
    "hl_context (HlShutdown s) = hl_context s" by (simp_all add: HlShutdown_def hl_all_def)
  then show "headless_ok fmt s \<Longrightarrow> headless_ok fmt (HlShutdown s)" by (auto simp: headless_ok_def split: if_splits)
qed

interpretation headless_pages: page_owner "headless_class fmt page e" "headless_ok fmt"
  "\<lambda>s. hl_fresh (e s, []) s" for fmt page e
proof unfold_locales
  show "wc \<in> set (op_all (headless_class fmt page e) s)"
    if "headless_ok fmt s" "op_active (headless_class fmt page e) s = Some wc" for s wc
    using that
    by (auto simp: headless_class_def headless_ok_def intro: hl_page_owned split: if_splits)
  show "wc \<in> set (op_all (headless_class fmt page e) s)"
    if "op_lookup (headless_class fmt page e) t s = Some wc" for s t wc
    using that
    by (auto simp: headless_class_def HlGetWebContentsByTargetId_def HlFindByTargetId_def hl_all_def
        intro!: hl_page_owned split: option.splits dest!: find_SomeD)
  show "headless_ok fmt s'"
    if "headless_ok fmt s" "hl_fresh (e s, []) s" "op_create (headless_class fmt page e) u s = (r, s')" for s u r s'
  proof -
    have "hl_fresh (e s, gurl_spec u) s" using that(2) by (simp add: hl_fresh_def)
    moreover have "HlCreateTab fmt page (e s) (gurl_spec u) s = (r, s')" using that(3) by (simp add: headless_class_def)
    ultimately show ?thesis
      using hl_create [of fmt s "(e s, gurl_spec u)" page r s'] that(1) by (cases r) auto
  qed
  show "headless_ok fmt s'" if "headless_ok fmt s" "op_close (headless_class fmt page e) i s = (b, s')" for s i b s'
    using headless.close_inv [of fmt s i b s'] that by (simp add: headless_class_def)
  show "headless_ok fmt (op_shutdown (headless_class fmt page e) s)" if "headless_ok fmt s" for s
    using that by (simp add: headless_class_def headless_ok_shutdown)
qed (simp_all add: headless_class_def inv_intros)

lemma chrome_tab_owned:
  "w < length (cr_windows s) \<Longrightarrow> i < length (cw_tabs (cr_windows s ! w)) \<Longrightarrow>
     cw_tabs (cr_windows s ! w) ! i = (wc, j) \<Longrightarrow> wc \<in> set (CrAllWebContents s)"
  by (auto simp: CrAllWebContents_def intro!: bexI [of _ "cr_windows s ! w"]) (metis fst_conv image_eqI nth_mem)

interpretation chrome_pages: page_owner
  "chrome_class valid L page open_window add_tab close_at profile_allowed" "\<lambda>s. True" "\<lambda>s. True"
  for valid L page open_window add_tab close_at profile_allowed
proof unfold_locales
  show "wc \<in> set (op_all (chrome_class valid L page open_window add_tab close_at profile_allowed) s)"
    if "op_active (chrome_class valid L page open_window add_tab close_at profile_allowed) s = Some wc" for s wc
    using that chrome_tab_owned
    by (auto simp: chrome_class_def cr_active_web_contents_def window_at_def tab_at_def
        split: option.splits if_splits bind_splits)
  show "wc \<in> set (op_all (chrome_class valid L page open_window add_tab close_at profile_allowed) s)"
    if "op_lookup (chrome_class valid L page open_window add_tab close_at profile_allowed) t s = Some wc" for s t wc
  proof -
    from that obtain target w i where "locate target 0 (cr_windows s) = Some (w, wc, i)"
      by (auto simp: chrome_class_def CrGetWebContentsByTargetId_def CrFindTabByTargetId_def split: option.splits)
    from locate_Some [OF this] chrome_tab_owned [of w s i] show ?thesis by (auto simp: chrome_class_def)
  qed
qed simp_all

section \<open>Properties\<close>

text \<open>
  \<open>always\<close>: every run of the task from this controller ends like this, if it ends, whatever
  happens meanwhile that \<open>M\<close> allows. \<open>watched\<close> is what may happen when pages come and go and
  operations refresh the observers.
\<close>

definition always ::
  "base_lib \<Rightarrow> 'rt runtime_class \<Rightarrow> ('rt controller option \<Rightarrow> 'rt controller option \<Rightarrow> bool) \<Rightarrow>
     'rt controller option \<Rightarrow> ('rt controller, 'r) task \<Rightarrow> ('r \<Rightarrow> 'rt controller option \<Rightarrow> bool) \<Rightarrow> bool" where
  "always L V M s t Q \<longleftrightarrow> (\<forall>m tr res. run L (controller_pages V) M s m t tr res \<longrightarrow> outcome_ok Q res)"

definition watched :: "('rt \<Rightarrow> bool) \<Rightarrow> 'rt controller option \<Rightarrow> 'rt controller option \<Rightarrow> bool" where
  "watched ok s s' \<longleftrightarrow> controllers_ok ok s' \<and> (case s' of None \<Rightarrow> True | Some c \<Rightarrow> observers_single c)"

definition watched_now :: "'rt runtime_class \<Rightarrow> 'rt controller option \<Rightarrow> bool" where
  "watched_now V s \<longleftrightarrow> (case s of None \<Rightarrow> True | Some c \<Rightarrow> observers_ok V c)"

lemma always_wp: "wp t (controller_pages V) M Q s \<Longrightarrow> always L V M s t Q"
  unfolding always_def using run_wp by blast

lemma always_mono: "always L V M s t Q \<Longrightarrow> (\<And>r s. Q r s \<Longrightarrow> Q' r s) \<Longrightarrow> always L V M s t Q'"
  unfolding always_def outcome_ok_def by (fastforce split: outcome.splits)

lemma always_answered:
  "always L V M s t Q \<Longrightarrow> run L (controller_pages V) M s m t tr (Answered r s') \<Longrightarrow> Q r s'"
  unfolding always_def by (metis outcome_ok_simps(1))

text \<open>
  The operations of the controller that answer a result never crash and never read an empty
  optional, and each answer they give is well formed (it has a value exactly when it is ok),
  whichever runtime is behind the controller, whether the operation runs at once or is posted, and
  whatever becomes of the tabs and of the controller itself while it waits.
\<close>

lemma controller_results_well_formed:
  assumes "page_owner V ok room" "controllers_ok ok s"
  shows "always L V (meanwhile ok) s (CtlListTabs V now) (\<lambda>r _. result_wf r) \<and>
    always L V (meanwhile ok) s (CtlEvaluate V L now t js) (\<lambda>r _. result_wf r) \<and>
    always L V (meanwhile ok) s (CtlConsoleMessages V now t) (\<lambda>r _. result_wf r) \<and>
    always L V (meanwhile ok) s (CtlSnapshot V script now t) (\<lambda>r _. result_wf r) \<and>
    always L V (meanwhile ok) s (CtlScreenshot V now t) (\<lambda>r _. result_wf r) \<and>
    always L V (meanwhile ok) s (CtlListCookies V L now t lo) (\<lambda>r _. result_wf r) \<and>
    always L V (meanwhile ok) s (CtlGetCookie V L now t g) (\<lambda>r _. result_wf r)"
  by (intro conjI always_mono [OF always_wp [OF page_owner.list_tabs_wp [OF assms]]]
      always_mono [OF always_wp [OF page_owner.evaluate_wp(1) [OF assms]]]
      always_mono [OF always_wp [OF page_owner.evaluate_wp(2) [OF assms]]]
      always_mono [OF always_wp [OF page_owner.evaluate_wp(3) [OF assms]]]
      always_mono [OF always_wp [OF page_owner.evaluate_wp(4) [OF assms]]]
      always_mono [OF always_wp [OF page_owner.list_cookies_wp [OF assms]]]
      always_mono [OF always_wp [OF page_owner.get_cookie_wp [OF assms]]]) simp_all

definition demo_env :: "gui_runtime \<Rightarrow> gui_env" where
  "demo_env s = \<lparr>ge_contents = Some (7 + length (gui_tabs s)), ge_window = True\<rparr>"

definition demo_class :: "gui_runtime runtime_class" where
  "demo_class = gui_class ref_lib demo_page demo_env"

definition demo_controller :: "gui_runtime controller" where
  "demo_controller = new_controller demo_class (Some demo_gui)"

lemma demo_class_owner: "page_owner demo_class (gui_ok ref_lib) gui_room"
  unfolding demo_class_def by (rule gui_pages.page_owner_axioms)

lemma demo_gui_ok: "gui_ok ref_lib demo_gui"
  by (rule gui_run_ok [OF demo_gui_run number_law_ref_lib])

lemma demo_controller_runtime [simp]: "ctl_runtime demo_controller = Some demo_gui"
  by (simp add: demo_controller_def new_controller_def)

lemma demo_controllers_ok: "controllers_ok (gui_ok ref_lib) (Some demo_controller)"
  by (simp add: controller_ok_def demo_gui_ok)

lemma controller_results_well_formed_witness:
  "\<not> run ref_lib (controller_pages demo_class) (meanwhile (gui_ok ref_lib)) (Some demo_controller) \<lparr>pt_x = 0, pt_y = 0\<rparr>
     (CtlEvaluate demo_class ref_lib False None ''1'') [] Crashed"
  using controller_results_well_formed [OF demo_class_owner demo_controllers_ok]
  unfolding always_def by (metis outcome_ok_simps(3))

text \<open>
  C32: closing a tab, resizing, shutting down, navigating, going back and forward, reloading, setting, deleting and clearing
  cookies never crash, whatever becomes of the tabs and of the controller while they wait, and each leaves the controller and
  its runtime in order when it answers; so does waiting for an element or a text as long as its timeout is at most the largest
  \<open>int\<close> less a second. Clicking, hovering, typing, keys, selecting, dragging and scrolling are not among them: those
  use their page again after a pause, and one of them on a tab that was closed meanwhile can crash.
\<close>

theorem tab_page_and_cookie_operations_safe:
  assumes "page_owner V ok room" "controllers_ok ok s"
  shows "always L V (meanwhile ok) s (CtlCloseTab V now t) (\<lambda>_. controllers_ok ok) \<and>
    always L V (meanwhile ok) s (CtlResizeActive V now z) (\<lambda>_. controllers_ok ok) \<and>
    always L V (meanwhile ok) s (CtlShutdown V now) (\<lambda>_. controllers_ok ok) \<and>
    always L V (meanwhile ok) s (CtlNavigate V now t url) (\<lambda>_. controllers_ok ok) \<and>
    always L V (meanwhile ok) s (CtlNavigateBack V now t) (\<lambda>_. controllers_ok ok) \<and>
    always L V (meanwhile ok) s (CtlNavigateForward V now t) (\<lambda>_. controllers_ok ok) \<and>
    always L V (meanwhile ok) s (CtlReload V now t) (\<lambda>_. controllers_ok ok) \<and>
    always L V (meanwhile ok) s (CtlSetCookie V L now t so) (\<lambda>_. controllers_ok ok) \<and>
    always L V (meanwhile ok) s (CtlDeleteCookie V L now t d) (\<lambda>_. controllers_ok ok) \<and>
    always L V (meanwhile ok) s (CtlClearCookies V now t) (\<lambda>_. controllers_ok ok) \<and>
    (sint (wait_timeout_ms w) \<le> 2147482647 \<longrightarrow>
       always L V (meanwhile ok) s (CtlWaitFor V L now t w) (\<lambda>_. controllers_ok ok))"
proof -
  have "c_add (wait_timeout_ms w) 1000 \<noteq> None" if "sint (wait_timeout_ms w) \<le> 2147482647"
    using that sint_c_int_bounds [of "wait_timeout_ms w"] by (simp add: c_add_None)
  then show ?thesis
    by (intro conjI impI always_wp page_owner.close_tab_wp [OF assms] page_owner.resize_wp [OF assms]
        page_owner.shutdown_wp [OF assms] page_owner.navigate_wp [OF assms] page_owner.history_wp [OF assms]
        page_owner.cookie_status_wp [OF assms] page_owner.wait_for_wp [OF assms]) simp
qed

theorem tab_page_and_cookie_operations_safe_witness:
  "\<not> run ref_lib (controller_pages demo_class) (meanwhile (gui_ok ref_lib)) (Some demo_controller) \<lparr>pt_x = 0, pt_y = 0\<rparr>
     (CtlNavigate demo_class False (Some ''gui-1'') (plain_gurl ''http://a/'')) [] Crashed"
  using tab_page_and_cookie_operations_safe [OF demo_class_owner demo_controllers_ok, where w = default_wait_options]
  unfolding always_def by (metis outcome_ok_simps(3))

lemma wait_for_overflow_wp:
  assumes "wc \<in> live (controller_pages V) (Some c)" "ResolveWebContents V t c = Some wc"
    and "wait_selector w \<noteq> None \<or> wait_text w \<noteq> None"
    and "run L (controller_pages V) M (Some c) m (CtlWaitFor V L True t w) tr res"
  shows "res = Crashed \<longleftrightarrow> c_add (if sint (wait_timeout_ms w) > 0 then wait_timeout_ms w else 30000) 1000 = None"
proof (cases "c_add (if sint (wait_timeout_ms w) > 0 then wait_timeout_ms w else 30000) 1000")
  case None
  with assms show ?thesis
    by (auto simp: CtlWaitFor_def RunOrPost_def status_page_def Let_def elim!: run_SelfE run_UndefinedE)
next
  case (Some limit)
  have "wp (CtlWaitFor V L True t w) (controller_pages V) M (\<lambda>_ _. True) (Some c)"
    using assms(1-3) Some by (auto simp: CtlWaitFor_def RunOrPost_def status_page_def Let_def)
  from run_wp [OF assms(4) this] Some show ?thesis by (auto simp: outcome_ok_def)
qed

text \<open>
  \<open>WaitFor\<close> on a page that is there has undefined behaviour exactly when its timeout is within
  a second of the largest \<open>int\<close>: \<open>timeout + 1000\<close>, the limit of the evaluation, overflows. The
  timeout comes from the tool's arguments unchecked.
\<close>

lemma wait_for_overflow:
  assumes "page_owner V ok room" "controller_ok ok c" "ResolveWebContents V t c = Some wc"
    and "wait_selector w \<noteq> None \<or> wait_text w \<noteq> None"
    and "run L (controller_pages V) M (Some c) m (CtlWaitFor V L True t w) tr res"
  shows "res = Crashed \<longleftrightarrow> sint (wait_timeout_ms w) > 2147482647"
proof -
  have live: "wc \<in> live (controller_pages V) (Some c)"
    by (rule page_owner.resolve_live [OF assms(1-3)])
  have "c_add (if sint (wait_timeout_ms w) > 0 then wait_timeout_ms w else 30000) 1000 = None \<longleftrightarrow>
      sint (wait_timeout_ms w) > 2147482647"
    using sint_c_int_bounds [of "wait_timeout_ms w"] by (auto simp: c_add_None)
  with wait_for_overflow_wp [OF live assms(3-5)] show ?thesis by simp
qed

lemma wait_for_overflow_witness:
  "run ref_lib (controller_pages demo_class) (\<lambda>s s'. True) (Some demo_controller) \<lparr>pt_x = 0, pt_y = 0\<rparr>
     (CtlWaitFor demo_class ref_lib True None
        \<lparr>wait_selector = None, wait_text = Some ''x'', wait_timeout_ms = 2147483647\<rparr>) [] Crashed \<and>
   sint (2147483647 :: c_int) > 2147482647"
proof -
  let ?w = "\<lparr>wait_selector = None, wait_text = Some ''x'', wait_timeout_ms = 2147483647\<rparr> :: WaitOptions"
  have resolve: "ResolveWebContents demo_class None demo_controller = Some 8" by code_simp
  have "c_add 2147483647 1000 = None" by code_simp
  then have run: "run ref_lib (controller_pages demo_class) (\<lambda>s s'. True) (Some demo_controller) \<lparr>pt_x = 0, pt_y = 0\<rparr>
     (CtlWaitFor demo_class ref_lib True None ?w) [] Crashed"
    unfolding CtlWaitFor_def RunOrPost_def status_page_def with_runtime_def if_True
    by (intro run.self; simp add: resolve Let_def run.undefined)
  with wait_for_overflow [OF demo_class_owner demo_controllers_ok [simplified] resolve _ run] show ?thesis by simp
qed

lemma list_tabs_watched:
  "wp (CtlListTabs V now) (controller_pages V) (watched ok) (\<lambda>r s. result_ok r \<longrightarrow> s \<noteq> None \<and> watched_now V s) s"
  if "case s of None \<Rightarrow> True | Some c \<Rightarrow> observers_single c"
  unfolding CtlListTabs_def
  using that
  by (intro wp_RunOrPost; auto intro!: wp_with_runtime
      simp: watched_def watched_now_def result_not_ready_def refresh_observers)

text \<open>An operation that does not wait runs to its answer.\<close>

definition answers_now where
  "answers_now L pages M s m t \<longleftrightarrow> (\<exists>r s'. run L pages M s m t [] (Answered r s'))"

lemma answers_nowI:
  "answers_now L pages M s m (Answer r)"
  "answers_now L pages M (Some c) m t \<Longrightarrow> answers_now L pages M s m (Put c t)"
  "answers_now L pages M s m (k s) \<Longrightarrow> answers_now L pages M s m (Self k)"
  unfolding answers_now_def by (blast intro: run.answer run.put run.self)+

lemma close_tab_run:
  "ctl_runtime c = Some rt \<Longrightarrow> answers_now L pages M (Some c) m (CtlCloseTab V True t)"
  unfolding CtlCloseTab_def RunOrPost_def
  by (cases "op_close V t rt") (auto simp: with_runtime_def Let_def intro!: answers_nowI)

lemma demo_controller_single: "observers_single demo_controller"
  unfolding demo_controller_def new_controller_def
  by (rule observers_ok_single [OF refresh_observers]) (simp add: observers_single_def)

lemma observers_single_runtime [simp]: "observers_single (c\<lparr>ctl_runtime := rt\<rparr>) = observers_single c"
  by (simp add: observers_single_def)

lemma close_tab_watched:
  "wp (CtlCloseTab V now t) (controller_pages V) (watched ok) (\<lambda>r s. r = StatusOk \<longrightarrow> s \<noteq> None \<and> watched_now V s) s"
  if "case s of None \<Rightarrow> True | Some c \<Rightarrow> observers_single c"
  unfolding CtlCloseTab_def
  using that
  by (intro wp_RunOrPost; auto intro!: wp_with_runtime simp: watched_def watched_now_def session_not_ready_def
      TabNotFound_def Let_def refresh_observers split: prod.split)

text \<open>
  C30: after an operation that lists or closes tabs every page of the runtime has exactly one
  console observer, no other page has one, and the simulator moves over the active page: nothing
  is left of the pages that went away, also of those that went away on their own.
\<close>

theorem tab_operations_observe_exactly:
  assumes "case s of None \<Rightarrow> True | Some c \<Rightarrow> observers_single c"
  shows "always L V (watched ok) s (CtlListTabs V now) (\<lambda>r s. result_ok r \<longrightarrow> s \<noteq> None \<and> watched_now V s) \<and>
    always L V (watched ok) s (CtlCloseTab V now t) (\<lambda>r s. r = StatusOk \<longrightarrow> s \<noteq> None \<and> watched_now V s)"
  by (intro conjI always_wp list_tabs_watched close_tab_watched assms)

theorem tab_operations_observe_exactly_witness:
  "always ref_lib demo_class (watched (gui_ok ref_lib)) (Some (PageDestroyed 8 demo_controller))
     (CtlListTabs demo_class False) (\<lambda>r s. if result_ok r then s \<noteq> None \<and> watched_now demo_class s else True)"
proof -
  have "case Some (PageDestroyed 8 demo_controller) of None \<Rightarrow> True | Some c \<Rightarrow> observers_single c"
    using page_destroyed_single [OF demo_controller_single] by simp
  from conjunct1 [OF tab_operations_observe_exactly [OF this]] show ?thesis
    by (rule always_mono) simp
qed

text \<open>
  A cookie that \<open>GetCookie\<close> answers has the name that was asked for, and the other answers are
  errors.
\<close>

lemma get_cookie_has_the_name:
  assumes "page_owner V ok room" "controllers_ok ok s"
  shows "always L V (meanwhile ok) s (CtlGetCookie V L now t g)
    (\<lambda>r _. case res_value r of Some c \<Rightarrow> result_ok r \<and> ci_name c = cg_name g | None \<Rightarrow> \<not> result_ok r)"
  by (rule always_mono [OF always_wp [OF page_owner.get_cookie_wp [OF assms]]])
    (auto simp: result_wf_def split: option.split)

lemma get_cookie_has_the_name_witness:
  "\<forall>r s. run ref_lib (controller_pages demo_class) (meanwhile (gui_ok ref_lib)) (Some demo_controller) \<lparr>pt_x = 0, pt_y = 0\<rparr>
     (CtlGetCookie demo_class ref_lib True None \<lparr>cg_name = ''id''\<rparr>) [] (Answered r s) \<longrightarrow>
     res_value r = None \<or> ci_name (the (res_value r)) = ''id''"
  using get_cookie_has_the_name [OF demo_class_owner demo_controllers_ok, where g = "\<lparr>cg_name = ''id''\<rparr>"]
  unfolding always_def by (fastforce split: option.splits)

text \<open>
  Creating a tab through the controller, with nothing else happening: the GUI runtime has one
  tab more, at the end and active, and it keeps it whether or not its first navigation succeeds. An
  ok answer names that tab, \<open>about:blank\<close> is answered without waiting, and a failed navigation is
  answered with an error though the tab is open.
\<close>

lemma controller_create_tab:
  assumes "gui_ok L rt" "gui_room rt" "ctl_runtime c = Some rt" "gurl_is_valid url"
    and "GuiCreateTab L page (e rt) (gurl_spec url) rt = (Some tab, rt')"
  shows "always L (gui_class L page e) (=) (Some c) (CtlCreateTab (gui_class L page e) True url)
    (\<lambda>r s. (\<exists>c'. s = Some c' \<and> ctl_runtime c' = Some rt') \<and>
       gui_ids rt' = gui_ids rt @ [tab_target_id tab] \<and> gui_active_id rt' = Some (tab_target_id tab) \<and>
       (gurl_spec url = ''about:blank'' \<longrightarrow> r = ResultOk tab) \<and>
       (case res_value r of None \<Rightarrow> \<not> result_ok r | Some i \<Rightarrow> tab_target_id i = tab_target_id tab))"
proof -
  let ?V = "gui_class L page e"
  have "gui_create_id L page (e rt, gurl_spec url) rt = (Some (tab_target_id tab), rt')"
    using assms(5) by (simp add: gui_create_id_def)
  moreover have "gui_fresh (e rt, gurl_spec url) rt" using assms(2) by (simp add: gui_fresh_def gui_room_def)
  ultimately have made: "gui_ok L rt'" "gui_ids rt' = gui_ids rt @ [tab_target_id tab]"
    "gui_active_id rt' = Some (tab_target_id tab)"
    using gui.create_some [OF assms(1)] by blast+
  have create: "op_create ?V url rt = (Some tab, rt')" using assms(5) by (simp add: gui_class_def)
  have "controller_ok (gui_ok L) (RefreshSharedRuntimeBehavior ?V (c\<lparr>ctl_runtime := Some rt'\<rparr>))"
    using made(1) by simp
  note live = gui_pages.resolve_live [OF this]
  show ?thesis
    by (rule always_wp)
      (auto simp: CtlCreateTab_def RunOrPost_def with_runtime_def Let_def assms(3,4) create made status_ok_def live
        split: option.split dest: find_SomeD)
qed

lemma create_blank_run:
  "ctl_runtime c = Some rt \<Longrightarrow> gurl_is_valid u \<Longrightarrow> gurl_spec u = ''about:blank'' \<Longrightarrow>
     answers_now L pages M (Some c) m (CtlCreateTab V True u)"
  unfolding CtlCreateTab_def RunOrPost_def
  by (cases "op_create V u rt") (auto simp: with_runtime_def Let_def intro!: answers_nowI split: option.split)

lemma controller_create_tab_witness:
  "\<exists>r s. run ref_lib (controller_pages demo_class) (=) (Some demo_controller) \<lparr>pt_x = 0, pt_y = 0\<rparr>
     (CtlCreateTab demo_class True (plain_gurl ''about:blank'')) [] (Answered r s) \<and>
     map_option tab_target_id (res_value r) = Some ''gui-3''"
proof -
  let ?t = "\<lparr>tab_target_id = ''gui-3'', tab_title = ''page'', tab_url = ''about:blank''\<rparr>"
  let ?c = "GuiCreateTab ref_lib demo_page (demo_env demo_gui) (gurl_spec (plain_gurl ''about:blank'')) demo_gui"
  have "fst ?c = Some ?t" by code_simp
  then have c: "?c = (Some ?t, snd ?c)" by (metis prod.collapse)
  have "gui_next_tab_id demo_gui = 3" by code_simp
  then have room: "gui_room demo_gui" by (simp add: gui_room_def)
  have valid: "gurl_is_valid (plain_gurl ''about:blank'')" and spec: "gurl_spec (plain_gurl ''about:blank'') = ''about:blank''"
    by code_simp+
  obtain r s where run: "run ref_lib (controller_pages demo_class) (=) (Some demo_controller) \<lparr>pt_x = 0, pt_y = 0\<rparr>
     (CtlCreateTab demo_class True (plain_gurl ''about:blank'')) [] (Answered r s)"
    using create_blank_run [OF demo_controller_runtime valid spec] unfolding answers_now_def by blast
  from controller_create_tab [where e = demo_env and c = demo_controller, OF demo_gui_ok room demo_controller_runtime valid c]
  have "always ref_lib demo_class (=) (Some demo_controller) (CtlCreateTab demo_class True (plain_gurl ''about:blank''))
      (\<lambda>r s. r = ResultOk ?t)"
    unfolding demo_class_def by (rule always_mono) (simp add: spec)
  from always_answered [OF this run] run show ?thesis by auto
qed

text \<open>
  C23: closing a tab of the GUI runtime by its target id through the controller answers ok exactly
  when there is such a tab, and then that tab alone is gone and the observers fit the tabs left;
  otherwise it answers that the tab was not found and changes nothing.
\<close>

theorem controller_close_tab:
  assumes "gui_ok L rt" "ctl_runtime c = Some rt" "observers_single c"
  shows "always L (gui_class L page e) M (Some c) (CtlCloseTab (gui_class L page e) True (Some t))
    (\<lambda>r s. r = (if t \<in> set (gui_ids rt) then StatusOk else TabNotFound (Some t)) \<and>
       (\<exists>c' rt'. s = Some c' \<and> ctl_runtime c' = Some rt' \<and> gui_ids rt' = filter (\<lambda>u. u \<noteq> t) (gui_ids rt) \<and>
          (if t \<in> set (gui_ids rt) then observers_ok (gui_class L page e) c' else rt' = rt)))"
proof (cases "t \<in> set (gui_ids rt)")
  case True
  obtain b rt' where close: "GuiCloseTab (Some t) rt = (b, rt')" by fastforce
  from gui.close_known [OF assms(1) True this] show ?thesis
    by (intro always_wp) (simp add: CtlCloseTab_def RunOrPost_def with_runtime_def assms(2,3) True close
        gui_class_def refresh_observers)
next
  case False
  then have "filter (\<lambda>u. u \<noteq> t) (gui_ids rt) = gui_ids rt" by (auto simp: filter_id_conv)
  with gui.close_unknown [OF assms(1) False] show ?thesis
    by (intro always_wp) (simp add: CtlCloseTab_def RunOrPost_def with_runtime_def assms(2) False gui_class_def)
qed

theorem controller_close_tab_witness:
  "\<exists>c rt. run ref_lib (controller_pages demo_class) (=) (Some demo_controller) \<lparr>pt_x = 0, pt_y = 0\<rparr>
     (CtlCloseTab demo_class True (Some ''gui-1'')) [] (Answered StatusOk (Some c)) \<and>
     ctl_runtime c = Some rt \<and> gui_ids rt = [''gui-2'']"
proof -
  obtain r s where run: "run ref_lib (controller_pages demo_class) (=) (Some demo_controller) \<lparr>pt_x = 0, pt_y = 0\<rparr>
     (CtlCloseTab demo_class True (Some ''gui-1'')) [] (Answered r s)"
    using close_tab_run [OF demo_controller_runtime] unfolding answers_now_def by blast
  have ids: "gui_ids demo_gui = [''gui-1'', ''gui-2'']" by code_simp
  from controller_close_tab [where t = "''gui-1''" and e = demo_env and L = ref_lib and page = demo_page and M = "(=)",
      OF demo_gui_ok demo_controller_runtime demo_controller_single]
  have "always ref_lib demo_class (=) (Some demo_controller) (CtlCloseTab demo_class True (Some ''gui-1''))
      (\<lambda>r s. r = StatusOk \<and> (\<exists>c rt. s = Some c \<and> ctl_runtime c = Some rt \<and> gui_ids rt = [''gui-2'']))"
    unfolding demo_class_def by (rule always_mono) (auto simp: ids)
  from always_answered [OF this run] run show ?thesis by auto
qed

end
