(* ===== verification/Input.thy ===== *)
theory Input
  imports Task
begin

section \<open>Keys, mouse paths and scripts (\<open>core/browser_interactions.cc\<close>)\<close>

text \<open>
  The pure part of the interactions: how a reference names an element, what key a character is,
  the points of a mouse path, and the scripts that act on an element of the page.
\<close>

subsection \<open>References\<close>

definition ParseRef :: "base_lib \<Rightarrow> string \<Rightarrow> c_int option" where
  "ParseRef L ref = lib_string_to_int L ref"

definition ParseDomRef :: "base_lib \<Rightarrow> string \<Rightarrow> c_int option" where
  "ParseDomRef L ref =
     (if \<not> std_prefix ''dom:'' ref then None
      else
        case lib_string_to_int L (drop (length ''dom:'') ref) of
          None \<Rightarrow> None
        | Some index \<Rightarrow> if sint index \<ge> 0 then Some index else None)"

subsection \<open>Scripts\<close>

definition DomRefPrelude :: "base_lib \<Rightarrow> c_int \<Rightarrow> string" where
  "DomRefPrelude L index =
     ''const el = window.__browserdDomRefs && '' @ ''window.__browserdDomRefs['' @
     lib_number_to_string L (sint index) @ ''];'' @ ''if (!el || !el.isConnected) '' @
     ''  return 'Error: element ref not found; call browser_snapshot again';''"

definition DomClickExpression :: "base_lib \<Rightarrow> c_int \<Rightarrow> string" where
  "DomClickExpression L index =
     ''(() => {'' @ ''  '' @ DomRefPrelude L index @
     ''  el.scrollIntoView({block:'center', inline:'center'});'' @
     ''  if (el.focus) el.focus({preventScroll:true});'' @
     ''  const r = el.getBoundingClientRect();'' @ ''  const x = r.left + r.width / 2;'' @
     ''  const y = r.top + r.height / 2;'' @
     ''  const opts = {bubbles:true, cancelable:true, view:window, clientX:x, clientY:y};'' @
     ''  for (const type of ['mouseover','mousemove','mousedown','mouseup','click']) {'' @
     ''    el.dispatchEvent(new MouseEvent(type, opts));'' @ ''  }'' @
     ''  return 'Clicked element';'' @ ''})()''"

definition DomHoverExpression :: "base_lib \<Rightarrow> c_int \<Rightarrow> string" where
  "DomHoverExpression L index =
     ''(() => {'' @ ''  '' @ DomRefPrelude L index @
     ''  el.scrollIntoView({block:'center', inline:'center'});'' @
     ''  const r = el.getBoundingClientRect();'' @ ''  const x = r.left + r.width / 2;'' @
     ''  const y = r.top + r.height / 2;'' @
     ''  const opts = {bubbles:true, cancelable:true, view:window, clientX:x, clientY:y};'' @
     ''  el.dispatchEvent(new MouseEvent('mouseover', opts));'' @
     ''  el.dispatchEvent(new MouseEvent('mousemove', opts));'' @
     ''  return 'Hovered over element';'' @ ''})()''"

definition DomTypeExpression :: "base_lib \<Rightarrow> c_int \<Rightarrow> string \<Rightarrow> bool \<Rightarrow> string" where
  "DomTypeExpression L index t clear =
     ''(() => {'' @ ''  '' @ DomRefPrelude L index @ ''  const text = '' @ lib_quote L t @ '';'' @
     ''  el.scrollIntoView({block:'center', inline:'center'});'' @
     ''  if (el.focus) el.focus({preventScroll:true});'' @
     ''  const tag = el.tagName ? el.tagName.toLowerCase() : '' @ [CHR 0x27, CHR 0x27] @ '';'' @
     ''  if (tag === 'input' || tag === 'textarea') {'' @ ''    if ('' @ (if clear then ''true'' else ''false'') @ '') el.value = '' @ [CHR 0x27, CHR 0x27] @ '';'' @
     ''    if (typeof el.setRangeText === 'function') {'' @
     ''      const start = el.selectionStart ?? el.value.length;'' @
     ''      const end = el.selectionEnd ?? el.value.length;'' @
     ''      el.setRangeText(text, start, end, 'end');'' @ ''    } else {'' @
     ''      el.value += text;'' @ ''    }'' @
     ''    el.dispatchEvent(new InputEvent('input', {bubbles:true, inputType:'insertText', data:text}));'' @
     ''    el.dispatchEvent(new Event('change', {bubbles:true}));'' @
     ''    return 'Typed text';'' @ ''  }'' @ ''  if (el.isContentEditable) {'' @ ''    if ('' @
     (if clear then ''true'' else ''false'') @ '') el.textContent = '' @ [CHR 0x27, CHR 0x27] @ '';'' @
     ''    document.execCommand('insertText', false, text);'' @
     ''    el.dispatchEvent(new InputEvent('input', {bubbles:true, inputType:'insertText', data:text}));'' @
     ''    return 'Typed text';'' @ ''  }'' @ ''  return 'Error: element does not accept text';'' @
     ''})()''"

text \<open>The quoted values, with commas between them.\<close>

fun join_values :: "base_lib \<Rightarrow> string \<Rightarrow> string list \<Rightarrow> string" where
  "join_values L js_values [] = js_values"
| "join_values L js_values (v # vs) =
     join_values L ((if js_values \<noteq> [] then js_values @ '','' else js_values) @ lib_quote L v) vs"

definition DomSelectExpression :: "base_lib \<Rightarrow> c_int \<Rightarrow> string list \<Rightarrow> string" where
  "DomSelectExpression L index values =
     ''(() => {'' @ ''  '' @ DomRefPrelude L index @ ''  if (!el || el.tagName !== 'SELECT')'' @
     ''    return 'Error: element is not a select';'' @ ''  const vals = ['' @
     join_values L [] values @ ''];'' @ ''  Array.from(el.options).forEach(o => {'' @
     ''    o.selected = vals.includes(o.value);'' @ ''  });'' @
     ''  el.dispatchEvent(new Event('input', {bubbles: true}));'' @
     ''  el.dispatchEvent(new Event('change', {bubbles: true}));'' @
     ''  return 'Selected ' + vals.length + ' option(s)';'' @ ''})()''"

definition DomDragExpression :: "base_lib \<Rightarrow> c_int \<Rightarrow> c_int \<Rightarrow> string" where
  "DomDragExpression L start_index end_index =
     ''(() => {'' @ ''  const source = window.__browserdDomRefs && '' @
     ''window.__browserdDomRefs['' @ lib_number_to_string L (sint start_index) @ ''];'' @
     ''  const target = window.__browserdDomRefs && '' @ ''window.__browserdDomRefs['' @
     lib_number_to_string L (sint end_index) @ ''];'' @
     ''  if (!source || !source.isConnected || !target || !target.isConnected)'' @
     ''    return 'Error: element ref not found; call browser_snapshot again';'' @
     ''  const dt = new DataTransfer();'' @
     ''  source.scrollIntoView({block:'center', inline:'center'});'' @
     ''  const sr = source.getBoundingClientRect();'' @
     ''  const tr = target.getBoundingClientRect();'' @
     ''  const startOpts = {bubbles:true, cancelable:true, dataTransfer:dt, clientX:sr.left + sr.width / 2, clientY:sr.top + sr.height / 2};'' @
     ''  const endOpts = {bubbles:true, cancelable:true, dataTransfer:dt, clientX:tr.left + tr.width / 2, clientY:tr.top + tr.height / 2};'' @
     ''  source.dispatchEvent(new DragEvent('dragstart', startOpts));'' @
     ''  target.scrollIntoView({block:'center', inline:'center'});'' @
     ''  target.dispatchEvent(new DragEvent('dragenter', endOpts));'' @
     ''  target.dispatchEvent(new DragEvent('dragover', endOpts));'' @
     ''  target.dispatchEvent(new DragEvent('drop', endOpts));'' @
     ''  source.dispatchEvent(new DragEvent('dragend', endOpts));'' @
     ''  return 'Drag and drop completed';'' @ ''})()''"

definition SelectFocusedExpression :: "base_lib \<Rightarrow> string list \<Rightarrow> string" where
  "SelectFocusedExpression L values =
     ''(() => {'' @ ''  const el = document.activeElement;'' @
     ''  if (!el || el.tagName !== 'SELECT')'' @
     ''    return 'Error: focused element is not a select';'' @ ''  const vals = ['' @
     join_values L [] values @ ''];'' @ ''  Array.from(el.options).forEach(o => {'' @
     ''    o.selected = vals.includes(o.value);'' @ ''  });'' @
     ''  el.dispatchEvent(new Event('change', {bubbles: true}));'' @
     ''  return 'Selected ' + vals.length + ' option(s)';'' @ ''})()''"

definition DragStartExpression :: "base_lib \<Rightarrow> c_int \<Rightarrow> c_int \<Rightarrow> string" where
  "DragStartExpression L x y =
     ''(() => {'' @ ''  var el = document.elementFromPoint('' @ lib_number_to_string L (sint x) @
     '','' @ lib_number_to_string L (sint y) @ '');'' @ ''  if (el) {'' @
     ''    var dt = new DataTransfer();'' @
     ''    el.dispatchEvent(new DragEvent('dragstart', {bubbles:true, dataTransfer:dt}));'' @
     ''  }'' @ ''})()''"

definition DragEndExpression :: "base_lib \<Rightarrow> c_int \<Rightarrow> c_int \<Rightarrow> string" where
  "DragEndExpression L x y =
     ''(() => {'' @ ''  var el = document.elementFromPoint('' @ lib_number_to_string L (sint x) @
     '','' @ lib_number_to_string L (sint y) @ '');'' @ ''  if (el) {'' @
     ''    var dt = new DataTransfer();'' @
     ''    el.dispatchEvent(new DragEvent('drop', {bubbles:true, dataTransfer:dt}));'' @
     ''    el.dispatchEvent(new DragEvent('dragend', {bubbles:true, dataTransfer:dt}));'' @
     ''  }'' @ ''})()''"

subsection \<open>Keys\<close>

record key_mapping =
  km_windows_key_code :: windows_key_code
  km_modifiers :: modifiers
  km_dom_key :: dom_key

text \<open>The switch over the characters that are neither letters nor digits nor the blank.\<close>

definition punctuation :: "(char \<times> windows_key_code \<times> modifiers) list" where
  "punctuation =
     [(CHR ''!'', VKEY_DIGIT 1, kShiftKey), (CHR ''@'', VKEY_DIGIT 2, kShiftKey),
      (CHR ''#'', VKEY_DIGIT 3, kShiftKey), (CHR ''$'', VKEY_DIGIT 4, kShiftKey),
      (CHR ''%'', VKEY_DIGIT 5, kShiftKey), (CHR ''^'', VKEY_DIGIT 6, kShiftKey),
      (CHR ''&'', VKEY_DIGIT 7, kShiftKey), (CHR ''*'', VKEY_DIGIT 8, kShiftKey),
      (CHR ''('', VKEY_DIGIT 9, kShiftKey), (CHR '')'', VKEY_DIGIT 0, kShiftKey),
      (CHR ''-'', VKEY_OEM_MINUS, kNoModifiers), (CHR ''_'', VKEY_OEM_MINUS, kShiftKey),
      (CHR ''='', VKEY_OEM_PLUS, kNoModifiers), (CHR ''+'', VKEY_OEM_PLUS, kShiftKey),
      (CHR ''['', VKEY_OEM_4, kNoModifiers), (CHR ''{'', VKEY_OEM_4, kShiftKey),
      (CHR '']'', VKEY_OEM_6, kNoModifiers), (CHR ''}'', VKEY_OEM_6, kShiftKey),
      (CHR 0x5C, VKEY_OEM_5, kNoModifiers), (CHR ''|'', VKEY_OEM_5, kShiftKey),
      (CHR '';'', VKEY_OEM_1, kNoModifiers), (CHR '':'', VKEY_OEM_1, kShiftKey),
      (CHR 0x27, VKEY_OEM_7, kNoModifiers), (CHR 0x22, VKEY_OEM_7, kShiftKey),
      (CHR '','', VKEY_OEM_COMMA, kNoModifiers), (CHR ''<'', VKEY_OEM_COMMA, kShiftKey),
      (CHR ''.'', VKEY_OEM_PERIOD, kNoModifiers), (CHR ''>'', VKEY_OEM_PERIOD, kShiftKey),
      (CHR ''/'', VKEY_OEM_2, kNoModifiers), (CHR ''?'', VKEY_OEM_2, kShiftKey),
      (CHR 0x60, VKEY_OEM_3, kNoModifiers), (CHR ''~'', VKEY_OEM_3, kShiftKey)]"

definition MapCharacter :: "char \<Rightarrow> key_mapping" where
  "MapCharacter c =
     (let n = (of_char c :: nat);
          mapped = (\<lambda>code mods. \<lparr>km_windows_key_code = code, km_modifiers = mods, km_dom_key = DomKeyCharacter c\<rparr>)
      in if 97 \<le> n \<and> n \<le> 122 then mapped (VKEY_LETTER (n - 97)) kNoModifiers
         else if 65 \<le> n \<and> n \<le> 90 then mapped (VKEY_LETTER (n - 65)) kShiftKey
         else if 48 \<le> n \<and> n \<le> 57 then mapped (VKEY_DIGIT (n - 48)) kNoModifiers
         else if c = CHR '' '' then mapped VKEY_SPACE kNoModifiers
         else
           case map_of punctuation c of
             Some (code, mods) \<Rightarrow> mapped code mods
           | None \<Rightarrow> mapped VKEY_ZERO kNoModifiers)"

definition named_keys :: "(string \<times> windows_key_code \<times> dom_key) list" where
  "named_keys =
     [(''Enter'', VKEY_RETURN, DomKeyEnter), (''Tab'', VKEY_TAB, DomKeyTab),
      (''Escape'', VKEY_ESCAPE, DomKeyEscape), (''Backspace'', VKEY_BACK, DomKeyBackspace),
      (''Delete'', VKEY_DELETE, DomKeyDel), (''ArrowUp'', VKEY_UP, DomKeyArrowUp),
      (''ArrowDown'', VKEY_DOWN, DomKeyArrowDown), (''ArrowLeft'', VKEY_LEFT, DomKeyArrowLeft),
      (''ArrowRight'', VKEY_RIGHT, DomKeyArrowRight), ('' '', VKEY_SPACE, DomKeyCharacter (CHR '' '')),
      (''Space'', VKEY_SPACE, DomKeyCharacter (CHR '' ''))]"

definition MapKey :: "string \<Rightarrow> key_mapping" where
  "MapKey key =
     (case map_of named_keys key of
        Some (code, dk) \<Rightarrow> \<lparr>km_windows_key_code = code, km_modifiers = kNoModifiers, km_dom_key = dk\<rparr>
      | None \<Rightarrow>
          (case key of
             [c] \<Rightarrow> MapCharacter c
           | _ \<Rightarrow> \<lparr>km_windows_key_code = VKEY_ZERO, km_modifiers = kNoModifiers, km_dom_key = DomKeyNone\<rparr>))"

subsection \<open>Mouse paths\<close>

text \<open>
  The arithmetic of \<open>double\<close> is IEEE 754's, of which nothing here depends on more than that the
  operations give some \<open>double\<close>: it is the record \<open>f64_ops\<close>. \<open>f_lit p q\<close> is the literal p/q,
  \<open>f_to_int\<close> is \<open>static_cast<int>\<close>, which is undefined out of range.
\<close>

record f64_ops =
  f_add :: "f64 \<Rightarrow> f64 \<Rightarrow> f64"
  f_sub :: "f64 \<Rightarrow> f64 \<Rightarrow> f64"
  f_mul :: "f64 \<Rightarrow> f64 \<Rightarrow> f64"
  f_div :: "f64 \<Rightarrow> f64 \<Rightarrow> f64"
  f_neg :: "f64 \<Rightarrow> f64"
  f_sqrt :: "f64 \<Rightarrow> f64"
  f_positive :: "f64 \<Rightarrow> bool"
  f_lit :: "int \<Rightarrow> int \<Rightarrow> f64"
  f_to_int :: "f64 \<Rightarrow> c_int option"

definition initial_mouse :: "f64_ops \<Rightarrow> point" where
  "initial_mouse F = \<lparr>pt_x = f_lit F 500 1, pt_y = f_lit F 400 1\<rparr>"

definition bezier_coordinate :: "f64_ops \<Rightarrow> f64 \<Rightarrow> f64 \<Rightarrow> f64 \<Rightarrow> f64 \<Rightarrow> f64 \<Rightarrow> f64" where
  "bezier_coordinate F a b c d t =
     (let u = f_sub F (f_lit F 1 1) t;
          uu = f_mul F u u;
          uuu = f_mul F uu u;
          tt = f_mul F t t;
          ttt = f_mul F tt t;
          three = f_lit F 3 1
      in f_add F (f_add F (f_add F (f_mul F uuu a) (f_mul F (f_mul F (f_mul F three uu) t) b))
                 (f_mul F (f_mul F (f_mul F three u) tt) c))
               (f_mul F ttt d))"

definition CubicBezier :: "f64_ops \<Rightarrow> point \<Rightarrow> point \<Rightarrow> point \<Rightarrow> point \<Rightarrow> f64 \<Rightarrow> point" where
  "CubicBezier F p0 p1 p2 p3 t =
     \<lparr>pt_x = bezier_coordinate F (pt_x p0) (pt_x p1) (pt_x p2) (pt_x p3) t,
      pt_y = bezier_coordinate F (pt_y p0) (pt_y p1) (pt_y p2) (pt_y p3) t\<rparr>"

text \<open>\<open>x + (base::RandDouble() - 0.5) * width\<close>.\<close>

definition jitter :: "f64_ops \<Rightarrow> f64 \<Rightarrow> f64 \<Rightarrow> f64 \<Rightarrow> f64" where
  "jitter F x r width = f_add F x (f_mul F (f_sub F r (f_lit F 1 2)) width)"

definition clamp_steps :: "int \<Rightarrow> nat" where
  "clamp_steps d = (if d < 4 then 4 else if d > 12 then 12 else nat d)"

text \<open>The loop over \<open>i = 1 .. steps\<close>; \<open>left\<close> points are still to come.\<close>

fun path_loop ::
  "f64_ops \<Rightarrow> (f64 \<Rightarrow> point) \<Rightarrow> nat \<Rightarrow> nat \<Rightarrow> point list \<Rightarrow> (point list \<Rightarrow> ('s, 'r) task) \<Rightarrow> ('s, 'r) task" where
  "path_loop F curve steps 0 path k = k path"
| "path_loop F curve steps (Suc left) path k =
     (let i = steps - left;
          t = f_div F (f_lit F (int i) 1) (f_lit F (int steps) 1);
          pt = curve t
      in AskDouble (\<lambda>rx. AskDouble (\<lambda>ry.
           path_loop F curve steps left
             (path @ [\<lparr>pt_x = jitter F (pt_x pt) rx (f_lit F 2 1), pt_y = jitter F (pt_y pt) ry (f_lit F 2 1)\<rparr>]) k)))"

definition path_distance :: "f64_ops \<Rightarrow> point \<Rightarrow> point \<Rightarrow> f64" where
  "path_distance F a b =
     (let dx = f_sub F (pt_x b) (pt_x a);
          dy = f_sub F (pt_y b) (pt_y a)
      in f_sqrt F (f_add F (f_mul F dx dx) (f_mul F dy dy)))"

definition GenerateMousePath ::
  "f64_ops \<Rightarrow> point \<Rightarrow> point \<Rightarrow> (point list \<Rightarrow> ('s, 'r) task) \<Rightarrow> ('s, 'r) task" where
  "GenerateMousePath F a b k =
     (let dx = f_sub F (pt_x b) (pt_x a);
          dy = f_sub F (pt_y b) (pt_y a);
          dist = path_distance F a b
      in case f_to_int F (f_div F dist (f_lit F 40 1)) of
           None \<Rightarrow> Undefined
         | Some d \<Rightarrow>
             let steps = clamp_steps (sint d);
                 perp_x = f_neg F dy;
                 perp_y = dx;
                 norm = f_sqrt F (f_add F (f_mul F perp_x perp_x) (f_mul F perp_y perp_y));
                 px = (if f_positive F norm then f_div F perp_x norm else perp_x);
                 py = (if f_positive F norm then f_div F perp_y norm else perp_y)
             in AskDouble (\<lambda>r.
                  let curve = f_mul F (f_mul F (f_sub F r (f_lit F 1 2)) dist) (f_lit F 3 10);
                      near = (\<lambda>from d p. f_add F (f_add F from (f_mul F d (f_lit F 3 10))) (f_mul F p curve));
                      far = (\<lambda>from d p. f_add F (f_add F from (f_mul F d (f_lit F 7 10)))
                               (f_mul F (f_mul F p curve) (f_lit F 1 2)));
                      p1 = \<lparr>pt_x = near (pt_x a) dx px, pt_y = near (pt_y a) dy py\<rparr>;
                      p2 = \<lparr>pt_x = far (pt_x a) dx px, pt_y = far (pt_y a) dy py\<rparr>
                  in path_loop F (CubicBezier F a p1 p2 b) steps steps [] (\<lambda>path.
                       AskDouble (\<lambda>rx. AskDouble (\<lambda>ry.
                         k (butlast path @
                            [\<lparr>pt_x = jitter F (pt_x b) rx (f_lit F 3 2),
                              pt_y = jitter F (pt_y b) ry (f_lit F 3 2)\<rparr>]))))))"

section \<open>Properties\<close>

definition printable_ascii :: string where
  "printable_ascii =
     '' !'' @ [CHR 0x22] @ ''#$%&'' @ [CHR 0x27] @ ''()*+,-./0123456789:;<=>?@ABCDEFGHIJKLMNOPQRSTUVWXYZ['' @
     [CHR 0x5C] @ '']^_'' @ [CHR 0x60] @ ''abcdefghijklmnopqrstuvwxyz{|}~''"

definition key_of :: "char \<Rightarrow> windows_key_code \<times> modifiers" where
  "key_of c = (km_windows_key_code (MapCharacter c), km_modifiers (MapCharacter c))"

lemma keys_of_printable:
  "map key_of printable_ascii =
     [(VKEY_SPACE, kNoModifiers), (VKEY_DIGIT 1, kShiftKey), (VKEY_OEM_7, kShiftKey),
      (VKEY_DIGIT 3, kShiftKey), (VKEY_DIGIT 4, kShiftKey), (VKEY_DIGIT 5, kShiftKey),
      (VKEY_DIGIT 7, kShiftKey), (VKEY_OEM_7, kNoModifiers), (VKEY_DIGIT 9, kShiftKey),
      (VKEY_DIGIT 0, kShiftKey), (VKEY_DIGIT 8, kShiftKey), (VKEY_OEM_PLUS, kShiftKey),
      (VKEY_OEM_COMMA, kNoModifiers), (VKEY_OEM_MINUS, kNoModifiers),
      (VKEY_OEM_PERIOD, kNoModifiers), (VKEY_OEM_2, kNoModifiers), (VKEY_DIGIT 0, kNoModifiers),
      (VKEY_DIGIT 1, kNoModifiers), (VKEY_DIGIT 2, kNoModifiers), (VKEY_DIGIT 3, kNoModifiers),
      (VKEY_DIGIT 4, kNoModifiers), (VKEY_DIGIT 5, kNoModifiers), (VKEY_DIGIT 6, kNoModifiers),
      (VKEY_DIGIT 7, kNoModifiers), (VKEY_DIGIT 8, kNoModifiers), (VKEY_DIGIT 9, kNoModifiers),
      (VKEY_OEM_1, kShiftKey), (VKEY_OEM_1, kNoModifiers), (VKEY_OEM_COMMA, kShiftKey),
      (VKEY_OEM_PLUS, kNoModifiers), (VKEY_OEM_PERIOD, kShiftKey), (VKEY_OEM_2, kShiftKey),
      (VKEY_DIGIT 2, kShiftKey), (VKEY_LETTER 0, kShiftKey), (VKEY_LETTER 1, kShiftKey),
      (VKEY_LETTER 2, kShiftKey), (VKEY_LETTER 3, kShiftKey), (VKEY_LETTER 4, kShiftKey),
      (VKEY_LETTER 5, kShiftKey), (VKEY_LETTER 6, kShiftKey), (VKEY_LETTER 7, kShiftKey),
      (VKEY_LETTER 8, kShiftKey), (VKEY_LETTER 9, kShiftKey), (VKEY_LETTER 10, kShiftKey),
      (VKEY_LETTER 11, kShiftKey), (VKEY_LETTER 12, kShiftKey), (VKEY_LETTER 13, kShiftKey),
      (VKEY_LETTER 14, kShiftKey), (VKEY_LETTER 15, kShiftKey), (VKEY_LETTER 16, kShiftKey),
      (VKEY_LETTER 17, kShiftKey), (VKEY_LETTER 18, kShiftKey), (VKEY_LETTER 19, kShiftKey),
      (VKEY_LETTER 20, kShiftKey), (VKEY_LETTER 21, kShiftKey), (VKEY_LETTER 22, kShiftKey),
      (VKEY_LETTER 23, kShiftKey), (VKEY_LETTER 24, kShiftKey), (VKEY_LETTER 25, kShiftKey),
      (VKEY_OEM_4, kNoModifiers), (VKEY_OEM_5, kNoModifiers), (VKEY_OEM_6, kNoModifiers),
      (VKEY_DIGIT 6, kShiftKey), (VKEY_OEM_MINUS, kShiftKey), (VKEY_OEM_3, kNoModifiers),
      (VKEY_LETTER 0, kNoModifiers), (VKEY_LETTER 1, kNoModifiers), (VKEY_LETTER 2, kNoModifiers),
      (VKEY_LETTER 3, kNoModifiers), (VKEY_LETTER 4, kNoModifiers), (VKEY_LETTER 5, kNoModifiers),
      (VKEY_LETTER 6, kNoModifiers), (VKEY_LETTER 7, kNoModifiers), (VKEY_LETTER 8, kNoModifiers),
      (VKEY_LETTER 9, kNoModifiers), (VKEY_LETTER 10, kNoModifiers),
      (VKEY_LETTER 11, kNoModifiers), (VKEY_LETTER 12, kNoModifiers),
      (VKEY_LETTER 13, kNoModifiers), (VKEY_LETTER 14, kNoModifiers),
      (VKEY_LETTER 15, kNoModifiers), (VKEY_LETTER 16, kNoModifiers),
      (VKEY_LETTER 17, kNoModifiers), (VKEY_LETTER 18, kNoModifiers),
      (VKEY_LETTER 19, kNoModifiers), (VKEY_LETTER 20, kNoModifiers),
      (VKEY_LETTER 21, kNoModifiers), (VKEY_LETTER 22, kNoModifiers),
      (VKEY_LETTER 23, kNoModifiers), (VKEY_LETTER 24, kNoModifiers),
      (VKEY_LETTER 25, kNoModifiers), (VKEY_OEM_4, kShiftKey), (VKEY_OEM_5, kShiftKey),
      (VKEY_OEM_6, kShiftKey), (VKEY_OEM_3, kShiftKey)]"
  by (simp add: printable_ascii_def key_of_def MapCharacter_def punctuation_def)

lemma printable_ascii_codes: "map of_char printable_ascii = [32..<127 :: nat]"
  by (simp add: printable_ascii_def upt_rec)

text \<open>
  Typing loses nothing on the way to the keyboard: two printable ASCII characters with the same
  key and the same shift state are the same character, and every one of them has a key.
\<close>

lemma printable_keys_distinct:
  "map of_char printable_ascii = [32..<127 :: nat] \<and> distinct (map key_of printable_ascii) \<and>
   VKEY_ZERO \<notin> fst ` set (map key_of printable_ascii)"
  using printable_ascii_codes unfolding keys_of_printable by simp

lemma wp_path_loop:
  "(\<And>path'. length path' = length path + left \<Longrightarrow> wp (k path') pages M Q s) \<Longrightarrow>
     wp (path_loop F curve steps left path k) pages M Q s"
proof (induction left arbitrary: path)
  case (Suc left)
  have "wp (path_loop F curve steps left (path @ [p]) k) pages M Q s" for p
    by (rule Suc.IH) (simp add: Suc.prems)
  then show ?case by (simp add: Let_def)
qed simp

text \<open>
  Whatever the coordinates, the random numbers and the arithmetic of \<open>double\<close>, a mouse path has
  between 4 and 12 points, so moving the mouse ends after at most 12 pauses; the one thing that can
  go wrong is a distance that does not fit an \<open>int\<close>.
\<close>

lemma mouse_path_length:
  assumes "f_to_int F (f_div F (path_distance F a b) (f_lit F 40 1)) \<noteq> None"
  shows "wp (GenerateMousePath F a b Answer) pages M (\<lambda>path _. 4 \<le> length path \<and> length path \<le> 12) s"
proof -
  from assms obtain d where d: "f_to_int F (f_div F (path_distance F a b) (f_lit F 40 1)) = Some d" by blast
  have "3 \<le> clamp_steps (sint d) - Suc 0" "clamp_steps (sint d) - Suc 0 \<le> 11" by (auto simp: clamp_steps_def)
  with d show ?thesis by (auto simp: GenerateMousePath_def Let_def intro!: wp_path_loop)
qed

definition demo_f64 :: f64_ops where
  "demo_f64 =
     \<lparr>f_add = (+), f_sub = (-), f_mul = (*), f_div = (div), f_neg = uminus, f_sqrt = (\<lambda>x. x),
      f_positive = (\<lambda>x. x \<noteq> 0), f_lit = (\<lambda>p q. word_of_int (p div q)),
      f_to_int = (\<lambda>x. Some (ucast x))\<rparr>"

lemma mouse_path_length_witness:
  "wp (GenerateMousePath demo_f64 \<lparr>pt_x = 0, pt_y = 0\<rparr> \<lparr>pt_x = 500, pt_y = 400\<rparr> Answer) (\<lambda>c. {}) (=)
     (\<lambda>path _. 4 \<le> length path \<and> length path \<le> 12) (None :: nat option)"
  by (rule mouse_path_length) (simp add: demo_f64_def)

end
