(* ===== verification/Interactions.thy ===== *)
theory Interactions
  imports Controller_Runtimes Input
begin

section \<open>Acting on a page (\<open>core/browser_interactions.cc\<close>)\<close>

text \<open>
  Clicks, hovering, typing, keys, selections, drags and scrolling. An element is named by the
  index of the last DOM snapshot, and then a script acts on it, or by an accessibility node, and
  then the operation moves the mouse to it and sends input events, with pauses in between. After
  every pause the code uses the page again through an unretained pointer.
\<close>

definition NoActiveFrame :: BrowserStatus where
  "NoActiveFrame = StatusError kNoActiveFrame ''No active frame''"

definition NoRenderView :: BrowserStatus where
  "NoRenderView = StatusError kInternalError ''No render view''"

definition InvalidRef :: BrowserStatus where
  "InvalidRef = StatusError kInvalidArgument ''Invalid ref''"

definition with_view :: "web_contents \<Rightarrow> ('s, BrowserStatus) task \<Rightarrow> ('s, BrowserStatus) task" where
  "with_view wc t = AskPage HasView wc (\<lambda>view. if \<not> view then Answer NoRenderView else t)"

fun AnimateMousePath :: "web_contents \<Rightarrow> point list \<Rightarrow> ('s, 'r) task \<Rightarrow> ('s, 'r) task" where
  "AnimateMousePath wc [] on_done = on_done"
| "AnimateMousePath wc (p # path) on_done =
     AskPage HasView wc (\<lambda>view.
       if \<not> view then on_done
       else Effect (MouseEvent wc kMouseMove p) (SetMouse p (AskRandom 12 (\<lambda>r.
              Later (8 + int r) (AnimateMousePath wc path on_done)))))"

definition EvalStatusJS :: "web_contents \<Rightarrow> string \<Rightarrow> ('s, BrowserStatus) task" where
  "EvalStatusJS wc expression =
     AskEval wc expression True 10000 (\<lambda>result.
       if \<not> result_ok result then
         Answer (StatusError (st_code (res_status result)) (st_message (res_status result)))
       else
         case map_option de_value (res_value result) of
           Some (JString s) \<Rightarrow>
             if std_contains ''Error'' s \<or> std_contains ''not found'' s
             then Answer (StatusError kInternalError s)
             else Answer StatusOk
         | _ \<Rightarrow> Answer StatusOk)"

text \<open>Every operation resolves its page first.\<close>

definition interaction_page :: "'rt runtime_class \<Rightarrow> string option \<Rightarrow>
    (web_contents \<Rightarrow> ('rt controller, BrowserStatus) task) \<Rightarrow> ('rt controller, BrowserStatus) task" where
  "interaction_page V target_id k =
     Self (\<lambda>self. with_runtime session_not_ready self (\<lambda>c rt.
       case ResolveWebContents V target_id c of
         None \<Rightarrow> Answer (TabNotFound target_id)
       | Some wc \<Rightarrow> k wc))"

subsection \<open>Keys\<close>

definition key_events :: "web_contents \<Rightarrow> char \<Rightarrow> effect list" where
  "key_events wc c =
     (let m = MapCharacter c
      in [KeyEvent wc \<lparr>ke_type = kRawKeyDown, ke_modifiers = km_modifiers m,
            ke_windows_key_code = km_windows_key_code m, ke_dom_key = km_dom_key m, ke_text = None\<rparr>,
          KeyEvent wc \<lparr>ke_type = kChar, ke_modifiers = km_modifiers m,
            ke_windows_key_code = VKEY_CHAR c, ke_dom_key = km_dom_key m, ke_text = Some c\<rparr>,
          KeyEvent wc \<lparr>ke_type = kKeyUp, ke_modifiers = km_modifiers m,
            ke_windows_key_code = km_windows_key_code m, ke_dom_key = km_dom_key m, ke_text = None\<rparr>])"

definition change_script :: string where
  "change_script = ''document.activeElement?.dispatchEvent('' @ ''  new Event('change', {bubbles: true}));''"

fun TypeNextChar :: "web_contents \<Rightarrow> string \<Rightarrow> ('s, BrowserStatus) task" where
  "TypeNextChar wc [] =
     AskEval wc change_script True 10000 (\<lambda>result.
       if \<not> result_ok result then
         Answer (StatusError (st_code (res_status result)) (st_message (res_status result)))
       else Answer StatusOk)"
| "TypeNextChar wc (c # cs) =
     with_view wc
       (Effect (key_events wc c ! 0) (Effect (key_events wc c ! 1) (AskRandom 40 (\<lambda>up_delay.
         Later (20 + int up_delay)
           (with_view wc
             (Effect (key_events wc c ! 2) (AskRandom 90 (\<lambda>next_delay.
               Later (30 + int next_delay) (TypeNextChar wc cs)))))))))"

definition CtlType ::
  "'rt runtime_class \<Rightarrow> base_lib \<Rightarrow> bool \<Rightarrow> string option \<Rightarrow> TypeOptions \<Rightarrow> ('rt controller, BrowserStatus) task" where
  "CtlType V L now target_id options =
     RunOrPost now (interaction_page V target_id (\<lambda>wc.
       case ParseDomRef L (type_ref options) of
         Some index \<Rightarrow> EvalStatusJS wc (DomTypeExpression L index (type_text options) (type_clear options))
       | None \<Rightarrow>
           (case ParseRef L (type_ref options) of
              None \<Rightarrow> Answer InvalidRef
            | Some node_id \<Rightarrow>
                AskPage HasFrame wc (\<lambda>frame.
                  if \<not> frame then Answer NoActiveFrame
                  else
                    let type_text_later = AskRandom 80 (\<lambda>r. Later (50 + int r) (TypeNextChar wc (type_text options)))
                    in Effect (AxAction wc kFocus node_id)
                         (if type_clear options then Effect (AxAction wc kSetValue node_id) type_text_later
                          else type_text_later)))))"

definition press_event :: "web_contents \<Rightarrow> key_event_type \<Rightarrow> string \<Rightarrow> effect" where
  "press_event wc kind key =
     KeyEvent wc \<lparr>ke_type = kind, ke_modifiers = kNoModifiers,
       ke_windows_key_code = km_windows_key_code (MapKey key), ke_dom_key = km_dom_key (MapKey key), ke_text = None\<rparr>"

definition CtlPressKey ::
  "'rt runtime_class \<Rightarrow> bool \<Rightarrow> string option \<Rightarrow> KeyOptions \<Rightarrow> ('rt controller, BrowserStatus) task" where
  "CtlPressKey V now target_id options =
     RunOrPost now (interaction_page V target_id (\<lambda>wc.
       with_view wc
         (Effect (press_event wc kRawKeyDown (key_key options)) (AskRandom 50 (\<lambda>r.
           Later (40 + int r)
             (with_view wc
               (Effect (press_event wc kKeyUp (key_key options)) (Answer StatusOk))))))))"

subsection \<open>Scrolling\<close>

function ScrollStep :: "web_contents \<Rightarrow> int \<Rightarrow> int \<Rightarrow> int \<Rightarrow> ('s, BrowserStatus) task" where
  "ScrollStep wc delta_x delta_y remaining =
     (if remaining \<le> 0 then Answer StatusOk
      else
        with_view wc (AskRandom 40 (\<lambda>r.
          let chunk = min remaining (40 + int r);
              step_y = (if delta_y \<noteq> 0 then (if delta_y > 0 then 1 else - 1) * chunk else 0);
              step_x = (if delta_x \<noteq> 0 then (if delta_x > 0 then 1 else - 1) * chunk else 0)
          in AskMouse (\<lambda>mouse. Effect (WheelEvent wc mouse (- step_x) (- step_y)) (AskRandom 18 (\<lambda>d.
               Later (12 + int d) (ScrollStep wc delta_x delta_y (remaining - chunk))))))))"
  by pat_completeness auto
termination by (relation "measure (\<lambda>(wc, dx, dy, remaining). nat remaining)") auto

declare ScrollStep.simps [simp del]

definition CtlScroll ::
  "'rt runtime_class \<Rightarrow> bool \<Rightarrow> string option \<Rightarrow> ScrollOptions \<Rightarrow> ('rt controller, BrowserStatus) task" where
  "CtlScroll V now target_id options =
     RunOrPost now (interaction_page V target_id (\<lambda>wc.
       case (c_abs (scroll_delta_x options), c_abs (scroll_delta_y options)) of
         (Some dx, Some dy) \<Rightarrow>
           let total = max (sint dx) (sint dy)
           in if total = 0 then Answer StatusOk
              else ScrollStep wc (sint (scroll_delta_x options)) (sint (scroll_delta_y options)) total
       | _ \<Rightarrow> Undefined))"

subsection \<open>The mouse\<close>

definition node_center :: "f64_ops \<Rightarrow> ax_node \<Rightarrow> point" where
  "node_center F n =
     \<lparr>pt_x = f_add F (ax_x n) (f_div F (ax_width n) (f_lit F 2 1)),
      pt_y = f_add F (ax_y n) (f_div F (ax_height n) (f_lit F 2 1))\<rparr>"

definition press_and_release :: "web_contents \<Rightarrow> point \<Rightarrow> ('s, BrowserStatus) task" where
  "press_and_release wc p =
     with_view wc (AskRandom 30 (\<lambda>down_delay. Later (15 + int down_delay)
       (with_view wc
         (Effect (MouseEvent wc kMouseDown p) (AskRandom 80 (\<lambda>up_delay. Later (50 + int up_delay)
           (with_view wc (Effect (MouseEvent wc kMouseUp p) (Answer StatusOk)))))))))"

definition find_node :: "c_int \<Rightarrow> ax_node list \<Rightarrow> ax_node option" where
  "find_node node_id nodes = find (\<lambda>node. ax_id node = node_id) nodes"

definition CtlClick ::
  "'rt runtime_class \<Rightarrow> base_lib \<Rightarrow> f64_ops \<Rightarrow> bool \<Rightarrow> string option \<Rightarrow> RefOptions \<Rightarrow>
     ('rt controller, BrowserStatus) task" where
  "CtlClick V L F now target_id options =
     RunOrPost now (interaction_page V target_id (\<lambda>wc.
       case ParseDomRef L (ref_ref options) of
         Some index \<Rightarrow> EvalStatusJS wc (DomClickExpression L index)
       | None \<Rightarrow>
           (case ParseRef L (ref_ref options) of
              None \<Rightarrow> Answer InvalidRef
            | Some node_id \<Rightarrow>
                AskPage HasFrame wc (\<lambda>frame.
                  if \<not> frame then Answer NoActiveFrame
                  else
                    Effect (AxAction wc kScrollToMakeVisible node_id) (AskNodes wc (\<lambda>nodes.
                      case find_node node_id nodes of
                        None \<Rightarrow> Answer (StatusError kNotFound ''Element not found'')
                      | Some node \<Rightarrow>
                          AskDouble (\<lambda>rx. AskDouble (\<lambda>ry. AskMouse (\<lambda>mouse.
                            let spread = (\<lambda>r extent. f_mul F (f_mul F (f_sub F r (f_lit F 1 2)) extent) (f_lit F 3 10));
                                target = \<lparr>pt_x = f_add F (pt_x (node_center F node)) (spread rx (ax_width node)),
                                          pt_y = f_add F (pt_y (node_center F node)) (spread ry (ax_height node))\<rparr>
                            in GenerateMousePath F mouse target (\<lambda>path.
                                 AnimateMousePath wc path (press_and_release wc target)))))))))))"

definition CtlHover ::
  "'rt runtime_class \<Rightarrow> base_lib \<Rightarrow> f64_ops \<Rightarrow> bool \<Rightarrow> string option \<Rightarrow> RefOptions \<Rightarrow>
     ('rt controller, BrowserStatus) task" where
  "CtlHover V L F now target_id options =
     RunOrPost now (interaction_page V target_id (\<lambda>wc.
       case ParseDomRef L (ref_ref options) of
         Some index \<Rightarrow> EvalStatusJS wc (DomHoverExpression L index)
       | None \<Rightarrow>
           (case ParseRef L (ref_ref options) of
              None \<Rightarrow> Answer InvalidRef
            | Some node_id \<Rightarrow>
                AskPage HasFrame wc (\<lambda>frame.
                  if \<not> frame then Answer NoActiveFrame
                  else
                    Effect (AxAction wc kScrollToMakeVisible node_id) (AskNodes wc (\<lambda>nodes.
                      case find_node node_id nodes of
                        None \<Rightarrow> Answer (StatusError kNotFound ''Element not found'')
                      | Some node \<Rightarrow>
                          AskMouse (\<lambda>mouse. GenerateMousePath F mouse (node_center F node) (\<lambda>path.
                            AnimateMousePath wc path (Answer StatusOk)))))))))"

subsection \<open>Selecting and dragging\<close>

definition CtlSelectOption ::
  "'rt runtime_class \<Rightarrow> base_lib \<Rightarrow> bool \<Rightarrow> string option \<Rightarrow> SelectOptions \<Rightarrow> ('rt controller, BrowserStatus) task" where
  "CtlSelectOption V L now target_id options =
     RunOrPost now (interaction_page V target_id (\<lambda>wc.
       case ParseDomRef L (select_ref options) of
         Some index \<Rightarrow> EvalStatusJS wc (DomSelectExpression L index (select_values options))
       | None \<Rightarrow>
           (case ParseRef L (select_ref options) of
              None \<Rightarrow> Answer InvalidRef
            | Some node_id \<Rightarrow>
                AskPage HasFrame wc (\<lambda>frame.
                  if \<not> frame then Answer NoActiveFrame
                  else Effect (AxAction wc kFocus node_id)
                         (EvalStatusJS wc (SelectFocusedExpression L (select_values options)))))))"

text \<open>The loop that looks for both nodes and stops when it has them.\<close>

fun find_ends :: "c_int \<Rightarrow> c_int \<Rightarrow> ax_node option \<Rightarrow> ax_node option \<Rightarrow> ax_node list \<Rightarrow>
    ax_node option \<times> ax_node option" where
  "find_ends source_id target_id a b [] = (a, b)"
| "find_ends source_id target_id a b (node # nodes) =
     (let a' = (if ax_id node = source_id then Some node else a);
          b' = (if ax_id node = target_id then Some node else b)
      in if a' \<noteq> None \<and> b' \<noteq> None then (a', b') else find_ends source_id target_id a' b' nodes)"

text \<open>The script at a point, which converts both coordinates to \<open>int\<close>.\<close>

definition script_at ::
  "f64_ops \<Rightarrow> web_contents \<Rightarrow> (c_int \<Rightarrow> c_int \<Rightarrow> string) \<Rightarrow> point \<Rightarrow> ('s, 'r) task \<Rightarrow> ('s, 'r) task" where
  "script_at F wc script p t =
     (case (f_to_int F (pt_x p), f_to_int F (pt_y p)) of
        (Some x, Some y) \<Rightarrow> Effect (RunScript wc (script x y) 5000) t
      | _ \<Rightarrow> Undefined)"

definition drag_nodes ::
  "base_lib \<Rightarrow> f64_ops \<Rightarrow> web_contents \<Rightarrow> point \<Rightarrow> point \<Rightarrow> ('s, BrowserStatus) task" where
  "drag_nodes L F wc a b =
     AskMouse (\<lambda>mouse. GenerateMousePath F mouse a (\<lambda>path_to_start.
       AnimateMousePath wc path_to_start
         (with_view wc
           (Effect (MouseEvent wc kMouseDown a)
             (script_at F wc (DragStartExpression L) a
               (GenerateMousePath F a b (\<lambda>drag_path. AskRandom 50 (\<lambda>r. Later (50 + int r)
                 (AnimateMousePath wc drag_path
                   (with_view wc
                     (Effect (MouseEvent wc kMouseUp b)
                       (script_at F wc (DragEndExpression L) b (Answer StatusOk)))))))))))))"

definition CtlDrag ::
  "'rt runtime_class \<Rightarrow> base_lib \<Rightarrow> f64_ops \<Rightarrow> bool \<Rightarrow> string option \<Rightarrow> DragOptions \<Rightarrow>
     ('rt controller, BrowserStatus) task" where
  "CtlDrag V L F now target_id options =
     RunOrPost now (interaction_page V target_id (\<lambda>wc.
       case (ParseDomRef L (drag_start_ref options), ParseDomRef L (drag_end_ref options)) of
         (Some a, Some b) \<Rightarrow> EvalStatusJS wc (DomDragExpression L a b)
       | (Some a, None) \<Rightarrow> Answer InvalidRef
       | (None, Some b) \<Rightarrow> Answer InvalidRef
       | (None, None) \<Rightarrow>
           (case (ParseRef L (drag_start_ref options), ParseRef L (drag_end_ref options)) of
              (Some source_id, Some end_id) \<Rightarrow>
                AskNodes wc (\<lambda>nodes.
                  case find_ends source_id end_id None None nodes of
                    (Some a, Some b) \<Rightarrow> drag_nodes L F wc (node_center F a) (node_center F b)
                  | _ \<Rightarrow> Answer (StatusError kNotFound ''Element not found for drag''))
            | _ \<Rightarrow> Answer InvalidRef)))"

section \<open>Properties\<close>

lemma run_with_view:
  assumes "run L pages M s m (with_view wc t) tr (Answered StatusOk s')"
  shows "wc \<in> live pages s \<and> run L pages M s m t tr (Answered StatusOk s')"
  using assms unfolding with_view_def
  by (auto elim!: run_AskPageE run_AnswerE simp: NoRenderView_def split: if_splits)

lemma run_with_viewI:
  assumes "wc \<in> live pages s" "run L pages M s m t tr res"
  shows "run L pages M s m (with_view wc t) tr res"
  unfolding with_view_def by (rule run.page [where b = True]) (use assms in simp_all)

lemma run_pause:
  assumes "M s s" "run L pages M s m (k 0) tr res"
  shows "run L pages M s m (AskRandom hi (\<lambda>r. Later (base + int r) (k r))) tr res"
  by (rule run.random [where i = 0], simp) (rule run.later [where M = M, OF assms(1)], use assms(2) in simp)

lemma type_next_runs:
  assumes "wc \<in> live pages s" "M s s" "\<And>c i. i < 3 \<Longrightarrow> effect_page (key_events wc c ! i) = wc"
  shows "\<exists>tr. run L pages M s m (TypeNextChar wc cs) tr (Answered StatusOk s)"
proof (induction cs)
  case Nil
  let ?r = "ResultOk \<lparr>de_is_undefined = True, de_value = JNone\<rparr> :: evaluation"
  have "eval_answers L wc change_script True 10000 True [JsResultEvent True JNone] = [?r]"
    by (simp add: eval_answers_def EvaluateWithDevTools_def JsStart_def new_js_request_def JsOnResult_def
        JsComplete_def Let_def)
  then have "run L pages M s m (TypeNextChar wc []) [] (Answered StatusOk s)"
    unfolding TypeNextChar.simps by (rule run.eval [where M = M and s' = s, OF assms(1) _ assms(2)]) (simp add: run.answer)
  then show ?case by blast
next
  case (Cons c cs)
  then obtain tr where tr: "run L pages M s m (TypeNextChar wc cs) tr (Answered StatusOk s)" by blast
  have "run L pages M s m (TypeNextChar wc (c # cs))
      (key_events wc c ! 0 # key_events wc c ! 1 # key_events wc c ! 2 # tr) (Answered StatusOk s)"
    unfolding TypeNextChar.simps
    by (intro run_with_viewI run.effect run_pause) (simp_all add: assms tr)
  then show ?case by blast
qed

lemma type_next_trace:
  "run L pages M s m (TypeNextChar wc cs) tr (Answered StatusOk s') \<Longrightarrow> tr = concat (map (key_events wc) cs)"
proof (induction cs arbitrary: s m tr)
  case Nil
  then show ?case by (auto elim!: run_AskEvalE run_AnswerE split: if_splits)
next
  case (Cons c cs)
  from run_with_view [OF Cons.prems [unfolded TypeNextChar.simps]] obtain s2 m2 tr2 d where
    1: "tr = key_events wc c ! 0 # key_events wc c ! 1 # tr2"
    "run L pages M s2 m2 (with_view wc (Effect (key_events wc c ! 2) (AskRandom 90 (\<lambda>next_delay.
       Later (30 + int next_delay) (TypeNextChar wc cs))))) tr2 (Answered StatusOk s')"
    by (auto elim!: run_EffectE run_AskRandomE run_LaterE)
  from run_with_view [OF 1(2)] obtain s3 m3 tr3 where
    "tr2 = key_events wc c ! 2 # tr3" "run L pages M s3 m3 (TypeNextChar wc cs) tr3 (Answered StatusOk s')"
    by (auto elim!: run_EffectE run_AskRandomE run_LaterE)
  with Cons.IH 1(1) show ?case by (simp add: key_events_def Let_def)
qed

text \<open>
  C19: when typing answers ok the page was sent exactly the key events of the text: for each byte,
  in order, the key going down, its character, and the key going up, and nothing else, whatever
  the pauses and whatever happened to other tabs meanwhile.
\<close>

theorem typing_sends_the_text:
  assumes "run L (controller_pages V) M s m (TypeNextChar wc cs) tr (Answered StatusOk s')"
  shows "tr = concat (map (\<lambda>c.
      [KeyEvent wc \<lparr>ke_type = kRawKeyDown, ke_modifiers = snd (key_of c), ke_windows_key_code = fst (key_of c),
         ke_dom_key = DomKeyCharacter c, ke_text = None\<rparr>,
       KeyEvent wc \<lparr>ke_type = kChar, ke_modifiers = snd (key_of c), ke_windows_key_code = VKEY_CHAR c,
         ke_dom_key = DomKeyCharacter c, ke_text = Some c\<rparr>,
       KeyEvent wc \<lparr>ke_type = kKeyUp, ke_modifiers = snd (key_of c), ke_windows_key_code = fst (key_of c),
         ke_dom_key = DomKeyCharacter c, ke_text = None\<rparr>]) cs)"
proof -
  have "km_dom_key (MapCharacter c) = DomKeyCharacter c" for c
    by (simp add: MapCharacter_def Let_def split: option.split)
  with type_next_trace [OF assms] show ?thesis by (simp add: key_events_def [abs_def] key_of_def Let_def)
qed

lemma demo_page_live: "8 \<in> live (controller_pages demo_class) (Some demo_controller)"
proof -
  have "op_all demo_class demo_gui = [7, 8]" by code_simp
  then show ?thesis by (simp add: live_def controller_pages_def)
qed

lemma demo_resolves: "ResolveWebContents demo_class None demo_controller = Some 8"
  by code_simp

lemma key_events_page: "i < 3 \<Longrightarrow> effect_page (key_events wc c ! i) = wc"
  by (auto simp: key_events_def Let_def less_Suc_eq numeral_3_eq_3)

theorem typing_sends_the_text_witness:
  "\<exists>tr. run ref_lib (controller_pages demo_class) (\<lambda>s s'. True) (Some demo_controller) \<lparr>pt_x = 0, pt_y = 0\<rparr>
      (TypeNextChar 8 ''A'') tr (Answered StatusOk (Some demo_controller)) \<and>
    length tr = 3 \<and> tr ! 0 = KeyEvent 8 \<lparr>ke_type = kRawKeyDown, ke_modifiers = kShiftKey,
      ke_windows_key_code = VKEY_LETTER 0, ke_dom_key = DomKeyCharacter (CHR ''A''), ke_text = None\<rparr>"
proof -
  obtain tr where run: "run ref_lib (controller_pages demo_class) (\<lambda>s s'. True) (Some demo_controller)
      \<lparr>pt_x = 0, pt_y = 0\<rparr> (TypeNextChar 8 ''A'') tr (Answered StatusOk (Some demo_controller))"
    using type_next_runs [where M = "\<lambda>s s'. True" and cs = "''A''", OF demo_page_live TrueI key_events_page] by metis
  have k: "key_of (CHR ''A'') = (VKEY_LETTER 0, kShiftKey)" by (simp add: key_of_def MapCharacter_def)
  from typing_sends_the_text [OF run] have tr: "length tr = 3 \<and> tr ! 0 = KeyEvent 8 \<lparr>ke_type = kRawKeyDown, ke_modifiers = kShiftKey,
      ke_windows_key_code = VKEY_LETTER 0, ke_dom_key = DomKeyCharacter (CHR ''A''), ke_text = None\<rparr>"
    by (simp add: k)
  show ?thesis by (intro exI [of _ tr] conjI run conjunct1 [OF tr] conjunct2 [OF tr])
qed

text \<open>
  Typing, and every operation that pauses in the same way, uses its page after the pause
  without asking whether it is still there: when the tab is closed between a key going down and
  going up, the run ends in a use of a destroyed page.
\<close>

lemma typing_into_a_closed_tab_crashes:
  assumes "wc \<in> live pages s" and "M s s'" and "wc \<notin> live pages s'"
  shows "run L pages M s m (TypeNextChar wc (c # cs)) [key_events wc c ! 0, key_events wc c ! 1] Crashed"
proof -
  have page: "effect_page (key_events wc c ! 0) = wc" "effect_page (key_events wc c ! 1) = wc"
    by (simp_all add: key_events_def Let_def)
  have "run L pages M s' m (with_view wc t) [] Crashed" for t :: "('a, BrowserStatus) task"
    unfolding with_view_def by (rule run.page_gone [OF assms(3)])
  from run.later [OF assms(2) this] have "run L pages M s m (Later (20 + int 0) (with_view wc t)) [] Crashed"
    for t :: "('a, BrowserStatus) task" .
  then have "run L pages M s m (AskRandom 40 (\<lambda>up_delay. Later (20 + int up_delay) (with_view wc t))) [] Crashed"
    for t :: "('a, BrowserStatus) task"
    by (rule run.random [OF le0])
  then have "run L pages M s m (Effect (key_events wc c ! 0) (Effect (key_events wc c ! 1)
      (AskRandom 40 (\<lambda>up_delay. Later (20 + int up_delay) (with_view wc t)))))
      [key_events wc c ! 0, key_events wc c ! 1] Crashed" for t :: "('a, BrowserStatus) task"
    using assms(1) page by (intro run.effect) simp_all
  then show ?thesis
    unfolding TypeNextChar.simps with_view_def [of wc "Effect (key_events wc c ! 0) t" for t]
    by (intro run.page [where b = True] assms(1)) simp
qed

lemma typing_into_a_closed_tab_crashes_witness:
  "run ref_lib (controller_pages demo_class) (\<lambda>s s'. True) (Some demo_controller) \<lparr>pt_x = 0, pt_y = 0\<rparr>
     (TypeNextChar 8 ''hi'') [key_events 8 (CHR ''h'') ! 0, key_events 8 (CHR ''h'') ! 1] Crashed"
proof (rule typing_into_a_closed_tab_crashes)
  show "8 \<in> live (controller_pages demo_class) (Some demo_controller)" by (rule demo_page_live)
  show "8 \<notin> live (controller_pages demo_class) None" by (simp add: live_def)
qed simp

text \<open>
  Pressing a key sends that key down and up without modifiers and answers ok, also for a name
  that is no key: a combination such as \<open>Control+A\<close> is sent as the key code zero and reported as
  pressed, and an upper-case letter is sent without shift.
\<close>

lemma press_key_sends_no_modifiers:
  assumes "ResolveWebContents V t c = Some wc" "ctl_runtime c = Some rt"
    and "run L (controller_pages V) M (Some c) m (CtlPressKey V True t \<lparr>key_key = key\<rparr>) tr (Answered StatusOk s')"
  shows "tr = [press_event wc kRawKeyDown key, press_event wc kKeyUp key] \<and>
    (length key > 1 \<and> key \<notin> fst ` set named_keys \<longrightarrow> km_windows_key_code (MapKey key) = VKEY_ZERO)"
proof -
  have "run L (controller_pages V) M (Some c) m
      (with_view wc (Effect (press_event wc kRawKeyDown key) (AskRandom 50 (\<lambda>r. Later (40 + int r)
        (with_view wc (Effect (press_event wc kKeyUp key) (Answer StatusOk))))))) tr (Answered StatusOk s')"
    using assms
    by (auto simp: CtlPressKey_def RunOrPost_def interaction_page_def with_runtime_def elim!: run_SelfE)
  from conjunct2 [OF run_with_view [OF this]] obtain s2 m2 tr2 where
    1: "tr = press_event wc kRawKeyDown key # tr2"
    "run L (controller_pages V) M s2 m2 (with_view wc (Effect (press_event wc kKeyUp key) (Answer StatusOk)))
       tr2 (Answered StatusOk s')"
    by (auto elim!: run_EffectE run_AskRandomE run_LaterE)
  from conjunct2 [OF run_with_view [OF 1(2)]] have "tr2 = [press_event wc kKeyUp key]"
    by (auto elim!: run_EffectE run_AnswerE)
  moreover have "km_windows_key_code (MapKey key) = VKEY_ZERO" if "length key > 1" "key \<notin> fst ` set named_keys"
  proof -
    have "map_of named_keys key = None" using that(2) by (simp add: map_of_eq_None_iff)
    with that(1) show ?thesis by (auto simp: MapKey_def split: list.split)
  qed
  ultimately show ?thesis using 1(1) by simp
qed

lemma press_key_sends_no_modifiers_witness:
  "\<exists>tr. run ref_lib (controller_pages demo_class) (\<lambda>s s'. True) (Some demo_controller) \<lparr>pt_x = 0, pt_y = 0\<rparr>
      (CtlPressKey demo_class True None \<lparr>key_key = ''Control+A''\<rparr>) tr (Answered StatusOk (Some demo_controller)) \<and>
    tr = [press_event 8 kRawKeyDown ''Control+A'', press_event 8 kKeyUp ''Control+A''] \<and>
    km_windows_key_code (MapKey ''Control+A'') = VKEY_ZERO"
proof -
  have "effect_page (press_event 8 k key) = 8" for k key by (simp add: press_event_def)
  then have "run ref_lib (controller_pages demo_class) (\<lambda>s s'. True) (Some demo_controller) \<lparr>pt_x = 0, pt_y = 0\<rparr>
      (CtlPressKey demo_class True None \<lparr>key_key = ''Control+A''\<rparr>)
      [press_event 8 kRawKeyDown ''Control+A'', press_event 8 kKeyUp ''Control+A'']
      (Answered StatusOk (Some demo_controller))"
    unfolding CtlPressKey_def RunOrPost_def interaction_page_def with_runtime_def if_True
    by (intro run.self; simp add: demo_resolves)
      (intro run_with_viewI run.effect run_pause; simp add: demo_page_live run.answer)
  from press_key_sends_no_modifiers [OF demo_resolves demo_controller_runtime this] this
  show ?thesis by (auto simp: named_keys_def)
qed

subsection \<open>Scrolling\<close>

fun wheel_x :: "effect \<Rightarrow> int" where
  "wheel_x (WheelEvent wc p x y) = x"
| "wheel_x e = 0"

fun wheel_y :: "effect \<Rightarrow> int" where
  "wheel_y (WheelEvent wc p x y) = y"
| "wheel_y e = 0"

lemma scroll_step_run:
  assumes "run L pages M s m (ScrollStep wc dx dy remaining) tr (Answered StatusOk s')" "remaining > 0"
  obtains r tr' s2 m2 where "r \<le> 40"
    "tr = WheelEvent wc m (- (sgn dx * min remaining (40 + int r))) (- (sgn dy * min remaining (40 + int r))) # tr'"
    "run L pages M s2 m2 (ScrollStep wc dx dy (remaining - min remaining (40 + int r))) tr' (Answered StatusOk s')"
proof -
  from assms(2) have "\<not> remaining \<le> 0" by simp
  with assms(1) have "run L pages M s m
      (with_view wc (AskRandom 40 (\<lambda>r.
          let chunk = min remaining (40 + int r);
              step_y = (if dy \<noteq> 0 then (if dy > 0 then 1 else - 1) * chunk else 0);
              step_x = (if dx \<noteq> 0 then (if dx > 0 then 1 else - 1) * chunk else 0)
          in AskMouse (\<lambda>mouse. Effect (WheelEvent wc mouse (- step_x) (- step_y)) (AskRandom 18 (\<lambda>d.
               Later (12 + int d) (ScrollStep wc dx dy (remaining - chunk)))))))) tr (Answered StatusOk s')"
    by (subst (asm) ScrollStep.simps) simp
  from conjunct2 [OF run_with_view [OF this]] show ?thesis
    by (auto elim!: run_AskRandomE run_AskMouseE run_EffectE run_LaterE simp: Let_def sgn_if intro: that)
qed

lemma scroll_trace:
  assumes "run L pages M s m (ScrollStep wc dx dy remaining) tr (Answered StatusOk s')" "remaining \<ge> 0"
  shows "sum_list (map wheel_x tr) = - (sgn dx * remaining) \<and> sum_list (map wheel_y tr) = - (sgn dy * remaining) \<and>
    int (length tr) * 40 < remaining + 40 \<and> (\<forall>e \<in> set tr. \<bar>wheel_x e\<bar> \<le> 80 \<and> \<bar>wheel_y e\<bar> \<le> 80)"
  using assms
proof (induction "nat remaining" arbitrary: s m tr remaining rule: less_induct)
  case less
  show ?case
  proof (cases "remaining = 0")
    case True
    with less.prems(1) show ?thesis by (subst (asm) ScrollStep.simps) (auto elim!: run_AnswerE)
  next
    case False
    with less.prems(2) have pos: "remaining > 0" by simp
    from less.prems(1) pos obtain r tr' s2 m2 where r: "r \<le> 40"
      and tr: "tr = WheelEvent wc m (- (sgn dx * min remaining (40 + int r)))
        (- (sgn dy * min remaining (40 + int r))) # tr'"
      and rest: "run L pages M s2 m2 (ScrollStep wc dx dy (remaining - min remaining (40 + int r))) tr' (Answered StatusOk s')"
      by (rule scroll_step_run)
    let ?c = "min remaining (40 + int r)"
    have c: "0 < ?c" "?c \<le> 80" "?c \<le> remaining" using r pos by auto
    have IH: "sum_list (map wheel_x tr') = - (sgn dx * (remaining - ?c))"
      "sum_list (map wheel_y tr') = - (sgn dy * (remaining - ?c))"
      "int (length tr') * 40 < remaining - ?c + 40"
      "\<forall>e \<in> set tr'. \<bar>wheel_x e\<bar> \<le> 80 \<and> \<bar>wheel_y e\<bar> \<le> 80"
      using less.hyps [OF _ rest] c by auto
    have "\<bar>sgn d * ?c\<bar> \<le> 80" for d :: int using c by (auto simp: sgn_if)
    moreover have "int (length tr) * 40 < remaining + 40"
    proof (cases "remaining \<le> 40 + int r")
      case True
      then have "tr' = []" using IH(3) by simp
      with tr pos show ?thesis by simp
    next
      case False
      with IH(3) tr show ?thesis by simp
    qed
    ultimately show ?thesis using IH(1,2,4) by (simp add: tr algebra_simps)
  qed
qed

text \<open>
  Scrolling that answers ok has turned the wheel, on each axis that was asked for, by the larger
  of the two distances, in the asked direction and in steps of at most 80, and it took at most one
  step per 40 pixels: a scroll by (10, 300) also moves 300 sideways.
\<close>

lemma scrolling_distance:
  assumes "ResolveWebContents V t c = Some wc" "ctl_runtime c = Some rt"
    and "c_abs (scroll_delta_x z) \<noteq> None" "c_abs (scroll_delta_y z) \<noteq> None"
    and "run L (controller_pages V) M (Some c) m (CtlScroll V True t z) tr (Answered StatusOk s')"
  shows "let total = max \<bar>sint (scroll_delta_x z)\<bar> \<bar>sint (scroll_delta_y z)\<bar>
    in sum_list (map wheel_x tr) = - (sgn (sint (scroll_delta_x z)) * total) \<and>
       sum_list (map wheel_y tr) = - (sgn (sint (scroll_delta_y z)) * total) \<and>
       int (length tr) * 40 < total + 40 \<and> (\<forall>e \<in> set tr. \<bar>wheel_x e\<bar> \<le> 80 \<and> \<bar>wheel_y e\<bar> \<le> 80)"
proof -
  let ?t = "max \<bar>sint (scroll_delta_x z)\<bar> \<bar>sint (scroll_delta_y z)\<bar>"
  from assms(3,4) obtain dx dy where d: "c_abs (scroll_delta_x z) = Some dx" "c_abs (scroll_delta_y z) = Some dy" by blast
  have a: "sint dx = \<bar>sint (scroll_delta_x z)\<bar>" "sint dy = \<bar>sint (scroll_delta_y z)\<bar>"
    using d by (simp_all add: sint_c_abs)
  show ?thesis
  proof (cases "?t = 0")
    case True
    then have z: "sint (scroll_delta_x z) = 0" "sint (scroll_delta_y z) = 0" by auto
    with assms(5) have "tr = []"
      by (auto simp: CtlScroll_def RunOrPost_def interaction_page_def with_runtime_def assms(1,2) d a Let_def
          elim!: run_SelfE run_AnswerE)
    with z show ?thesis by simp
  next
    case False
    with assms(5) have "run L (controller_pages V) M (Some c) m
        (ScrollStep wc (sint (scroll_delta_x z)) (sint (scroll_delta_y z)) ?t) tr (Answered StatusOk s')"
      by (auto simp: CtlScroll_def RunOrPost_def interaction_page_def with_runtime_def assms(1,2) d a Let_def
          elim!: run_SelfE)
    from scroll_trace [OF this] show ?thesis by (simp add: Let_def)
  qed
qed

lemma scrolling_distance_witness:
  "\<exists>tr. run ref_lib (controller_pages demo_class) (\<lambda>s s'. True) (Some demo_controller) \<lparr>pt_x = 0, pt_y = 0\<rparr>
      (CtlScroll demo_class True None \<lparr>scroll_delta_x = 10, scroll_delta_y = 30\<rparr>) tr
      (Answered StatusOk (Some demo_controller)) \<and> sum_list (map wheel_x tr) = - 30"
proof -
  let ?z = "\<lparr>scroll_delta_x = 10, scroll_delta_y = 30\<rparr> :: ScrollOptions"
  have abs: "c_abs 10 = Some 10" "c_abs 30 = Some 30" by code_simp+
  have step: "run ref_lib (controller_pages demo_class) (\<lambda>s s'. True) (Some demo_controller) m
      (ScrollStep 8 10 30 0) [] (Answered StatusOk (Some demo_controller))" for m
    by (subst ScrollStep.simps) (simp add: run.answer)
  have "run ref_lib (controller_pages demo_class) (\<lambda>s s'. True) (Some demo_controller) \<lparr>pt_x = 0, pt_y = 0\<rparr>
      (ScrollStep 8 10 30 30) [WheelEvent 8 \<lparr>pt_x = 0, pt_y = 0\<rparr> (- 30) (- 30)] (Answered StatusOk (Some demo_controller))"
    by (subst ScrollStep.simps, simp only: if_False flip: not_le, simp,
        intro run_with_viewI demo_page_live run.random [where i = 0], simp,
        rule run.mouse, rule run.effect, simp add: demo_page_live, rule run.random [where i = 0], simp,
        rule run.later [where M = "\<lambda>s s'. True", OF TrueI], rule step)
  then have "run ref_lib (controller_pages demo_class) (\<lambda>s s'. True) (Some demo_controller) \<lparr>pt_x = 0, pt_y = 0\<rparr>
      (CtlScroll demo_class True None ?z) [WheelEvent 8 \<lparr>pt_x = 0, pt_y = 0\<rparr> (- 30) (- 30)]
      (Answered StatusOk (Some demo_controller))"
    unfolding CtlScroll_def RunOrPost_def interaction_page_def with_runtime_def if_True
    by (intro run.self; simp add: demo_resolves abs)
  from scrolling_distance [OF demo_resolves demo_controller_runtime _ _ this] this show ?thesis
    by (force simp: abs)
qed

section \<open>Staying clear of crashes\<close>

text \<open>The tabs there are stay; other tabs may come.\<close>

definition pages_stay :: "'rt runtime_class \<Rightarrow> ('rt \<Rightarrow> bool) \<Rightarrow> 'rt controller option \<Rightarrow> 'rt controller option \<Rightarrow> bool" where
  "pages_stay V ok s s' \<longleftrightarrow>
     controllers_ok ok s' \<and> live (controller_pages V) s \<subseteq> live (controller_pages V) s'"

lemma type_next_wp:
  "wc \<in> live (controller_pages V) s \<Longrightarrow>
     wp (TypeNextChar wc cs) (controller_pages V) (pages_stay V ok) (\<lambda>_ _. True) s"
  by (induction cs arbitrary: s) (auto simp: with_view_def key_events_def Let_def pages_stay_def)

lemma scroll_step_wp:
  "wc \<in> live (controller_pages V) s \<Longrightarrow>
     wp (ScrollStep wc dx dy remaining) (controller_pages V) (pages_stay V ok) (\<lambda>_ _. True) s"
proof (induction "nat remaining" arbitrary: s remaining rule: less_induct)
  case less
  have "wp (ScrollStep wc dx dy (remaining - min remaining (40 + int r))) (controller_pages V) (pages_stay V ok) (\<lambda>_ _. True) s'"
    if "\<not> remaining \<le> 0" "pages_stay V ok s s'" for r s'
    using less that by (auto simp: pages_stay_def)
  with less.prems show ?case
    by (subst ScrollStep.simps) (simp add: with_view_def Let_def)
qed

lemma eval_status_wp:
  "wc \<in> live pages s \<Longrightarrow> wp (EvalStatusJS wc x) pages M (\<lambda>_ _. True) s"
  by (simp add: EvalStatusJS_def split: option.split json.split)

context page_owner
begin

lemma wp_interaction_page:
  assumes "controllers_ok inv s"
    and "\<And>wc. wc \<in> live (controller_pages V) s \<Longrightarrow> wp (k wc) (controller_pages V) M (\<lambda>_ _. True) s"
  shows "wp (interaction_page V t k) (controller_pages V) M (\<lambda>_ _. True) s"
  using assms resolve_live
  by (auto simp: interaction_page_def intro!: wp_with_runtime split: option.split)

lemma wp_interaction:
  assumes "controllers_ok inv s" "\<And>s'. M s s' \<Longrightarrow> controllers_ok inv s'"
    and "\<And>wc s. wc \<in> live (controller_pages V) s \<Longrightarrow> wp (k wc) (controller_pages V) M (\<lambda>_ _. True) s"
  shows "wp (RunOrPost now (interaction_page V t k)) (controller_pages V) M (\<lambda>_ _. True) s"
  using assms by (intro wp_RunOrPost wp_interaction_page) auto

text \<open>On an element of the DOM snapshot an operation is one script, whatever the world does meanwhile.\<close>

lemma dom_reference_wp:
  assumes "controllers_ok inv s" "\<And>s'. M s s' \<Longrightarrow> controllers_ok inv s'"
  shows "ParseDomRef L (ref_ref re) \<noteq> None \<Longrightarrow> wp (CtlClick V L F now t re) (controller_pages V) M (\<lambda>_ _. True) s"
    and "ParseDomRef L (ref_ref re) \<noteq> None \<Longrightarrow> wp (CtlHover V L F now t re) (controller_pages V) M (\<lambda>_ _. True) s"
    and "ParseDomRef L (type_ref ty) \<noteq> None \<Longrightarrow> wp (CtlType V L now t ty) (controller_pages V) M (\<lambda>_ _. True) s"
    and "wp (CtlSelectOption V L now t se) (controller_pages V) M (\<lambda>_ _. True) s"
    and "ParseDomRef L (drag_start_ref dr) \<noteq> None \<Longrightarrow> ParseDomRef L (drag_end_ref dr) \<noteq> None \<Longrightarrow>
      wp (CtlDrag V L F now t dr) (controller_pages V) M (\<lambda>_ _. True) s"
  unfolding CtlClick_def CtlHover_def CtlType_def CtlSelectOption_def CtlDrag_def
  by (intro wp_interaction [OF assms]; auto simp: eval_status_wp split: option.split)+

end

subsection \<open>No view or frame that is not there\<close>

lemma looks_first_with_view: "looks_first (with_view wc t) H \<longleftrightarrow> ((HasView, wc) \<in> H \<longrightarrow> looks_first t H)"
  by (simp add: with_view_def)

lemma looks_first_eval_status: "looks_first (EvalStatusJS wc x) H"
  by (auto simp: EvalStatusJS_def split: option.split json.split)

lemma looks_first_path:
  "(\<And>path. looks_first (k path) H) \<Longrightarrow> looks_first (path_loop G B n i path k) H"
  by (induction i arbitrary: path) (auto simp: Let_def)

lemma looks_first_mouse_path:
  "(\<And>path. looks_first (k path) H) \<Longrightarrow> looks_first (GenerateMousePath G a b k) H"
  by (auto simp: GenerateMousePath_def Let_def intro!: looks_first_path split: option.split)

lemma looks_first_animate:
  "(\<And>H. looks_first t H) \<Longrightarrow> looks_first (AnimateMousePath wc path t) H"
  by (induction path arbitrary: H) auto

lemma looks_first_typing: "looks_first (TypeNextChar wc cs) H"
  by (induction cs arbitrary: H) (auto simp: looks_first_with_view key_events_def Let_def)

lemma looks_first_scroll: "looks_first (ScrollStep wc dx dy remaining) H"
proof (induction wc dx dy remaining arbitrary: H rule: ScrollStep.induct)
  case (1 wc dx dy remaining)
  then show ?case by (subst ScrollStep.simps) (auto simp: looks_first_with_view Let_def)
qed

lemma looks_first_press_and_release: "looks_first (press_and_release wc p) H"
  by (simp add: press_and_release_def looks_first_with_view)

lemma looks_first_script_at: "looks_first t H \<Longrightarrow> looks_first (script_at G wc script p t) H"
  by (simp add: script_at_def split: option.split)

lemma looks_first_drag: "looks_first (drag_nodes L G wc a b) H"
  unfolding drag_nodes_def
  by (auto simp: looks_first_with_view intro!: looks_first_mouse_path looks_first_animate looks_first_script_at)

lemma looks_first_interaction:
  assumes "\<And>wc H. looks_first (k wc) H" shows "looks_first (RunOrPost now (interaction_page V t k)) H"
proof (rule looks_first_RunOrPost)
  show "looks_first (interaction_page V t k) H" for H
    using assms by (auto simp: interaction_page_def with_runtime_def split: option.split)
qed

lemma interactions_look_first:
  "looks_first (CtlClick V L G now t re) H" "looks_first (CtlHover V L G now t re) H"
  "looks_first (CtlType V L now t ty) H" "looks_first (CtlPressKey V now t ke) H"
  "looks_first (CtlSelectOption V L now t se) H" "looks_first (CtlDrag V L G now t dr) H"
  "looks_first (CtlScroll V now t z) H"
  unfolding CtlClick_def CtlHover_def CtlType_def CtlPressKey_def CtlSelectOption_def CtlDrag_def CtlScroll_def
  by (rule looks_first_interaction;
      auto simp: looks_first_eval_status looks_first_typing looks_first_scroll looks_first_press_and_release
        looks_first_drag looks_first_with_view press_event_def Let_def
        intro!: looks_first_mouse_path looks_first_animate split: option.split prod.split)+

text \<open>
  C33: no input operation sends an event to a render view, or an accessibility action to a frame, that is not
  there: a click, a hover, typing, a key, a selection, a drag and a scroll ask again after every pause, whatever
  the pages have by then. And while their tab stays open (typing into one that is closed is a crash), typing, pressing a
  key, selecting an option and scrolling do not crash at all, at any point of the operation and with any text;
  scrolling needs that neither distance is the smallest \<open>int\<close>, whose absolute value overflows.
\<close>

theorem keyboard_and_scroll_safe:
  assumes "page_owner V ok room" "controllers_ok ok s"
  shows "(\<forall>operation \<in> {CtlClick V L G now t re, CtlHover V L G now t re, CtlType V L now t ty, CtlPressKey V now t ke,
        CtlSelectOption V L now t se, CtlDrag V L G now t dr, CtlScroll V now t z}. \<not> uses_missing H operation) \<and>
    always L V (pages_stay V ok) s (CtlType V L now t ty) (\<lambda>_ _. True) \<and>
    always L V (pages_stay V ok) s (CtlPressKey V now t ke) (\<lambda>_ _. True) \<and>
    always L V (pages_stay V ok) s (CtlSelectOption V L now t se) (\<lambda>_ _. True) \<and>
    (sint (scroll_delta_x z) \<noteq> - (2 ^ 31) \<and> sint (scroll_delta_y z) \<noteq> - (2 ^ 31) \<longrightarrow>
       always L V (pages_stay V ok) s (CtlScroll V now t z) (\<lambda>_ _. True))"
proof (intro conjI impI always_wp)
  show "\<forall>operation \<in> {CtlClick V L G now t re, CtlHover V L G now t re, CtlType V L now t ty, CtlPressKey V now t ke,
      CtlSelectOption V L now t se, CtlDrag V L G now t dr, CtlScroll V now t z}. \<not> uses_missing H operation"
    by (intro ballI looks_first_never_missing) (elim insertE emptyE; simp add: interactions_look_first)
  have later: "pages_stay V ok s s' \<Longrightarrow> controllers_ok ok s'" for s' by (simp add: pages_stay_def)
  note interaction = page_owner.wp_interaction [OF assms later]
  show "wp (CtlType V L now t ty) (controller_pages V) (pages_stay V ok) (\<lambda>_ _. True) s"
    unfolding CtlType_def
    by (rule interaction) (auto simp: eval_status_wp type_next_wp Let_def pages_stay_def split: option.split)
  show "wp (CtlPressKey V now t ke) (controller_pages V) (pages_stay V ok) (\<lambda>_ _. True) s"
    unfolding CtlPressKey_def
    by (rule interaction) (auto simp: with_view_def press_event_def pages_stay_def)
  show "wp (CtlSelectOption V L now t se) (controller_pages V) (pages_stay V ok) (\<lambda>_ _. True) s"
    unfolding CtlSelectOption_def
    by (rule interaction) (auto simp: eval_status_wp split: option.split)
  assume z: "sint (scroll_delta_x z) \<noteq> - (2 ^ 31) \<and> sint (scroll_delta_y z) \<noteq> - (2 ^ 31)"
  then obtain dx dy where "c_abs (scroll_delta_x z) = Some dx" "c_abs (scroll_delta_y z) = Some dy"
    using c_abs_None by (metis not_None_eq)
  then show "wp (CtlScroll V now t z) (controller_pages V) (pages_stay V ok) (\<lambda>_ _. True) s"
    unfolding CtlScroll_def
    by (intro interaction) (auto simp: scroll_step_wp Let_def)
qed

theorem keyboard_and_scroll_safe_witness:
  "\<not> run ref_lib (controller_pages demo_class) (pages_stay demo_class (gui_ok ref_lib)) (Some demo_controller)
     \<lparr>pt_x = 0, pt_y = 0\<rparr> (CtlPressKey demo_class False None \<lparr>key_key = ''Enter''\<rparr>) [] Crashed"
  using keyboard_and_scroll_safe [OF demo_class_owner demo_controllers_ok, where ke = "\<lparr>key_key = ''Enter''\<rparr>"]
  unfolding always_def by (metis outcome_ok_simps(3))

text \<open>
  An operation on an element of the last DOM snapshot (a \<open>dom:\<close> reference) is one script run in
  the page: it never crashes, whatever becomes of the tabs and of the controller meanwhile.
\<close>

lemma dom_reference_operations_safe:
  assumes "page_owner V ok room" "controllers_ok ok s"
    and "ParseDomRef L (ref_ref re) \<noteq> None" "ParseDomRef L (type_ref ty) \<noteq> None"
    and "ParseDomRef L (drag_start_ref dr) \<noteq> None" "ParseDomRef L (drag_end_ref dr) \<noteq> None"
  shows "always L V (meanwhile ok) s (CtlClick V L F now t re) (\<lambda>_ _. True) \<and>
    always L V (meanwhile ok) s (CtlHover V L F now t re) (\<lambda>_ _. True) \<and>
    always L V (meanwhile ok) s (CtlType V L now t ty) (\<lambda>_ _. True) \<and>
    always L V (meanwhile ok) s (CtlSelectOption V L now t se) (\<lambda>_ _. True) \<and>
    always L V (meanwhile ok) s (CtlDrag V L F now t dr) (\<lambda>_ _. True)"
proof -
  have later: "meanwhile ok s s' \<Longrightarrow> controllers_ok ok s'" for s' by (simp add: meanwhile_def)
  show ?thesis
    by (intro conjI always_wp page_owner.dom_reference_wp [OF assms(1,2) later] assms(3-6))
qed

lemma dom_reference_operations_safe_witness:
  "\<not> run ref_lib (controller_pages demo_class) (meanwhile (gui_ok ref_lib)) (Some demo_controller)
     \<lparr>pt_x = 0, pt_y = 0\<rparr> (CtlType demo_class ref_lib False None
       \<lparr>type_ref = ''dom:3'', type_text = ''x'', type_clear = True\<rparr>) [] Crashed"
proof -
  have "ParseDomRef ref_lib ''dom:3'' \<noteq> None" by code_simp
  with dom_reference_operations_safe [OF demo_class_owner demo_controllers_ok, of ref_lib "\<lparr>ref_ref = ''dom:3''\<rparr>"
      "\<lparr>type_ref = ''dom:3'', type_text = ''x'', type_clear = True\<rparr>"
      "\<lparr>drag_start_ref = ''dom:3'', drag_end_ref = ''dom:3''\<rparr>"]
  show ?thesis unfolding always_def by (metis DragOptions.simps RefOptions.simps TypeOptions.simps outcome_ok_simps(3))
qed

end
