(* ===== verification/Switches.thy ===== *)
theory Switches
  imports Base_Lib
begin

section \<open>Command line switches (\<open>embedder_switches.cc\<close>, \<open>startup/browserd_main.cc\<close>)\<close>

text \<open>
  What a run of the browser puts on its own command line and on those of its child processes. The
  command line is Chromium's \<open>base::CommandLine\<close>: the record \<open>cl_ops\<close> of the operations the sources
  call, with the law \<open>command_line_law\<close> of its documentation, and \<open>list_cl\<close> is an instance of it.
  A pointer to a command line is an option. The switches that Chromium names are \<open>switch_names\<close>.
  The Linux build is the one modelled.
\<close>

record 'c cl_ops =
  cl_has :: "'c \<Rightarrow> string \<Rightarrow> bool"                     \<comment> \<open>\<open>HasSwitch\<close>\<close>
  cl_value :: "'c \<Rightarrow> string \<Rightarrow> string"                 \<comment> \<open>\<open>GetSwitchValueASCII\<close>\<close>
  cl_set :: "string \<Rightarrow> string \<Rightarrow> 'c \<Rightarrow> 'c"             \<comment> \<open>\<open>AppendSwitchASCII\<close>; \<open>AppendSwitch\<close> gives no value\<close>
  cl_remove :: "string \<Rightarrow> 'c \<Rightarrow> 'c"                    \<comment> \<open>\<open>RemoveSwitch\<close>\<close>

text \<open>A switch is there once it was appended, with the value appended last; the others stay.\<close>

definition command_line_law :: "'c cl_ops \<Rightarrow> bool" where
  "command_line_law C \<longleftrightarrow>
     (\<forall>n v c m. cl_has C (cl_set C n v c) m = (m = n \<or> cl_has C c m)) \<and>
     (\<forall>n v c m. cl_value C (cl_set C n v c) m = (if m = n then v else cl_value C c m)) \<and>
     (\<forall>n c m. cl_has C (cl_remove C n c) m = (m \<noteq> n \<and> cl_has C c m)) \<and>
     (\<forall>n c m. cl_value C (cl_remove C n c) m = (if m = n then [] else cl_value C c m)) \<and>
     (\<forall>c m. \<not> cl_has C c m \<longrightarrow> cl_value C c m = [])"

definition list_cl :: "(string \<times> string) list cl_ops" where
  "list_cl =
     \<lparr>cl_has = (\<lambda>c n. map_of c n \<noteq> None),
      cl_value = (\<lambda>c n. case map_of c n of None \<Rightarrow> [] | Some v \<Rightarrow> v),
      cl_set = (\<lambda>n v c. AList.update n v c),
      cl_remove = (\<lambda>n c. AList.delete n c)\<rparr>"

lemma list_cl_simps:
  "cl_has list_cl (cl_set list_cl n v c) m = (m = n \<or> cl_has list_cl c m)"
  "cl_value list_cl (cl_set list_cl n v c) m = (if m = n then v else cl_value list_cl c m)"
  "cl_has list_cl (cl_remove list_cl n c) m = (m \<noteq> n \<and> cl_has list_cl c m)"
  "cl_value list_cl (cl_remove list_cl n c) m = (if m = n then [] else cl_value list_cl c m)"
  "\<not> cl_has list_cl c m \<Longrightarrow> cl_value list_cl c m = []"
  by (simp_all add: list_cl_def update_conv delete_conv)

lemma list_cl_law: "command_line_law list_cl"
  by (simp add: command_line_law_def list_cl_simps)

lemma command_line_simps:
  assumes "command_line_law C"
  shows "cl_has C (cl_set C n v c) m = (m = n \<or> cl_has C c m)"
    "cl_value C (cl_set C n v c) m = (if m = n then v else cl_value C c m)"
    "cl_has C (cl_remove C n c) m = (m \<noteq> n \<and> cl_has C c m)"
    "cl_value C (cl_remove C n c) m = (if m = n then [] else cl_value C c m)"
    "\<not> cl_has C c m \<Longrightarrow> cl_value C c m = []"
  using assms by (simp_all add: command_line_law_def)

record switch_names =
  kDisableFeatures :: string
  kEnableFeatures :: string
  kProcessType :: string
  kGpuProcess :: string
  kRendererProcess :: string
  kEnableGPU :: string
  kDisableGpu :: string
  kDisableGpuCompositing :: string
  kDisableAcceleratedVideoDecode :: string
  kDisableGpuMemoryBufferVideoFrames :: string
  kUseGL :: string
  kUseCmdDecoder :: string
  kEnableUnsafeSwiftShader :: string
  kAcceptLang :: string
  kScreenInfo :: string
  kGLImplementationEGLName :: string
  kCmdDecoderValidatingName :: string

definition kGui :: string where
  "kGui = ''gui''"

definition kUserDataDir :: string where
  "kUserDataDir = ''user-data-dir''"

definition kGuiEnvironment :: string where
  "kGuiEnvironment = ''BROWSERD_INTERNAL_GUI''"

definition kFallbackToSWIfGLES3NotSupported :: string where
  "kFallbackToSWIfGLES3NotSupported = ''FallbackToSWIfGLES3NotSupported''"

definition kDisableWaylandGbmSurfaceless :: string where
  "kDisableWaylandGbmSurfaceless = ''disable-wayland-gbm-surfaceless''"

definition kBrowserdForceGles2Context :: string where
  "kBrowserdForceGles2Context = ''browserd-force-gles2-context''"

definition kBrowserdDisableDawnInfo :: string where
  "kBrowserdDisableDawnInfo = ''browserd-disable-dawn-info''"

subsection \<open>Merging lists of features\<close>

definition IsCommaMergedSwitch :: "switch_names \<Rightarrow> string \<Rightarrow> bool" where
  "IsCommaMergedSwitch N name \<longleftrightarrow> name = kDisableFeatures N \<or> name = kEnableFeatures N"

fun push_new :: "string list \<Rightarrow> string list \<Rightarrow> string list" where
  "push_new values [] = values"
| "push_new values (v # vs) = push_new (if v \<in> set values then values else values @ [v]) vs"

fun join_commas :: "string \<Rightarrow> string list \<Rightarrow> string" where
  "join_commas merged [] = merged"
| "join_commas merged (v # vs) = join_commas ((if merged \<noteq> [] then merged @ '','' else merged) @ v) vs"

definition MergeCommaSeparatedValues :: "base_lib \<Rightarrow> string \<Rightarrow> string \<Rightarrow> string" where
  "MergeCommaSeparatedValues L existing incoming =
     (if existing = [] then incoming
      else if incoming = [] then existing
      else join_commas [] (push_new (lib_split L existing) (lib_split L incoming)))"

definition HasCommaSeparatedValue :: "'c cl_ops \<Rightarrow> base_lib \<Rightarrow> 'c \<Rightarrow> string \<Rightarrow> string \<Rightarrow> bool" where
  "HasCommaSeparatedValue C L command_line name expected \<longleftrightarrow>
     (\<exists>v \<in> set (lib_split L (cl_value C command_line name)). v = expected)"

subsection \<open>The embedder's switches\<close>

record EmbedderSwitch =
  es_name :: string
  es_value :: "string option"
  es_scope :: "32 word"

definition kSwitchScopeBrowser :: "32 word" where
  "kSwitchScopeBrowser = 1"

definition kSwitchScopeGpuChild :: "32 word" where
  "kSwitchScopeGpuChild = 2"

definition kSwitchScopeRendererChild :: "32 word" where
  "kSwitchScopeRendererChild = 4"

definition kSwitchScopeAllChildren :: "32 word" where
  "kSwitchScopeAllChildren = 8"

text \<open>The policy is the process-wide list; its lock makes each access one step.\<close>

type_synonym policy = "EmbedderSwitch list"

definition SetEmbedderSwitches :: "EmbedderSwitch list \<Rightarrow> policy \<Rightarrow> policy" where
  "SetEmbedderSwitches sws policy = sws"

definition ClearEmbedderSwitches :: "policy \<Rightarrow> policy" where
  "ClearEmbedderSwitches policy = SetEmbedderSwitches [] policy"

definition AppendSwitch ::
  "'c cl_ops \<Rightarrow> switch_names \<Rightarrow> base_lib \<Rightarrow> EmbedderSwitch \<Rightarrow> 'c option \<Rightarrow> 'c option" where
  "AppendSwitch C N L sw command_line =
     (case command_line of
        None \<Rightarrow> None
      | Some c \<Rightarrow>
          if es_name sw = [] then Some c
          else
            case es_value sw of
              None \<Rightarrow> Some (cl_set C (es_name sw) [] (cl_remove C (es_name sw) c))
            | Some v \<Rightarrow>
                if IsCommaMergedSwitch N (es_name sw)
                then Some (cl_set C (es_name sw) (MergeCommaSeparatedValues L (cl_value C c (es_name sw)) v) c)
                else Some (cl_set C (es_name sw) v (cl_remove C (es_name sw) c)))"

unbundle bit_operations_syntax

definition ScopeForChildProcess :: "'c cl_ops \<Rightarrow> switch_names \<Rightarrow> 'c option \<Rightarrow> 32 word" where
  "ScopeForChildProcess C N command_line =
     (case command_line of
        None \<Rightarrow> 0
      | Some c \<Rightarrow>
          let process_type = cl_value C c (kProcessType N)
          in if process_type = kGpuProcess N then kSwitchScopeAllChildren OR kSwitchScopeGpuChild
             else if process_type = kRendererProcess N then kSwitchScopeAllChildren OR kSwitchScopeRendererChild
             else kSwitchScopeAllChildren)"

fun append_scoped ::
  "'c cl_ops \<Rightarrow> switch_names \<Rightarrow> base_lib \<Rightarrow> 32 word \<Rightarrow> EmbedderSwitch list \<Rightarrow> 'c option \<Rightarrow> 'c option" where
  "append_scoped C N L scope [] command_line = command_line"
| "append_scoped C N L scope (sw # sws) command_line =
     append_scoped C N L scope sws
       (if es_scope sw AND scope \<noteq> 0 then AppendSwitch C N L sw command_line else command_line)"

definition AppendSwitchesForScope ::
  "'c cl_ops \<Rightarrow> switch_names \<Rightarrow> base_lib \<Rightarrow> policy \<Rightarrow> 32 word \<Rightarrow> 'c option \<Rightarrow> 'c option" where
  "AppendSwitchesForScope C N L policy scope command_line =
     (if scope = 0 then command_line else append_scoped C N L scope policy command_line)"

definition AppendDefaultGpuChildSwitches ::
  "'c cl_ops \<Rightarrow> switch_names \<Rightarrow> base_lib \<Rightarrow> 32 word \<Rightarrow> 'c option \<Rightarrow> 'c option" where
  "AppendDefaultGpuChildSwitches C N L scope command_line =
     (case command_line of
        None \<Rightarrow> None
      | Some c0 \<Rightarrow>
          if scope AND kSwitchScopeGpuChild = 0 then Some c0
          else
            let add = (\<lambda>name value. AppendSwitch C N L
                  \<lparr>es_name = name, es_value = value, es_scope = kSwitchScopeGpuChild\<rparr>);
                c1 = add kBrowserdForceGles2Context None (add kDisableWaylandGbmSurfaceless None (Some c0))
            in case c1 of
                 None \<Rightarrow> None
               | Some c \<Rightarrow>
                   if HasCommaSeparatedValue C L c (kEnableFeatures N) kFallbackToSWIfGLES3NotSupported then c1
                   else add (kDisableFeatures N) (Some kFallbackToSWIfGLES3NotSupported) c1)"

definition AppendEmbedderSwitchesForBrowser ::
  "'c cl_ops \<Rightarrow> switch_names \<Rightarrow> base_lib \<Rightarrow> policy \<Rightarrow> 'c option \<Rightarrow> 'c option" where
  "AppendEmbedderSwitchesForBrowser C N L policy command_line =
     AppendSwitchesForScope C N L policy kSwitchScopeBrowser command_line"

definition AppendEmbedderSwitchesForChild ::
  "'c cl_ops \<Rightarrow> switch_names \<Rightarrow> base_lib \<Rightarrow> policy \<Rightarrow> 'c option \<Rightarrow> 'c option" where
  "AppendEmbedderSwitchesForChild C N L policy command_line =
     (let scope = ScopeForChildProcess C N command_line
      in AppendDefaultGpuChildSwitches C N L scope (AppendSwitchesForScope C N L policy scope command_line))"

subsection \<open>The defaults of the command line\<close>

type_synonym environment = "string \<Rightarrow> string option"

definition ShouldAutoEnableGpu :: "bool \<Rightarrow> environment \<Rightarrow> bool" where
  "ShouldAutoEnableGpu requested_gui env \<longleftrightarrow>
     requested_gui \<or> env ''DISPLAY'' \<noteq> None \<or> env ''WAYLAND_DISPLAY'' \<noteq> None"

definition AppendCommaSeparatedSwitchValue :: "'c cl_ops \<Rightarrow> string \<Rightarrow> string \<Rightarrow> 'c \<Rightarrow> 'c" where
  "AppendCommaSeparatedSwitchValue C name v c =
     (let existing = cl_value C c name
      in if std_contains v existing then c
         else cl_set C name ((if existing \<noteq> [] then existing @ '','' else existing) @ v) (cl_remove C name c))"

definition set_default :: "'c cl_ops \<Rightarrow> string \<Rightarrow> string \<Rightarrow> 'c \<Rightarrow> 'c" where
  "set_default C name v c = (if \<not> cl_has C c name then cl_set C name v c else c)"

definition ConfigureGuiWaylandGpu :: "'c cl_ops \<Rightarrow> switch_names \<Rightarrow> bool \<Rightarrow> 'c \<Rightarrow> 'c" where
  "ConfigureGuiWaylandGpu C N requested_gui c =
     (if \<not> requested_gui \<or> cl_has C c (kDisableGpu N) then c
      else
        set_default C (kUseCmdDecoder N) (kCmdDecoderValidatingName N)
       (set_default C (kUseGL N) (kGLImplementationEGLName N)
       (cl_set C kBrowserdDisableDawnInfo []
       (cl_set C kBrowserdForceGles2Context []
       (cl_set C (kDisableGpuMemoryBufferVideoFrames N) []
       (cl_set C (kDisableAcceleratedVideoDecode N) []
       (cl_set C (kDisableGpuCompositing N) []
       (AppendCommaSeparatedSwitchValue C (kDisableFeatures N) kFallbackToSWIfGLES3NotSupported
       (AppendCommaSeparatedSwitchValue C (kEnableFeatures N) ''UseOzonePlatform''
       (set_default C ''ozone-platform'' ''wayland'' c))))))))))"

definition ConfigureGpu :: "'c cl_ops \<Rightarrow> switch_names \<Rightarrow> bool \<Rightarrow> environment \<Rightarrow> 'c \<Rightarrow> 'c" where
  "ConfigureGpu C N requested_gui env c =
     (if cl_has C c (kEnableGPU N) \<or> cl_has C c (kDisableGpu N) then c
      else if ShouldAutoEnableGpu requested_gui env then cl_set C (kEnableGPU N) [] c
      else cl_set C (kDisableGpu N) [] c)"

text \<open>Answers whether the GUI is wanted, and the environment that the children inherit.\<close>

definition IsGuiRequested :: "'c cl_ops \<Rightarrow> 'c \<Rightarrow> bool \<Rightarrow> environment \<Rightarrow> bool \<times> environment" where
  "IsGuiRequested C c propagate_to_child_processes env =
     (cl_has C c kGui \<or> env kGuiEnvironment \<noteq> None,
      if propagate_to_child_processes \<and> cl_has C c kGui then env(kGuiEnvironment := Some ''1'') else env)"

definition ApplyDefaultCommandLineSwitches ::
  "'c cl_ops \<Rightarrow> switch_names \<Rightarrow> bool \<Rightarrow> bool \<Rightarrow> environment \<Rightarrow> 'c \<Rightarrow> 'c" where
  "ApplyDefaultCommandLineSwitches C N requested_gui include_headless_defaults env c =
     (let c1 = ConfigureGuiWaylandGpu C N requested_gui c;
          c2 = ConfigureGpu C N requested_gui env c1;
          c3 = cl_set C ''use-fake-device-for-media-stream'' [] (cl_set C (kEnableUnsafeSwiftShader N) [] c2);
          c4 = set_default C (kAcceptLang N) ''en-US,en'' c3
      in if include_headless_defaults
         then set_default C (kScreenInfo N) ''{0,0 3840x2160 devicePixelRatio=2 workAreaTop=50}'' c4
         else c4)"

subsection \<open>The start of the program (\<open>main.cc\<close>)\<close>

definition EnsureCommandLineInitialized :: "bool \<Rightarrow> bool \<Rightarrow> bool" where
  "EnsureCommandLineInitialized initialized init_ok = (if initialized then True else init_ok)"

definition HasHelpSwitch :: "'c cl_ops \<Rightarrow> 'c \<Rightarrow> bool" where
  "HasHelpSwitch C c \<longleftrightarrow> cl_has C c ''help'' \<or> cl_has C c ''h''"

text \<open>
  The arguments for \<open>content::ContentMain\<close>: those of the host, or else those of the command line;
  \<open>argv\<close> is \<open>None\<close> for a null pointer.
\<close>

definition SetContentMainArgv :: "int \<Rightarrow> string list option \<Rightarrow> string list \<Rightarrow> int \<times> string list" where
  "SetContentMainArgv argc argv own_argv =
     (case argv of
        Some given \<Rightarrow> if argc > 0 then (argc, given) else (int (length own_argv), own_argv)
      | None \<Rightarrow> (int (length own_argv), own_argv))"

datatype 'c main_action =
    PrintsHelp
  | RunsChrome 'c environment
  | RunsHeadless 'c environment

definition browserd_main :: "'c cl_ops \<Rightarrow> switch_names \<Rightarrow> environment \<Rightarrow> 'c \<Rightarrow> 'c main_action" where
  "browserd_main C N env c =
     (if HasHelpSwitch C c then PrintsHelp
      else
        let (requested_gui, env1) = IsGuiRequested C c True env;
            c1 = ApplyDefaultCommandLineSwitches C N requested_gui (\<not> requested_gui) env1 c
        in if requested_gui then RunsChrome c1 env1 else RunsHeadless c1 env1)"

section \<open>Properties\<close>

text \<open>
  The program asks for the GUI exactly when a switch or the environment does, whatever the defaults add, and
  then the processes it starts find the request in the environment.
\<close>

lemma main_runs_gui:
  "(case browserd_main C N env c of
      PrintsHelp \<Rightarrow> HasHelpSwitch C c
    | RunsChrome c1 env1 \<Rightarrow> \<not> HasHelpSwitch C c \<and> (cl_has C c kGui \<or> env kGuiEnvironment \<noteq> None) \<and> env1 kGuiEnvironment \<noteq> None
    | RunsHeadless c1 env1 \<Rightarrow> \<not> HasHelpSwitch C c \<and> \<not> cl_has C c kGui \<and> env kGuiEnvironment = None \<and> env1 = env)"
  by (simp add: browserd_main_def IsGuiRequested_def Let_def)

subsection \<open>Features\<close>

lemma push_new_set: "set (push_new vs ws) = set vs \<union> set ws"
  by (induction vs ws rule: push_new.induct) auto

lemma push_new_prefix: "\<exists>r. push_new vs ws = vs @ r"
  by (induction vs ws rule: push_new.induct) (auto split: if_splits)

lemma push_new_distinct: "distinct vs \<Longrightarrow> distinct (push_new vs ws)"
  by (induction vs ws rule: push_new.induct) auto

lemma lib_split_join:
  assumes "split_law L"
  shows "\<forall>v \<in> set vs. v \<noteq> [] \<and> lib_split L v = [v] \<Longrightarrow> lib_split L (join_commas m vs) = lib_split L m @ vs"
  using assms by (induction m vs rule: join_commas.induct) (simp_all add: split_law_def)

lemma lib_split_merge:
  assumes "split_law L" "a \<noteq> []"
  shows "lib_split L (MergeCommaSeparatedValues L a b) = push_new (lib_split L a) (lib_split L b)"
proof (cases "b = []")
  case True
  with assms show ?thesis by (simp add: MergeCommaSeparatedValues_def split_law_def)
next
  case False
  have "\<forall>v \<in> set (push_new (lib_split L a) (lib_split L b)). v \<noteq> [] \<and> lib_split L v = [v]"
    using assms(1) by (auto simp: push_new_set split_law_def)
  from lib_split_join [OF assms(1) this, of "[]"] assms False show ?thesis
    by (simp add: MergeCommaSeparatedValues_def split_law_def)
qed

text \<open>
  Merging two lists of features loses none and adds none: what Chromium reads from the merged
  value are the features there were, in their order, then the new ones, and a list without
  duplicates stays one; merging the same list again changes nothing.
\<close>

lemma merged_features:
  assumes "split_law L"
  shows "set (lib_split L (MergeCommaSeparatedValues L a b)) = set (lib_split L a) \<union> set (lib_split L b) \<and>
    (\<exists>r. lib_split L (MergeCommaSeparatedValues L a b) = lib_split L a @ r) \<and>
    (distinct (lib_split L a) \<and> a \<noteq> [] \<longrightarrow> distinct (lib_split L (MergeCommaSeparatedValues L a b)))"
proof (cases "a = []")
  case True
  with assms show ?thesis by (simp add: MergeCommaSeparatedValues_def split_law_def)
next
  case False
  from lib_split_merge [OF assms False] push_new_set push_new_prefix push_new_distinct show ?thesis by metis
qed

lemma merged_features_witness:
  "set (lib_split ref_lib (MergeCommaSeparatedValues ref_lib ''A,B'' ''B,C'')) = {''A'', ''B'', ''C''}"
proof -
  have "lib_split ref_lib ''A,B'' = [''A'', ''B'']" "lib_split ref_lib ''B,C'' = [''B'', ''C'']" by code_simp+
  with merged_features [OF split_law_ref_lib, of "''A,B''" "''B,C''"] show ?thesis by auto
qed

text \<open>
  The switch of the GUI on Linux is added unless its text occurs anywhere in the old value, also
  inside the name of another feature; then the feature is not enabled.
\<close>

lemma feature_hidden_by_longer_name:
  "AppendCommaSeparatedSwitchValue list_cl ''enable-features'' ''UseOzonePlatform''
     [(''enable-features'', ''UseOzonePlatformHeadless'')] = [(''enable-features'', ''UseOzonePlatformHeadless'')]"
  by code_simp

subsection \<open>The switches of a child\<close>

text \<open>The switches that the program sets whatever the command line says, and the others it names.\<close>

definition overriding :: "switch_names \<Rightarrow> string list" where
  "overriding N =
     [kDisableFeatures N, kEnableFeatures N, kDisableGpuCompositing N, kDisableAcceleratedVideoDecode N,
      kDisableGpuMemoryBufferVideoFrames N, kBrowserdForceGles2Context, kBrowserdDisableDawnInfo,
      kEnableUnsafeSwiftShader N, ''use-fake-device-for-media-stream'', kDisableWaylandGbmSurfaceless]"

definition respected :: "switch_names \<Rightarrow> string list" where
  "respected N =
     [kAcceptLang N, kScreenInfo N, kUseGL N, kUseCmdDecoder N, ''ozone-platform'', kEnableGPU N, kDisableGpu N]"

definition names_distinct :: "switch_names \<Rightarrow> bool" where
  "names_distinct N \<longleftrightarrow> distinct (overriding N @ respected N) \<and> kDisableFeatures N \<noteq> []"

lemma AppendSwitch_has:
  assumes "command_line_law C"
  shows "\<exists>c'. AppendSwitch C N L sw (Some c) = Some c' \<and>
    (\<forall>n. cl_has C c' n \<longleftrightarrow> cl_has C c n \<or> (n \<noteq> [] \<and> es_name sw = n)) \<and>
    (\<forall>n. n \<noteq> es_name sw \<longrightarrow> cl_value C c' n = cl_value C c n)"
  by (cases "es_value sw") (auto simp: AppendSwitch_def command_line_simps [OF assms])

lemma append_scoped_has:
  assumes "command_line_law C"
  shows "\<exists>c'. append_scoped C N L scope sws (Some c) = Some c' \<and>
    (\<forall>n. cl_has C c' n \<longleftrightarrow> cl_has C c n \<or>
       (\<exists>sw \<in> set sws. es_scope sw AND scope \<noteq> 0 \<and> es_name sw = n \<and> n \<noteq> []))"
proof (induction sws arbitrary: c)
  case (Cons sw sws)
  show ?case
  proof (cases "es_scope sw AND scope = 0")
    case True
    with Cons [of c] show ?thesis by auto
  next
    case False
    from AppendSwitch_has [OF assms, of N L sw c] obtain c1 where
      1: "AppendSwitch C N L sw (Some c) = Some c1"
      "\<forall>n. cl_has C c1 n \<longleftrightarrow> cl_has C c n \<or> (n \<noteq> [] \<and> es_name sw = n)" by blast
    with False Cons [of c1] show ?thesis by auto
  qed
qed simp

lemma gpu_defaults_has:
  assumes "command_line_law C" "names_distinct N"
  shows "\<exists>c'. AppendDefaultGpuChildSwitches C N L scope (Some c) = Some c' \<and>
    (\<forall>n. cl_has C c' n \<longleftrightarrow> cl_has C c n \<or> (scope AND kSwitchScopeGpuChild \<noteq> 0 \<and>
       (n = kDisableWaylandGbmSurfaceless \<or> n = kBrowserdForceGles2Context \<or>
        (n = kDisableFeatures N \<and>
         kFallbackToSWIfGLES3NotSupported \<notin> set (lib_split L (cl_value C c (kEnableFeatures N))))))) \<and>
    cl_value C c' (kEnableFeatures N) = cl_value C c (kEnableFeatures N)"
proof (cases "scope AND kSwitchScopeGpuChild = 0")
  case True
  then show ?thesis by (simp add: AppendDefaultGpuChildSwitches_def)
next
  case False
  let ?sw = "\<lambda>name value. \<lparr>es_name = name, es_value = value, es_scope = kSwitchScopeGpuChild\<rparr>"
  have names: "kEnableFeatures N \<noteq> kDisableWaylandGbmSurfaceless" "kEnableFeatures N \<noteq> kBrowserdForceGles2Context"
    "kEnableFeatures N \<noteq> kDisableFeatures N" "kDisableFeatures N \<noteq> []" "kDisableWaylandGbmSurfaceless \<noteq> []" "kBrowserdForceGles2Context \<noteq> []"
    using assms(2) by (auto simp: names_distinct_def overriding_def kDisableWaylandGbmSurfaceless_def kBrowserdForceGles2Context_def)
  from AppendSwitch_has [OF assms(1), of N L "?sw kDisableWaylandGbmSurfaceless None" c] obtain c1 where
    1: "AppendSwitch C N L (?sw kDisableWaylandGbmSurfaceless None) (Some c) = Some c1"
    "\<And>n. cl_has C c1 n \<longleftrightarrow> cl_has C c n \<or> n = kDisableWaylandGbmSurfaceless"
    "cl_value C c1 (kEnableFeatures N) = cl_value C c (kEnableFeatures N)" using names by auto
  from AppendSwitch_has [OF assms(1), of N L "?sw kBrowserdForceGles2Context None" c1] obtain c2 where
    2: "AppendSwitch C N L (?sw kBrowserdForceGles2Context None) (Some c1) = Some c2"
    "\<And>n. cl_has C c2 n \<longleftrightarrow> cl_has C c1 n \<or> n = kBrowserdForceGles2Context"
    "cl_value C c2 (kEnableFeatures N) = cl_value C c1 (kEnableFeatures N)" using names by auto
  from AppendSwitch_has [OF assms(1), of N L "?sw (kDisableFeatures N) (Some kFallbackToSWIfGLES3NotSupported)" c2]
  obtain c3 where
    3: "AppendSwitch C N L (?sw (kDisableFeatures N) (Some kFallbackToSWIfGLES3NotSupported)) (Some c2) = Some c3"
    "\<And>n. cl_has C c3 n \<longleftrightarrow> cl_has C c2 n \<or> n = kDisableFeatures N"
    "cl_value C c3 (kEnableFeatures N) = cl_value C c2 (kEnableFeatures N)" using names by auto
  show ?thesis
    using False by (auto simp: AppendDefaultGpuChildSwitches_def HasCommaSeparatedValue_def Let_def 1 2 3)
qed

text \<open>
  A child process gets exactly the embedder's switches whose scope it is in, and a GPU process
  the defaults for it: the fallback feature is disabled there unless the command line enables it.
  A child of an unknown type is only in the scope of all children, so it never gets a switch for
  the GPU or renderer process, and no child gets one for the browser.
\<close>

lemma child_switches:
  assumes "command_line_law C" "names_distinct N"
  shows "let process_type = cl_value C c (kProcessType N);
             gpu = (process_type = kGpuProcess N);
             in_scope = (\<lambda>sw. es_scope sw AND kSwitchScopeAllChildren \<noteq> 0 \<or>
               (gpu \<and> es_scope sw AND kSwitchScopeGpuChild \<noteq> 0) \<or>
               (\<not> gpu \<and> process_type = kRendererProcess N \<and> es_scope sw AND kSwitchScopeRendererChild \<noteq> 0))
    in \<exists>c'. AppendEmbedderSwitchesForChild C N L policy (Some c) = Some c' \<and>
      (\<forall>n. cl_has C c' n \<longleftrightarrow> cl_has C c n \<or>
         (\<exists>sw \<in> set policy. in_scope sw \<and> es_name sw = n \<and> n \<noteq> []) \<or>
         (gpu \<and> (n = kDisableWaylandGbmSurfaceless \<or> n = kBrowserdForceGles2Context \<or>
            (n = kDisableFeatures N \<and>
             kFallbackToSWIfGLES3NotSupported \<notin> set (lib_split L (cl_value C c' (kEnableFeatures N)))))))"
proof -
  define gpu where "gpu = (cl_value C c (kProcessType N) = kGpuProcess N)"
  define renderer where "renderer = (\<not> gpu \<and> cl_value C c (kProcessType N) = kRendererProcess N)"
  define scope where "scope = ScopeForChildProcess C N (Some c)"
  have or_zero: "x AND (a OR b) \<noteq> 0 \<longleftrightarrow> x AND a \<noteq> 0 \<or> x AND b \<noteq> 0" for x a b :: "32 word"
    by (simp add: bit.conj_disj_distrib or_eq_0_iff)
  have in_scope: "x AND scope \<noteq> 0 \<longleftrightarrow> x AND kSwitchScopeAllChildren \<noteq> 0 \<or> (gpu \<and> x AND kSwitchScopeGpuChild \<noteq> 0) \<or>
      (renderer \<and> x AND kSwitchScopeRendererChild \<noteq> 0)" for x
    by (auto simp: scope_def ScopeForChildProcess_def gpu_def renderer_def Let_def or_zero)
  have "scope AND kSwitchScopeGpuChild \<noteq> 0 \<longleftrightarrow> gpu"
    unfolding scope_def ScopeForChildProcess_def gpu_def
    by (simp add: Let_def kSwitchScopeAllChildren_def kSwitchScopeGpuChild_def kSwitchScopeRendererChild_def)
  moreover have "scope \<noteq> 0"
    unfolding scope_def ScopeForChildProcess_def
    by (simp add: Let_def kSwitchScopeAllChildren_def kSwitchScopeGpuChild_def kSwitchScopeRendererChild_def)
  moreover obtain c1 where "append_scoped C N L scope policy (Some c) = Some c1"
    "\<And>n. cl_has C c1 n \<longleftrightarrow> cl_has C c n \<or> (\<exists>sw \<in> set policy. es_scope sw AND scope \<noteq> 0 \<and> es_name sw = n \<and> n \<noteq> [])"
    using append_scoped_has [OF assms(1)] by metis
  moreover obtain c2 where "AppendDefaultGpuChildSwitches C N L scope (Some c1) = Some c2"
    "\<And>n. cl_has C c2 n \<longleftrightarrow> cl_has C c1 n \<or> (scope AND kSwitchScopeGpuChild \<noteq> 0 \<and>
       (n = kDisableWaylandGbmSurfaceless \<or> n = kBrowserdForceGles2Context \<or>
        (n = kDisableFeatures N \<and>
         kFallbackToSWIfGLES3NotSupported \<notin> set (lib_split L (cl_value C c1 (kEnableFeatures N))))))"
    "cl_value C c2 (kEnableFeatures N) = cl_value C c1 (kEnableFeatures N)"
    using gpu_defaults_has [OF assms] by metis
  ultimately have "AppendEmbedderSwitchesForChild C N L policy (Some c) = Some c2 \<and>
      (\<forall>n. cl_has C c2 n \<longleftrightarrow> cl_has C c n \<or>
         (\<exists>sw \<in> set policy. es_scope sw AND scope \<noteq> 0 \<and> es_name sw = n \<and> n \<noteq> []) \<or>
         (gpu \<and> (n = kDisableWaylandGbmSurfaceless \<or> n = kBrowserdForceGles2Context \<or>
            (n = kDisableFeatures N \<and>
             kFallbackToSWIfGLES3NotSupported \<notin> set (lib_split L (cl_value C c2 (kEnableFeatures N)))))))"
    by (simp add: AppendEmbedderSwitchesForChild_def AppendSwitchesForScope_def scope_def [symmetric] Let_def)
  then show ?thesis
    unfolding Let_def gpu_def [symmetric] in_scope renderer_def by (intro exI [of _ c2]) blast
qed

definition ref_names :: switch_names where
  "ref_names =
     \<lparr>kDisableFeatures = ''disable-features'', kEnableFeatures = ''enable-features'', kProcessType = ''type'',
      kGpuProcess = ''gpu-process'', kRendererProcess = ''renderer'', kEnableGPU = ''enable-gpu'',
      kDisableGpu = ''disable-gpu'', kDisableGpuCompositing = ''disable-gpu-compositing'',
      kDisableAcceleratedVideoDecode = ''disable-accelerated-video-decode'',
      kDisableGpuMemoryBufferVideoFrames = ''disable-gpu-memory-buffer-video-frames'',
      kUseGL = ''use-gl'', kUseCmdDecoder = ''use-cmd-decoder'',
      kEnableUnsafeSwiftShader = ''enable-unsafe-swiftshader'', kAcceptLang = ''accept-lang'',
      kScreenInfo = ''screen-info'', kGLImplementationEGLName = ''egl'', kCmdDecoderValidatingName = ''validating''\<rparr>"

lemma names_distinct_ref_names: "names_distinct ref_names"
  by code_simp

lemma child_switches_witness:
  "\<exists>c'. AppendEmbedderSwitchesForChild list_cl ref_names ref_lib
      [\<lparr>es_name = ''gpu-only'', es_value = None, es_scope = 2\<rparr>, \<lparr>es_name = ''all'', es_value = None, es_scope = 8\<rparr>]
      (Some [(''type'', ''utility'')]) = Some c' \<and>
    cl_has list_cl c' ''all'' \<and> \<not> cl_has list_cl c' ''gpu-only''"
proof -
  have type: "cl_value list_cl [(''type'', ''utility'')] (kProcessType ref_names) = ''utility''"
    "kGpuProcess ref_names = ''gpu-process''" "kRendererProcess ref_names = ''renderer''"
    "cl_has list_cl [(''type'', ''utility'')] ''all'' = False" "cl_has list_cl [(''type'', ''utility'')] ''gpu-only'' = False"
    by code_simp+
  show ?thesis
    using child_switches [OF list_cl_law names_distinct_ref_names, of "[(''type'', ''utility'')]" ref_lib
        "[\<lparr>es_name = ''gpu-only'', es_value = None, es_scope = 2\<rparr>, \<lparr>es_name = ''all'', es_value = None, es_scope = 8\<rparr>]"]
    by (auto simp: Let_def type kSwitchScopeAllChildren_def kSwitchScopeGpuChild_def kSwitchScopeRendererChild_def)
qed

subsection \<open>The defaults\<close>

lemma set_default_simps:
  assumes "command_line_law C"
  shows "cl_has C (set_default C n v c) m \<longleftrightarrow> m = n \<or> cl_has C c m"
    "cl_value C (set_default C n v c) m = (if m = n \<and> \<not> cl_has C c n then v else cl_value C c m)"
  by (auto simp: set_default_def command_line_simps [OF assms])

lemma AppendCommaSeparatedSwitchValue_simps:
  assumes "command_line_law C"
  shows "m \<noteq> n \<Longrightarrow> cl_has C (AppendCommaSeparatedSwitchValue C n v c) m = cl_has C c m"
    "m \<noteq> n \<Longrightarrow> cl_value C (AppendCommaSeparatedSwitchValue C n v c) m = cl_value C c m"
    "std_prefix (cl_value C c n) (cl_value C (AppendCommaSeparatedSwitchValue C n v c) n)"
    "std_contains v (cl_value C (AppendCommaSeparatedSwitchValue C n v c) n)"
proof -
  have "std_contains v (a @ v)" for a unfolding std_contains_iff by (metis append.right_neutral)
  then show "std_contains v (cl_value C (AppendCommaSeparatedSwitchValue C n v c) n)"
    by (simp add: AppendCommaSeparatedSwitchValue_def Let_def command_line_simps [OF assms] flip: append_assoc)
qed (simp_all add: AppendCommaSeparatedSwitchValue_def Let_def command_line_simps [OF assms] std_prefix_def)

text \<open>A switch that is given keeps its value under each step that does not set it.\<close>

definition keeps :: "'c cl_ops \<Rightarrow> string \<Rightarrow> 'c \<Rightarrow> 'c \<Rightarrow> bool" where
  "keeps C n c c' \<longleftrightarrow> cl_has C c' n \<and> cl_value C c' n = cl_value C c n"

lemma keeps_step:
  assumes "command_line_law C"
  shows "cl_has C c n \<Longrightarrow> keeps C n c c"
    "keeps C n c c1 \<Longrightarrow> keeps C n c (set_default C m v c1)"
    "keeps C n c c1 \<Longrightarrow> n \<noteq> m \<Longrightarrow> keeps C n c (cl_set C m v c1)"
    "keeps C n c c1 \<Longrightarrow> n \<noteq> m \<Longrightarrow> keeps C n c (AppendCommaSeparatedSwitchValue C m v c1)"
  by (auto simp: keeps_def set_default_simps [OF assms] command_line_simps [OF assms]
      AppendCommaSeparatedSwitchValue_simps [OF assms])

lemma defaults_keep:
  assumes "command_line_law C" "cl_has C c n" "n \<notin> set (overriding N)"
  shows "keeps C n c (ConfigureGuiWaylandGpu C N gui c)"
    "keeps C n c (ApplyDefaultCommandLineSwitches C N gui headless env c)"
proof -
  note steps = keeps_step [OF assms(1)]
  have n: "n \<noteq> kDisableFeatures N" "n \<noteq> kEnableFeatures N" "n \<noteq> kDisableGpuCompositing N"
    "n \<noteq> kDisableAcceleratedVideoDecode N" "n \<noteq> kDisableGpuMemoryBufferVideoFrames N"
    "n \<noteq> kBrowserdForceGles2Context" "n \<noteq> kBrowserdDisableDawnInfo" "n \<noteq> kEnableUnsafeSwiftShader N"
    "n \<noteq> ''use-fake-device-for-media-stream''"
    using assms(3) by (simp_all add: overriding_def)
  show w: "keeps C n c (ConfigureGuiWaylandGpu C N gui c)"
    unfolding ConfigureGuiWaylandGpu_def by (simp add: steps n assms(2))
  have "keeps C n c (ConfigureGpu C N gui env (ConfigureGuiWaylandGpu C N gui c))"
  proof (cases "n \<in> {kEnableGPU N, kDisableGpu N}")
    case True
    with w have "cl_has C (ConfigureGuiWaylandGpu C N gui c) (kEnableGPU N) \<or>
        cl_has C (ConfigureGuiWaylandGpu C N gui c) (kDisableGpu N)" by (auto simp: keeps_def)
    with w show ?thesis by (simp add: ConfigureGpu_def)
  next
    case False
    with w show ?thesis by (simp add: ConfigureGpu_def steps)
  qed
  then show "keeps C n c (ApplyDefaultCommandLineSwitches C N gui headless env c)"
    by (simp add: ApplyDefaultCommandLineSwitches_def Let_def steps n)
qed

lemma wayland_gpu:
  assumes "command_line_law C" "names_distinct N" "n = kEnableGPU N \<or> n = kDisableGpu N"
  shows "cl_has C (ConfigureGuiWaylandGpu C N gui c) n = cl_has C c n"
    "cl_has C (ApplyDefaultCommandLineSwitches C N gui headless env c) n =
     cl_has C (ConfigureGpu C N gui env (ConfigureGuiWaylandGpu C N gui c)) n"
proof -
  have n: "n \<noteq> kDisableFeatures N" "n \<noteq> kEnableFeatures N" "n \<noteq> kDisableGpuCompositing N"
    "n \<noteq> kDisableAcceleratedVideoDecode N" "n \<noteq> kDisableGpuMemoryBufferVideoFrames N"
    "n \<noteq> kBrowserdForceGles2Context" "n \<noteq> kBrowserdDisableDawnInfo" "n \<noteq> kEnableUnsafeSwiftShader N"
    "n \<noteq> ''use-fake-device-for-media-stream''" "n \<noteq> kUseGL N" "n \<noteq> kUseCmdDecoder N" "n \<noteq> ''ozone-platform''"
    "n \<noteq> kAcceptLang N" "n \<noteq> kScreenInfo N"
    using assms(2,3) by (auto simp: names_distinct_def overriding_def respected_def)
  show "cl_has C (ConfigureGuiWaylandGpu C N gui c) n = cl_has C c n"
    by (simp add: ConfigureGuiWaylandGpu_def n set_default_simps [OF assms(1)] command_line_simps [OF assms(1)]
        AppendCommaSeparatedSwitchValue_simps [OF assms(1)])
  show "cl_has C (ApplyDefaultCommandLineSwitches C N gui headless env c) n =
     cl_has C (ConfigureGpu C N gui env (ConfigureGuiWaylandGpu C N gui c)) n"
    by (simp add: ApplyDefaultCommandLineSwitches_def Let_def n set_default_simps [OF assms(1)]
        command_line_simps [OF assms(1)])
qed

text \<open>
  The defaults decide about the GPU once and override nothing: afterwards the GPU is enabled or
  disabled, both only when the command line said both; when it said neither, the GPU is enabled
  exactly for the GUI or on a desktop session; and a platform, GL, language or screen that the
  command line gives keeps its value.
\<close>

lemma command_line_defaults:
  assumes "command_line_law C" "names_distinct N"
  shows "let c' = ApplyDefaultCommandLineSwitches C N gui headless env c
    in (cl_has C c' (kEnableGPU N) \<or> cl_has C c' (kDisableGpu N)) \<and>
       (cl_has C c' (kEnableGPU N) \<and> cl_has C c' (kDisableGpu N) \<longrightarrow>
          cl_has C c (kEnableGPU N) \<and> cl_has C c (kDisableGpu N)) \<and>
       (\<not> cl_has C c (kEnableGPU N) \<and> \<not> cl_has C c (kDisableGpu N) \<longrightarrow>
          (cl_has C c' (kEnableGPU N) \<longleftrightarrow> ShouldAutoEnableGpu gui env)) \<and>
       (\<forall>n \<in> set (respected N).
          cl_has C c n \<longrightarrow> cl_has C c' n \<and> cl_value C c' n = cl_value C c n)"
proof -
  have differ: "kEnableGPU N \<noteq> kDisableGpu N" using assms(2) by (simp add: names_distinct_def respected_def)
  have free: "n \<notin> set (overriding N)" if "n \<in> set (respected N)" for n
    using assms(2) that by (auto simp: names_distinct_def)
  define w where "w = ConfigureGuiWaylandGpu C N gui c"
  define d where "d = ApplyDefaultCommandLineSwitches C N gui headless env c"
  have decided: "cl_has C d (kEnableGPU N) \<longleftrightarrow> cl_has C c (kEnableGPU N) \<or>
       (\<not> cl_has C c (kDisableGpu N) \<and> ShouldAutoEnableGpu gui env)"
    "cl_has C d (kDisableGpu N) \<longleftrightarrow> cl_has C c (kDisableGpu N) \<or>
       (\<not> cl_has C c (kEnableGPU N) \<and> \<not> ShouldAutoEnableGpu gui env)"
    unfolding d_def
    by (simp_all add: wayland_gpu [OF assms] ConfigureGpu_def command_line_simps [OF assms(1)] differ differ [symmetric])
  have kept: "keeps C n c d"
    if "n \<in> set (respected N)" "cl_has C c n" for n
    unfolding d_def by (rule defaults_keep(2) [OF assms(1) that(2) free [OF that(1)]])
  show ?thesis
    unfolding Let_def d_def [symmetric] by (intro conjI impI ballI) (use decided kept in \<open>auto simp: keeps_def\<close>)
qed

lemma command_line_defaults_witness:
  "cl_has list_cl (ApplyDefaultCommandLineSwitches list_cl ref_names False True (\<lambda>n. None) []) ''disable-gpu''"
proof -
  have k: "kEnableGPU ref_names = ''enable-gpu''" "kDisableGpu ref_names = ''disable-gpu''"
    "\<not> cl_has list_cl [] ''enable-gpu''" "\<not> cl_has list_cl [] ''disable-gpu''"
    "\<not> ShouldAutoEnableGpu False (\<lambda>n. None)" by code_simp+
  from command_line_defaults [OF list_cl_law names_distinct_ref_names, of False True "\<lambda>n. None" "[]", unfolded Let_def k]
  show ?thesis using k(3-5) by blast
qed

end
