(* ===== verification/Embed_Calls.thy ===== *)
theory Embed_Calls
  imports Interactions Switches
begin

section \<open>The calls of the C interface (\<open>embed/browserd_embed.h\<close>, \<open>embed/browserd_embed.cc\<close>)\<close>

text \<open>
  The structures that cross the C interface, what a call asks of the controller and what its callback
  is called with. A C string is an option, \<open>None\<close> for a null pointer, and otherwise its characters up
  to the final zero; a view is its bytes with their number. A structure that a caller passes holds
  its own size, by which old callers are told from new ones; the layout is that of the 64-bit ABIs.
\<close>

type_synonym c_string = "string option"

definition OptionalString :: "c_string \<Rightarrow> string option" where
  "OptionalString value = (if value = None \<or> value = Some [] then None else value)"

subsection \<open>Layout\<close>

text \<open>The ends of the fields of a structure whose fields have these sizes, each aligned to its size.\<close>

definition align_up :: "nat \<Rightarrow> nat \<Rightarrow> nat" where
  "align_up n a = (n + (a - 1)) div a * a"

fun field_ends :: "nat \<Rightarrow> nat list \<Rightarrow> nat list" where
  "field_ends at [] = []"
| "field_ends at (n # ns) = (align_up at n + n) # field_ends (align_up at n + n) ns"

definition struct_size :: "nat list \<Rightarrow> nat" where
  "struct_size ns = align_up (last (0 # field_ends 0 ns)) (fold max ns 1)"

definition uint32_field :: nat where "uint32_field = 4"
definition int_field :: nat where "int_field = 4"
definition bool_field :: nat where "bool_field = 1"
definition pointer_field :: nat where "pointer_field = 8"
definition size_t_field :: nat where "size_t_field = 8"

subsection \<open>The structures of the callers\<close>

record browserd_switch =
  sw_size :: nat
  sw_name :: c_string
  sw_value :: c_string
  sw_scope :: "32 word"

definition switch_fields :: "nat list" where
  "switch_fields = [uint32_field, pointer_field, pointer_field, uint32_field]"

record browserd_config =
  cfg_size :: nat
  cfg_gui :: bool
  cfg_user_data_dir :: c_string
  cfg_switches :: "browserd_switch list option"
  cfg_start_empty :: bool
  cfg_idle_on_zero_tabs :: bool

definition config_fields :: "nat list" where
  "config_fields =
     [uint32_field, bool_field, pointer_field, pointer_field, size_t_field, bool_field, bool_field]"

record browserd_ref_options =
  ro_size :: nat
  ro_ref :: c_string

record browserd_type_options =
  to_size :: nat
  to_ref :: c_string
  to_text :: c_string
  to_clear :: bool

record browserd_key_options =
  ko_size :: nat
  ko_key :: c_string

record browserd_select_options =
  so_size :: nat
  so_ref :: c_string
  so_values :: "c_string list option"    \<comment> \<open>\<open>values\<close> with \<open>values_len\<close>\<close>
  so_values_len :: nat

record browserd_drag_options =
  do_size :: nat
  do_start_ref :: c_string
  do_end_ref :: c_string

record browserd_scroll_options =
  sc_size :: nat
  sc_delta_x :: c_int
  sc_delta_y :: c_int

record browserd_wait_options =
  wo_size :: nat
  wo_selector :: c_string
  wo_text :: c_string
  wo_timeout_ms :: c_int

record browserd_cookie_list_options =
  clo_size :: nat
  clo_url :: c_string

record browserd_cookie_get_options =
  cgo_size :: nat
  cgo_name :: c_string

record browserd_cookie_set_options =
  cso_size :: nat
  cso_name :: c_string
  cso_value :: c_string
  cso_domain :: c_string
  cso_path :: c_string
  cso_url :: c_string
  cso_secure :: bool
  cso_http_only :: bool

record browserd_cookie_delete_options =
  cdo_size :: nat
  cdo_name :: c_string
  cdo_url :: c_string
  cdo_domain :: c_string

definition ref_options_size :: nat where
  "ref_options_size = struct_size [uint32_field, pointer_field]"

definition type_options_size :: nat where
  "type_options_size = struct_size [uint32_field, pointer_field, pointer_field, bool_field]"

definition key_options_size :: nat where
  "key_options_size = struct_size [uint32_field, pointer_field]"

definition select_options_size :: nat where
  "select_options_size = struct_size [uint32_field, pointer_field, pointer_field, size_t_field]"

definition drag_options_size :: nat where
  "drag_options_size = struct_size [uint32_field, pointer_field, pointer_field]"

definition scroll_options_size :: nat where
  "scroll_options_size = struct_size [uint32_field, int_field, int_field]"

definition wait_options_size :: nat where
  "wait_options_size = struct_size [uint32_field, pointer_field, pointer_field, int_field]"

definition cookie_list_options_size :: nat where
  "cookie_list_options_size = struct_size [uint32_field, pointer_field]"

definition cookie_get_options_size :: nat where
  "cookie_get_options_size = struct_size [uint32_field, pointer_field]"

definition cookie_set_options_size :: nat where
  "cookie_set_options_size =
     struct_size [uint32_field, pointer_field, pointer_field, pointer_field, pointer_field, pointer_field,
       bool_field, bool_field]"

definition cookie_delete_options_size :: nat where
  "cookie_delete_options_size = struct_size [uint32_field, pointer_field, pointer_field, pointer_field]"

subsection \<open>What a callback gets\<close>

datatype browserd_status_code =
    BROWSERD_STATUS_OK
  | BROWSERD_STATUS_INVALID_ARGUMENT
  | BROWSERD_STATUS_SESSION_NOT_READY
  | BROWSERD_STATUS_TAB_NOT_FOUND
  | BROWSERD_STATUS_NO_ACTIVE_FRAME
  | BROWSERD_STATUS_NAVIGATION_FAILED
  | BROWSERD_STATUS_SCREENSHOT_FAILED
  | BROWSERD_STATUS_INTERNAL_ERROR
  | BROWSERD_STATUS_TIMEOUT
  | BROWSERD_STATUS_NOT_FOUND

fun c_status_code_value :: "browserd_status_code \<Rightarrow> int" where
  "c_status_code_value BROWSERD_STATUS_OK = 0"
| "c_status_code_value BROWSERD_STATUS_INVALID_ARGUMENT = 1"
| "c_status_code_value BROWSERD_STATUS_SESSION_NOT_READY = 2"
| "c_status_code_value BROWSERD_STATUS_TAB_NOT_FOUND = 3"
| "c_status_code_value BROWSERD_STATUS_NO_ACTIVE_FRAME = 4"
| "c_status_code_value BROWSERD_STATUS_NAVIGATION_FAILED = 5"
| "c_status_code_value BROWSERD_STATUS_SCREENSHOT_FAILED = 6"
| "c_status_code_value BROWSERD_STATUS_INTERNAL_ERROR = 7"
| "c_status_code_value BROWSERD_STATUS_TIMEOUT = 8"
| "c_status_code_value BROWSERD_STATUS_NOT_FOUND = 9"

fun ToCStatusCode :: "BrowserStatusCode \<Rightarrow> browserd_status_code" where
  "ToCStatusCode kOk = BROWSERD_STATUS_OK"
| "ToCStatusCode kInvalidArgument = BROWSERD_STATUS_INVALID_ARGUMENT"
| "ToCStatusCode kSessionNotReady = BROWSERD_STATUS_SESSION_NOT_READY"
| "ToCStatusCode kTabNotFound = BROWSERD_STATUS_TAB_NOT_FOUND"
| "ToCStatusCode kNoActiveFrame = BROWSERD_STATUS_NO_ACTIVE_FRAME"
| "ToCStatusCode kNavigationFailed = BROWSERD_STATUS_NAVIGATION_FAILED"
| "ToCStatusCode kScreenshotFailed = BROWSERD_STATUS_SCREENSHOT_FAILED"
| "ToCStatusCode kInternalError = BROWSERD_STATUS_INTERNAL_ERROR"
| "ToCStatusCode kTimeout = BROWSERD_STATUS_TIMEOUT"
| "ToCStatusCode kNotFound = BROWSERD_STATUS_NOT_FOUND"

type_synonym view = "string \<times> nat"

record browserd_status =
  c_code :: browserd_status_code
  c_message :: string
  c_message_len :: nat

definition ToCStatus :: "BrowserStatus \<Rightarrow> browserd_status" where
  "ToCStatus status =
     \<lparr>c_code = ToCStatusCode (st_code status), c_message = st_message status,
      c_message_len = length (st_message status)\<rparr>"

definition ToCStringView :: "string \<Rightarrow> view" where
  "ToCStringView value = (value, length value)"

definition ToCBytesView :: "8 word list \<Rightarrow> 8 word list \<times> nat" where
  "ToCBytesView value = (value, length value)"

record browserd_tab_info =
  ti_target_id :: view
  ti_title :: view
  ti_url :: view

definition ToCTabInfo :: "BrowserTabInfo \<Rightarrow> browserd_tab_info" where
  "ToCTabInfo tab =
     \<lparr>ti_target_id = ToCStringView (tab_target_id tab), ti_title = ToCStringView (tab_title tab),
      ti_url = ToCStringView (tab_url tab)\<rparr>"

record browserd_cookie =
  ck_name :: view
  ck_value :: view
  ck_domain :: view
  ck_path :: view
  ck_secure :: bool
  ck_http_only :: bool
  ck_expires_unix_seconds :: "64 word"

definition ToCCookie :: "CookieInfo \<Rightarrow> browserd_cookie" where
  "ToCCookie cookie =
     \<lparr>ck_name = ToCStringView (ci_name cookie), ck_value = ToCStringView (ci_value cookie),
      ck_domain = ToCStringView (ci_domain cookie), ck_path = ToCStringView (ci_path cookie),
      ck_secure = ci_secure cookie, ck_http_only = ci_http_only cookie,
      ck_expires_unix_seconds = ci_expires_unix_seconds cookie\<rparr>"

datatype reply =
    StatusReply browserd_status
  | StringReply browserd_status view
  | BytesReply browserd_status "8 word list \<times> nat"
  | TabReply browserd_status "browserd_tab_info option"
  | TabsReply browserd_status "browserd_tab_info list option" nat
  | CookieReply browserd_status "browserd_cookie option"
  | CookiesReply browserd_status "browserd_cookie list option" nat

definition CompleteStatus :: "BrowserStatus \<Rightarrow> ('s, reply) task" where
  "CompleteStatus status = Answer (StatusReply (ToCStatus status))"

definition CompleteEvaluate :: "EvaluateResult BrowserResult \<Rightarrow> ('s, reply) task" where
  "CompleteEvaluate result =
     (if \<not> result_ok result then Answer (StringReply (ToCStatus (res_status result)) (ToCStringView []))
      else value_or_undefined result (\<lambda>v.
        Answer (StringReply (ToCStatus StatusOk)
          (ToCStringView (if ev_kind v = EvalUndefined then ''undefined'' else ev_json v)))))"

definition CompleteString :: "string BrowserResult \<Rightarrow> ('s, reply) task" where
  "CompleteString result =
     (if \<not> result_ok result then Answer (StringReply (ToCStatus (res_status result)) (ToCStringView []))
      else value_or_undefined result (\<lambda>v. Answer (StringReply (ToCStatus StatusOk) (ToCStringView v))))"

definition CompleteBytes :: "8 word list BrowserResult \<Rightarrow> ('s, reply) task" where
  "CompleteBytes result =
     (if \<not> result_ok result then Answer (BytesReply (ToCStatus (res_status result)) (ToCBytesView []))
      else value_or_undefined result (\<lambda>v. Answer (BytesReply (ToCStatus StatusOk) (ToCBytesView v))))"

definition CompleteTab :: "BrowserTabInfo BrowserResult \<Rightarrow> ('s, reply) task" where
  "CompleteTab result =
     (if \<not> result_ok result then Answer (TabReply (ToCStatus (res_status result)) None)
      else value_or_undefined result (\<lambda>v. Answer (TabReply (ToCStatus StatusOk) (Some (ToCTabInfo v)))))"

definition CompleteTabs :: "BrowserTabInfo list BrowserResult \<Rightarrow> ('s, reply) task" where
  "CompleteTabs result =
     (if \<not> result_ok result then Answer (TabsReply (ToCStatus (res_status result)) None 0)
      else value_or_undefined result (\<lambda>v.
        Answer (TabsReply (ToCStatus StatusOk) (Some (map ToCTabInfo v)) (length v))))"

definition CompleteCookie :: "CookieInfo BrowserResult \<Rightarrow> ('s, reply) task" where
  "CompleteCookie result =
     (if \<not> result_ok result then Answer (CookieReply (ToCStatus (res_status result)) None)
      else value_or_undefined result (\<lambda>v. Answer (CookieReply (ToCStatus StatusOk) (Some (ToCCookie v)))))"

definition CompleteCookies :: "CookieInfo list BrowserResult \<Rightarrow> ('s, reply) task" where
  "CompleteCookies result =
     (if \<not> result_ok result then Answer (CookiesReply (ToCStatus (res_status result)) None 0)
      else value_or_undefined result (\<lambda>v.
        Answer (CookiesReply (ToCStatus StatusOk) (Some (map ToCCookie v)) (length v))))"

subsection \<open>What a call asks of the controller\<close>

datatype controller_call =
    CallTabList
  | CallTabNew string
  | CallTabClose "string option"
  | CallResize c_int c_int
  | CallNavigate "string option" string
  | CallNavigateBack "string option"
  | CallNavigateForward "string option"
  | CallReload "string option"
  | CallEvaluate "string option" string
  | CallConsoleMessages "string option"
  | CallSnapshot "string option"
  | CallScreenshot "string option"
  | CallWaitFor "string option" WaitOptions
  | CallClick "string option" RefOptions
  | CallHover "string option" RefOptions
  | CallType "string option" TypeOptions
  | CallPressKey "string option" KeyOptions
  | CallSelectOption "string option" SelectOptions
  | CallDrag "string option" DragOptions
  | CallScroll "string option" ScrollOptions
  | CallCookieList "string option" CookieListOptions
  | CallCookieGet "string option" CookieGetOptions
  | CallCookieSet "string option" CookieSetOptions
  | CallCookieDelete "string option" CookieDeleteOptions
  | CallCookieClear "string option"

text \<open>
  The closure that a call posts: an operation of the controller and the completion of its callback.
  It runs in the controller's sequence. \<open>gfx::Size\<close> takes a negative length as zero; \<open>script\<close> is
  the snapshot script.
\<close>

fun call_task ::
  "'rt runtime_class \<Rightarrow> base_lib \<Rightarrow> f64_ops \<Rightarrow> string \<Rightarrow> controller_call \<Rightarrow> ('rt controller, reply) task" where
  "call_task V L F script CallTabList = then_task (CtlListTabs V True) CompleteTabs"
| "call_task V L F script (CallTabNew url) = then_task (CtlCreateTab V True (lib_gurl L url)) CompleteTab"
| "call_task V L F script (CallTabClose i) = then_task (CtlCloseTab V True i) CompleteStatus"
| "call_task V L F script (CallResize w h) =
     then_task (CtlResizeActive V True (max 0 (sint w), max 0 (sint h))) CompleteStatus"
| "call_task V L F script (CallNavigate i url) = then_task (CtlNavigate V True i (lib_gurl L url)) CompleteStatus"
| "call_task V L F script (CallNavigateBack i) = then_task (CtlNavigateBack V True i) CompleteStatus"
| "call_task V L F script (CallNavigateForward i) = then_task (CtlNavigateForward V True i) CompleteStatus"
| "call_task V L F script (CallReload i) = then_task (CtlReload V True i) CompleteStatus"
| "call_task V L F script (CallEvaluate i js) = then_task (CtlEvaluate V L True i js) CompleteEvaluate"
| "call_task V L F script (CallConsoleMessages i) = then_task (CtlConsoleMessages V True i) CompleteString"
| "call_task V L F script (CallSnapshot i) = then_task (CtlSnapshot V script True i) CompleteString"
| "call_task V L F script (CallScreenshot i) = then_task (CtlScreenshot V True i) CompleteBytes"
| "call_task V L F script (CallWaitFor i w) = then_task (CtlWaitFor V L True i w) CompleteStatus"
| "call_task V L F script (CallClick i r) = then_task (CtlClick V L F True i r) CompleteStatus"
| "call_task V L F script (CallHover i r) = then_task (CtlHover V L F True i r) CompleteStatus"
| "call_task V L F script (CallType i t) = then_task (CtlType V L True i t) CompleteStatus"
| "call_task V L F script (CallPressKey i k) = then_task (CtlPressKey V True i k) CompleteStatus"
| "call_task V L F script (CallSelectOption i z) = then_task (CtlSelectOption V L True i z) CompleteStatus"
| "call_task V L F script (CallDrag i d) = then_task (CtlDrag V L F True i d) CompleteStatus"
| "call_task V L F script (CallScroll i z) = then_task (CtlScroll V True i z) CompleteStatus"
| "call_task V L F script (CallCookieList i z) = then_task (CtlListCookies V L True i z) CompleteCookies"
| "call_task V L F script (CallCookieGet i g) = then_task (CtlGetCookie V L True i g) CompleteCookie"
| "call_task V L F script (CallCookieSet i z) = then_task (CtlSetCookie V L True i z) CompleteStatus"
| "call_task V L F script (CallCookieDelete i d) = then_task (CtlDeleteCookie V L True i d) CompleteStatus"
| "call_task V L F script (CallCookieClear i) = then_task (CtlClearCookies V True i) CompleteStatus"

section \<open>Properties\<close>

text \<open>
  A status crosses the C interface unchanged: the C code has the number of the controller's
  code, so the two enumerations cannot get out of step, different codes stay different, and the
  length is that of the message.
\<close>

lemma status_crosses_unchanged:
  "c_status_code_value (ToCStatusCode code) = status_code_value code \<and> inj ToCStatusCode \<and>
   c_message (ToCStatus status) = st_message status \<and> c_message_len (ToCStatus status) = length (st_message status) \<and>
   (c_code (ToCStatus status) = BROWSERD_STATUS_OK \<longleftrightarrow> status_ok status)"
proof -
  have val: "c_status_code_value (ToCStatusCode code) = status_code_value code" for code
    by (cases code) simp_all
  then have "inj ToCStatusCode" by (metis injI status_code_value_inject)
  moreover have "c_code (ToCStatus status) = BROWSERD_STATUS_OK \<longleftrightarrow> status_ok status"
    by (cases "st_code status") (simp_all add: ToCStatus_def status_ok_def)
  ultimately show ?thesis by (simp add: val ToCStatus_def)
qed

text \<open>The kind of answer that fits a call, and an answer that has a value exactly when it is ok.\<close>

datatype answer_kind = AsStatus | AsString | AsBytes | AsTab | AsTabs | AsCookie | AsCookies

fun reply_kind :: "reply \<Rightarrow> answer_kind" where
  "reply_kind (StatusReply st) = AsStatus"
| "reply_kind (StringReply st v) = AsString"
| "reply_kind (BytesReply st v) = AsBytes"
| "reply_kind (TabReply st t) = AsTab"
| "reply_kind (TabsReply st ts n) = AsTabs"
| "reply_kind (CookieReply st c) = AsCookie"
| "reply_kind (CookiesReply st cs n) = AsCookies"

definition call_kind :: "controller_call \<Rightarrow> answer_kind" where
  "call_kind c =
     (case c of
        CallTabList \<Rightarrow> AsTabs
      | CallTabNew u \<Rightarrow> AsTab
      | CallEvaluate i js \<Rightarrow> AsString
      | CallConsoleMessages i \<Rightarrow> AsString
      | CallSnapshot i \<Rightarrow> AsString
      | CallScreenshot i \<Rightarrow> AsBytes
      | CallCookieList i z \<Rightarrow> AsCookies
      | CallCookieGet i g \<Rightarrow> AsCookie
      | _ \<Rightarrow> AsStatus)"

definition listed :: "browserd_status \<Rightarrow> 'a list option \<Rightarrow> nat \<Rightarrow> bool" where
  "listed st items n \<longleftrightarrow> (c_code st = BROWSERD_STATUS_OK \<longleftrightarrow> items \<noteq> None) \<and>
     n = (case items of None \<Rightarrow> 0 | Some l \<Rightarrow> length l)"

definition viewed :: "browserd_status \<Rightarrow> 'a list \<times> nat \<Rightarrow> bool" where
  "viewed st v \<longleftrightarrow> snd v = length (fst v) \<and> (c_code st = BROWSERD_STATUS_OK \<or> fst v = [])"

fun reply_wf :: "reply \<Rightarrow> bool" where
  "reply_wf (StatusReply st) = True"
| "reply_wf (StringReply st v) = viewed st v"
| "reply_wf (BytesReply st v) = viewed st v"
| "reply_wf (TabReply st t) = (c_code st = BROWSERD_STATUS_OK \<longleftrightarrow> t \<noteq> None)"
| "reply_wf (TabsReply st ts n) = listed st ts n"
| "reply_wf (CookieReply st c) = (c_code st = BROWSERD_STATUS_OK \<longleftrightarrow> c \<noteq> None)"
| "reply_wf (CookiesReply st cs n) = listed st cs n"

lemma c_ok [simp]: "c_code (ToCStatus st) = BROWSERD_STATUS_OK \<longleftrightarrow> status_ok st"
  by (cases "st_code st") (simp_all add: ToCStatus_def status_ok_def)

text \<open>
  The calls whose operation only uses its page while it is sure to be there. Input events sent to an
  accessibility node are not among them, nor is a wait whose limit overflows.
\<close>

definition careful :: "base_lib \<Rightarrow> controller_call \<Rightarrow> bool" where
  "careful L c \<longleftrightarrow>
     (case c of
        CallTabNew url \<Rightarrow> False
      | CallWaitFor i w \<Rightarrow> sint (wait_timeout_ms w) \<le> 2147482647
      | CallClick i r \<Rightarrow> ParseDomRef L (ref_ref r) \<noteq> None
      | CallHover i r \<Rightarrow> ParseDomRef L (ref_ref r) \<noteq> None
      | CallType i t \<Rightarrow> ParseDomRef L (type_ref t) \<noteq> None
      | CallDrag i d \<Rightarrow> ParseDomRef L (drag_start_ref d) \<noteq> None \<and> ParseDomRef L (drag_end_ref d) \<noteq> None
      | CallPressKey i k \<Rightarrow> False
      | CallScroll i z \<Rightarrow> False
      | _ \<Rightarrow> True)"

lemma wp_CompleteStatus:
  "wp t pages M Q s \<Longrightarrow> wp (then_task t CompleteStatus) pages M (\<lambda>r _. reply_wf r \<and> reply_kind r = AsStatus) s"
  unfolding wp_then_task by (erule wp_mono) (simp add: CompleteStatus_def)

lemma wp_Complete:
  assumes "wp t pages M (\<lambda>r s. result_wf r \<and> Q s) s"
    and "\<And>r s. result_wf r \<Longrightarrow> wp (complete r) pages M (\<lambda>r _. reply_wf r \<and> reply_kind r = k) s"
  shows "wp (then_task t complete) pages M (\<lambda>r _. reply_wf r \<and> reply_kind r = k) s"
  unfolding wp_then_task using assms(1) by (rule wp_mono) (simp add: assms(2))

lemma completions_wf:
  "result_wf re \<Longrightarrow> wp (CompleteEvaluate re) pages M (\<lambda>r _. reply_wf r \<and> reply_kind r = AsString) s"
  "result_wf rs \<Longrightarrow> wp (CompleteString rs) pages M (\<lambda>r _. reply_wf r \<and> reply_kind r = AsString) s"
  "result_wf rb \<Longrightarrow> wp (CompleteBytes rb) pages M (\<lambda>r _. reply_wf r \<and> reply_kind r = AsBytes) s"
  "result_wf rt \<Longrightarrow> wp (CompleteTab rt) pages M (\<lambda>r _. reply_wf r \<and> reply_kind r = AsTab) s"
  "result_wf rts \<Longrightarrow> wp (CompleteTabs rts) pages M (\<lambda>r _. reply_wf r \<and> reply_kind r = AsTabs) s"
  "result_wf rc \<Longrightarrow> wp (CompleteCookie rc) pages M (\<lambda>r _. reply_wf r \<and> reply_kind r = AsCookie) s"
  "result_wf rcs \<Longrightarrow> wp (CompleteCookies rcs) pages M (\<lambda>r _. reply_wf r \<and> reply_kind r = AsCookies) s"
  by (auto dest!: result_wf_value
      simp: CompleteEvaluate_def CompleteString_def CompleteBytes_def CompleteTab_def CompleteTabs_def
        CompleteCookie_def CompleteCookies_def value_or_undefined_def listed_def viewed_def
        ToCStringView_def ToCBytesView_def result_ok_def)

text \<open>
  C26: a call through the C interface that is careful never crashes, whatever becomes of the tabs and
  of the controller meanwhile, and its callback gets the kind of answer the call declares: with a tab,
  a cookie or a list exactly when the status is ok, with the length that fits, and with no text and no
  bytes for an error.
\<close>

theorem embed_replies_fit:
  assumes "page_owner V ok room" "controllers_ok ok s" "careful L c"
  shows "always L V (meanwhile ok) s (call_task V L F script c) (\<lambda>r _. reply_wf r \<and> reply_kind r = call_kind c)"
proof (rule always_wp)
  note owner = assms(1,2)
  have later: "meanwhile ok s s' \<Longrightarrow> controllers_ok ok s'" for s' by (simp add: meanwhile_def)
  note dom_wp = page_owner.dom_reference_wp [OF owner later]
  note status = page_owner.close_tab_wp [OF owner] page_owner.resize_wp [OF owner] page_owner.navigate_wp [OF owner]
    page_owner.history_wp [OF owner] page_owner.cookie_status_wp [OF owner]
  show "wp (call_task V L F script c) (controller_pages V) (meanwhile ok) (\<lambda>r _. reply_wf r \<and> reply_kind r = call_kind c) s"
  proof (cases c)
    case (CallWaitFor i w)
    then have "c_add (wait_timeout_ms w) 1000 \<noteq> None"
      using assms(3) sint_c_int_bounds [of "wait_timeout_ms w"] by (simp add: careful_def c_add_None)
    from wp_CompleteStatus [OF page_owner.wait_for_wp [OF owner this]] CallWaitFor show ?thesis by (simp add: call_kind_def)
  next
    case (CallClick i r)
    with assms(3) have "wp (CtlClick V L F True i r) (controller_pages V) (meanwhile ok) (\<lambda>_ _. True) s"
      by (intro dom_wp) (simp_all add: careful_def)
    from wp_CompleteStatus [OF this] CallClick show ?thesis by (simp add: call_kind_def)
  next
    case (CallHover i r)
    with assms(3) have "wp (CtlHover V L F True i r) (controller_pages V) (meanwhile ok) (\<lambda>_ _. True) s"
      by (intro dom_wp) (simp_all add: careful_def)
    from wp_CompleteStatus [OF this] CallHover show ?thesis by (simp add: call_kind_def)
  next
    case (CallType i t)
    with assms(3) have "wp (CtlType V L True i t) (controller_pages V) (meanwhile ok) (\<lambda>_ _. True) s"
      by (intro dom_wp) (simp_all add: careful_def)
    from wp_CompleteStatus [OF this] CallType show ?thesis by (simp add: call_kind_def)
  next
    case (CallSelectOption i z)
    have "wp (CtlSelectOption V L True i z) (controller_pages V) (meanwhile ok) (\<lambda>_ _. True) s"
      by (rule dom_wp)
    from wp_CompleteStatus [OF this] CallSelectOption show ?thesis by (simp add: call_kind_def)
  next
    case (CallDrag i d)
    with assms(3) have "wp (CtlDrag V L F True i d) (controller_pages V) (meanwhile ok) (\<lambda>_ _. True) s"
      by (intro dom_wp) (simp_all add: careful_def)
    from wp_CompleteStatus [OF this] CallDrag show ?thesis by (simp add: call_kind_def)
  next
    case (CallCookieGet i g)
    have "wp (CtlGetCookie V L True i g) (controller_pages V) (meanwhile ok) (\<lambda>r s. result_wf r \<and> True) s"
      by (rule wp_mono [OF page_owner.get_cookie_wp [OF owner]]) simp
    from wp_Complete [OF this completions_wf(6)] CallCookieGet show ?thesis by (simp add: call_kind_def)
  qed (use assms(3) in \<open>simp_all add: call_kind_def careful_def status [THEN wp_CompleteStatus]
      wp_Complete [OF page_owner.list_tabs_wp [OF owner] completions_wf(5)]
      wp_Complete [OF page_owner.evaluate_wp(1) [OF owner] completions_wf(1)]
      wp_Complete [OF page_owner.evaluate_wp(2) [OF owner] completions_wf(2)]
      wp_Complete [OF page_owner.evaluate_wp(3) [OF owner] completions_wf(2)]
      wp_Complete [OF page_owner.evaluate_wp(4) [OF owner] completions_wf(3)]
      wp_Complete [OF page_owner.list_cookies_wp [OF owner] completions_wf(7)]\<close>)
qed

theorem embed_replies_fit_witness:
  "\<exists>r s'. run ref_lib (controller_pages demo_class) (meanwhile (gui_ok ref_lib)) (Some demo_controller) \<lparr>pt_x = 0, pt_y = 0\<rparr>
     (call_task demo_class ref_lib demo_f64 [] CallTabList) [] (Answered r s') \<and> reply_wf r \<and> reply_kind r = AsTabs"
proof -
  have "answers_now ref_lib (controller_pages demo_class) (meanwhile (gui_ok ref_lib)) (Some demo_controller)
      \<lparr>pt_x = 0, pt_y = 0\<rparr> (call_task demo_class ref_lib demo_f64 [] CallTabList)"
    by (auto simp: CtlListTabs_def RunOrPost_def with_runtime_def CompleteTabs_def value_or_undefined_def
        intro!: answers_nowI)
  then obtain r s' where run: "run ref_lib (controller_pages demo_class) (meanwhile (gui_ok ref_lib))
      (Some demo_controller) \<lparr>pt_x = 0, pt_y = 0\<rparr> (call_task demo_class ref_lib demo_f64 [] CallTabList) [] (Answered r s')"
    unfolding answers_now_def by blast
  have "careful ref_lib CallTabList" by (simp add: careful_def)
  from always_answered [OF embed_replies_fit [OF demo_class_owner demo_controllers_ok this] run] run
  show ?thesis by (auto simp: call_kind_def)
qed

end
