(* ===== verification/Embed.thy ===== *)
theory Embed
  imports Embed_Calls
begin

section \<open>The session of an embedder (\<open>embed/browserd_embed.cc\<close>)\<close>

text \<open>
  One run of the browser in the embedder's process: its lifecycle, the session that the ready
  callback hands out, the calls that are posted to the browser's sequence and the shutdown. A session
  pointer that a caller passes is null or the session; a callback is the number of its function and
  user data. \<open>em_accepted\<close>, \<open>em_started\<close> and \<open>em_dropped\<close> keep what was posted, what reached the
  controller and what did not. After the run has ended the session is gone and its pointer dangles,
  so a call on it then is outside the model.
\<close>

definition kScheduleOk :: int where
  "kScheduleOk = 0"

definition kScheduleRejected :: int where
  "kScheduleRejected = 1"

datatype EmbedRunLifecycle = kNotStarted | kRunning | kStopped

record session =
  ses_controller :: "nat option"      \<comment> \<open>the controller's address\<close>
  ses_runner :: bool                  \<comment> \<open>it has a task runner\<close>
  ses_shutting_down :: bool

type_synonym scheduled = "nat \<times> controller_call"

datatype posted = PostedTask nat scheduled | PostedDestroy

record 'c embed =
  em_lifecycle :: EmbedRunLifecycle
  em_command_line :: 'c
  em_environment :: environment
  em_policy :: policy
  em_gui :: "bool option"             \<comment> \<open>which browser the run started\<close>
  em_starting :: nat                  \<comment> \<open>the browsers that are to call the ready callback, once each\<close>
  em_session :: "session option"
  em_ready :: "browserd_status list"  \<comment> \<open>the calls of the ready callback\<close>
  em_posted :: "posted list"
  em_accepted :: "scheduled list"
  em_started :: "scheduled list"
  em_dropped :: "scheduled list"
  em_runtime_shutdowns :: nat
  em_controllers_destroyed :: nat

definition new_embed :: "'c \<Rightarrow> environment \<Rightarrow> 'c embed" where
  "new_embed c env =
     \<lparr>em_lifecycle = kNotStarted, em_command_line = c, em_environment = env, em_policy = [], em_gui = None,
      em_starting = 0, em_session = None, em_ready = [], em_posted = [], em_accepted = [], em_started = [], em_dropped = [],
      em_runtime_shutdowns = 0, em_controllers_destroyed = 0\<rparr>"

subsection \<open>Running\<close>

definition TryBeginRun :: "'c embed \<Rightarrow> bool \<times> 'c embed" where
  "TryBeginRun s =
     (if em_lifecycle s \<noteq> kNotStarted then (False, s) else (True, s\<lparr>em_lifecycle := kRunning\<rparr>))"

definition FinishRun :: "'c embed \<Rightarrow> 'c embed" where
  "FinishRun s = (if em_lifecycle s = kRunning then s\<lparr>em_lifecycle := kStopped\<rparr> else s)"

definition config_end :: "nat \<Rightarrow> nat" where
  "config_end i = field_ends 0 config_fields ! i"

definition ConfigFieldPresent :: "browserd_config option \<Rightarrow> nat \<Rightarrow> bool" where
  "ConfigFieldPresent config field_end \<longleftrightarrow> (case config of None \<Rightarrow> False | Some c \<Rightarrow> cfg_size c \<ge> field_end)"

definition ConfigRequestsGui :: "browserd_config option \<Rightarrow> bool" where
  "ConfigRequestsGui config \<longleftrightarrow> ConfigFieldPresent config (config_end 1) \<and> cfg_gui (the config)"

definition ConfigStartEmpty :: "browserd_config option \<Rightarrow> bool" where
  "ConfigStartEmpty config \<longleftrightarrow> ConfigFieldPresent config (config_end 5) \<and> cfg_start_empty (the config)"

definition ConfigIdleOnZeroTabs :: "browserd_config option \<Rightarrow> bool" where
  "ConfigIdleOnZeroTabs config \<longleftrightarrow> ConfigFieldPresent config (config_end 6) \<and> cfg_idle_on_zero_tabs (the config)"

text \<open>\<open>create_initial_tab\<close> and \<open>shutdown_on_zero_tabs\<close>.\<close>

definition ConfigGuiRuntimeOptions :: "browserd_config option \<Rightarrow> bool \<times> bool" where
  "ConfigGuiRuntimeOptions config = (\<not> ConfigStartEmpty config, \<not> ConfigIdleOnZeroTabs config)"

definition ConfigUserDataDir :: "browserd_config option \<Rightarrow> c_string" where
  "ConfigUserDataDir config =
     (if \<not> ConfigFieldPresent config (config_end 2) then None else cfg_user_data_dir (the config))"

fun accepted_switches :: "browserd_switch list \<Rightarrow> EmbedderSwitch list" where
  "accepted_switches [] = []"
| "accepted_switches (input # inputs) =
     (if sw_size input < field_ends 0 switch_fields ! 3 \<or> sw_name input = None \<or> sw_name input = Some [] \<or>
         sw_scope input = 0
      then accepted_switches inputs
      else \<lparr>es_name = the (sw_name input), es_value = sw_value input, es_scope = sw_scope input\<rparr> #
           accepted_switches inputs)"

definition ConfigSwitches :: "browserd_config option \<Rightarrow> EmbedderSwitch list" where
  "ConfigSwitches config =
     (if \<not> ConfigFieldPresent config (config_end 4) then []
      else case cfg_switches (the config) of None \<Rightarrow> [] | Some inputs \<Rightarrow> accepted_switches inputs)"

definition ApplyRunConfig ::
  "'c cl_ops \<Rightarrow> switch_names \<Rightarrow> base_lib \<Rightarrow> browserd_config option \<Rightarrow> 'c embed \<Rightarrow> 'c embed" where
  "ApplyRunConfig C N L config s =
     (let policy = SetEmbedderSwitches (ConfigSwitches config) (em_policy s);
          c1 = (case AppendEmbedderSwitchesForBrowser C N L policy (Some (em_command_line s)) of
                  Some c \<Rightarrow> c | None \<Rightarrow> em_command_line s);
          c2 = (if ConfigRequestsGui config then cl_set C kGui [] c1 else c1);
          c3 = (case ConfigUserDataDir config of Some dir \<Rightarrow> cl_set C kUserDataDir dir c2 | None \<Rightarrow> c2)
      in s\<lparr>em_policy := policy, em_command_line := c3\<rparr>)"

text \<open>
  \<open>browserd_run\<close> up to the main function of the browser, which runs until the browser quits; \<open>None\<close>
  when it gets there. Each main function is given a \<open>OnceCallback\<close> to call when its browser is ready.
  \<open>browserd_run_ends\<close> is the rest: the tasks that did not run are deleted and the
  session with them, and the \<open>OnceCallback\<close> if it was not called.
\<close>

definition browserd_run ::
  "'c cl_ops \<Rightarrow> switch_names \<Rightarrow> base_lib \<Rightarrow> browserd_config option \<Rightarrow> bool \<Rightarrow> 'c embed \<Rightarrow> int option \<times> 'c embed" where
  "browserd_run C N L config ready s =
     (if \<not> ready then (Some kScheduleRejected, s)
      else
        let (begun, s1) = TryBeginRun s
        in if \<not> begun then (Some kScheduleRejected, s1)
           else
             let s2 = ApplyRunConfig C N L config s1;
                 (requested_gui, env) = IsGuiRequested C (em_command_line s2) True (em_environment s2)
             in (None, s2\<lparr>em_environment := env,
                          em_command_line := ApplyDefaultCommandLineSwitches C N requested_gui (\<not> requested_gui) env
                            (em_command_line s2),
                          em_gui := Some requested_gui, em_starting := Suc (em_starting s2)\<rparr>))"

fun posted_tasks :: "posted list \<Rightarrow> scheduled list" where
  "posted_tasks [] = []"
| "posted_tasks (PostedTask c t # ps) = t # posted_tasks ps"
| "posted_tasks (PostedDestroy # ps) = posted_tasks ps"

definition browserd_run_ends :: "'c embed \<Rightarrow> 'c embed" where
  "browserd_run_ends s =
     (let s1 = FinishRun s
      in s1\<lparr>em_policy := ClearEmbedderSwitches (em_policy s1), em_session := None, em_posted := [],
            em_starting := 0, em_dropped := em_dropped s1 @ posted_tasks (em_posted s1),
            em_controllers_destroyed := em_controllers_destroyed s1 +
              (case em_session s1 of Some ses \<Rightarrow> (if ses_controller ses = None then 0 else 1) | None \<Rightarrow> 0)\<rparr>)"

definition NotifyReady :: "nat \<Rightarrow> bool \<Rightarrow> 'c embed \<Rightarrow> 'c embed" where
  "NotifyReady controller runner s =
     s\<lparr>em_session := Some \<lparr>ses_controller = Some controller, ses_runner = runner, ses_shutting_down = False\<rparr>,
       em_ready := em_ready s @ [ToCStatus StatusOk]\<rparr>"

definition OnHeadlessBrowserStart :: "bool \<Rightarrow> nat \<Rightarrow> bool \<Rightarrow> 'c embed \<Rightarrow> 'c embed" where
  "OnHeadlessBrowserStart initialized controller runner s =
     (if \<not> initialized then
        s\<lparr>em_ready := em_ready s @
            [ToCStatus (StatusError kInternalError ''Failed to create initial web contents'')]\<rparr>
      else NotifyReady controller runner s)"

subsection \<open>Scheduling and shutting down\<close>

definition DestroySessionController :: "'c embed \<Rightarrow> 'c embed" where
  "DestroySessionController s =
     (case em_session s of
        None \<Rightarrow> s
      | Some ses \<Rightarrow>
          if ses_controller ses = None then s
          else s\<lparr>em_session := Some (ses\<lparr>ses_shutting_down := True, ses_controller := None\<rparr>),
                 em_runtime_shutdowns := Suc (em_runtime_shutdowns s),
                 em_controllers_destroyed := Suc (em_controllers_destroyed s)\<rparr>)"

definition Schedule :: "bool \<Rightarrow> scheduled \<Rightarrow> 'c embed \<Rightarrow> int \<times> 'c embed" where
  "Schedule session task s =
     (case (if session then em_session s else None) of
        None \<Rightarrow> (kScheduleRejected, s)
      | Some ses \<Rightarrow>
          if ses_shutting_down ses then (kScheduleRejected, s)
          else
            case ses_controller ses of
              None \<Rightarrow> (kScheduleRejected, s)
            | Some controller \<Rightarrow>
                if \<not> ses_runner ses then (kScheduleRejected, s)
                else (kScheduleOk, s\<lparr>em_posted := em_posted s @ [PostedTask controller task],
                                     em_accepted := em_accepted s @ [task]\<rparr>))"

text \<open>The browser's sequence runs the task that was posted first.\<close>

definition run_posted :: "'c embed \<Rightarrow> 'c embed" where
  "run_posted s =
     (case em_posted s of
        [] \<Rightarrow> s
      | PostedDestroy # ps \<Rightarrow> DestroySessionController (s\<lparr>em_posted := ps\<rparr>)
      | PostedTask controller task # ps \<Rightarrow>
          (case em_session s of
             None \<Rightarrow> s\<lparr>em_posted := ps, em_dropped := em_dropped s @ [task]\<rparr>
           | Some ses \<Rightarrow>
               if ses_shutting_down ses \<or> ses_controller ses \<noteq> Some controller
               then s\<lparr>em_posted := ps, em_dropped := em_dropped s @ [task]\<rparr>
               else s\<lparr>em_posted := ps, em_started := em_started s @ [task]\<rparr>))"

definition browserd_shutdown :: "bool \<Rightarrow> bool \<Rightarrow> 'c embed \<Rightarrow> 'c embed" where
  "browserd_shutdown session in_sequence s =
     (case (if session then em_session s else None) of
        None \<Rightarrow> s
      | Some ses \<Rightarrow>
          if ses_shutting_down ses then s
          else
            let s1 = s\<lparr>em_session := Some (ses\<lparr>ses_shutting_down := True\<rparr>)\<rparr>;
                s2 = (if ses_controller ses = None then s1
                      else if \<not> ses_runner ses \<or> in_sequence then DestroySessionController s1
                      else s1\<lparr>em_posted := em_posted s1 @ [PostedDestroy]\<rparr>)
            in s2\<lparr>em_policy := ClearEmbedderSwitches (em_policy s2)\<rparr>)"

text \<open>
  The entry point of a child process: handled only when the command line names a process type, and
  then with the command line that the child's main function sees.
\<close>

definition browserd_process_main ::
  "'c cl_ops \<Rightarrow> switch_names \<Rightarrow> 'c \<Rightarrow> environment \<Rightarrow> (bool \<times> 'c) option" where
  "browserd_process_main C N c env =
     (if \<not> cl_has C c (kProcessType N) then None
      else
        let (requested_gui, env') = IsGuiRequested C c False env
        in Some (requested_gui, ApplyDefaultCommandLineSwitches C N requested_gui (\<not> requested_gui) env' c))"

subsection \<open>The entry points\<close>

text \<open>
  Each checks its arguments, copies what it was given and schedules a call. The callback is an option
  as well: \<open>None\<close> for a null function pointer.
\<close>

type_synonym 'c entry = "'c embed \<Rightarrow> int \<times> 'c embed"

definition browserd_tab_list :: "bool \<Rightarrow> nat option \<Rightarrow> 'c entry" where
  "browserd_tab_list session callback s =
     (case callback of
        None \<Rightarrow> (kScheduleRejected, s)
      | Some cb \<Rightarrow> Schedule session (cb, CallTabList) s)"

definition browserd_tab_new :: "bool \<Rightarrow> c_string \<Rightarrow> nat option \<Rightarrow> 'c entry" where
  "browserd_tab_new session url callback s =
     (case callback of
        None \<Rightarrow> (kScheduleRejected, s)
      | Some cb \<Rightarrow>
          Schedule session (cb, CallTabNew (case url of Some u \<Rightarrow> u | None \<Rightarrow> ''about:blank'')) s)"

definition browserd_tab_close :: "bool \<Rightarrow> c_string \<Rightarrow> nat option \<Rightarrow> 'c entry" where
  "browserd_tab_close session target_id callback s =
     (case callback of
        None \<Rightarrow> (kScheduleRejected, s)
      | Some cb \<Rightarrow> Schedule session (cb, CallTabClose (OptionalString target_id)) s)"

definition browserd_resize :: "bool \<Rightarrow> c_int \<Rightarrow> c_int \<Rightarrow> nat option \<Rightarrow> 'c entry" where
  "browserd_resize session width height callback s =
     (case callback of
        None \<Rightarrow> (kScheduleRejected, s)
      | Some cb \<Rightarrow> Schedule session (cb, CallResize width height) s)"

definition browserd_navigate :: "bool \<Rightarrow> c_string \<Rightarrow> c_string \<Rightarrow> nat option \<Rightarrow> 'c entry" where
  "browserd_navigate session target_id url callback s =
     (case (callback, url) of
        (Some cb, Some u) \<Rightarrow> Schedule session (cb, CallNavigate (OptionalString target_id) u) s
      | _ \<Rightarrow> (kScheduleRejected, s))"

definition browserd_navigate_back :: "bool \<Rightarrow> c_string \<Rightarrow> nat option \<Rightarrow> 'c entry" where
  "browserd_navigate_back session target_id callback s =
     (case callback of
        None \<Rightarrow> (kScheduleRejected, s)
      | Some cb \<Rightarrow> Schedule session (cb, CallNavigateBack (OptionalString target_id)) s)"

definition browserd_navigate_forward :: "bool \<Rightarrow> c_string \<Rightarrow> nat option \<Rightarrow> 'c entry" where
  "browserd_navigate_forward session target_id callback s =
     (case callback of
        None \<Rightarrow> (kScheduleRejected, s)
      | Some cb \<Rightarrow> Schedule session (cb, CallNavigateForward (OptionalString target_id)) s)"

definition browserd_reload :: "bool \<Rightarrow> c_string \<Rightarrow> nat option \<Rightarrow> 'c entry" where
  "browserd_reload session target_id callback s =
     (case callback of
        None \<Rightarrow> (kScheduleRejected, s)
      | Some cb \<Rightarrow> Schedule session (cb, CallReload (OptionalString target_id)) s)"

definition browserd_evaluate :: "bool \<Rightarrow> c_string \<Rightarrow> c_string \<Rightarrow> nat option \<Rightarrow> 'c entry" where
  "browserd_evaluate session target_id expression callback s =
     (case (callback, expression) of
        (Some cb, Some js) \<Rightarrow> Schedule session (cb, CallEvaluate (OptionalString target_id) js) s
      | _ \<Rightarrow> (kScheduleRejected, s))"

definition browserd_console_messages :: "bool \<Rightarrow> c_string \<Rightarrow> nat option \<Rightarrow> 'c entry" where
  "browserd_console_messages session target_id callback s =
     (case callback of
        None \<Rightarrow> (kScheduleRejected, s)
      | Some cb \<Rightarrow> Schedule session (cb, CallConsoleMessages (OptionalString target_id)) s)"

definition browserd_snapshot :: "bool \<Rightarrow> c_string \<Rightarrow> nat option \<Rightarrow> 'c entry" where
  "browserd_snapshot session target_id callback s =
     (case callback of
        None \<Rightarrow> (kScheduleRejected, s)
      | Some cb \<Rightarrow> Schedule session (cb, CallSnapshot (OptionalString target_id)) s)"

definition browserd_screenshot :: "bool \<Rightarrow> c_string \<Rightarrow> nat option \<Rightarrow> 'c entry" where
  "browserd_screenshot session target_id callback s =
     (case callback of
        None \<Rightarrow> (kScheduleRejected, s)
      | Some cb \<Rightarrow> Schedule session (cb, CallScreenshot (OptionalString target_id)) s)"

definition browserd_wait_for :: "bool \<Rightarrow> c_string \<Rightarrow> browserd_wait_options option \<Rightarrow> nat option \<Rightarrow> 'c entry" where
  "browserd_wait_for session target_id options callback s =
     (case (callback, options) of
        (Some cb, Some opts) \<Rightarrow>
          if wo_size opts < wait_options_size then (kScheduleRejected, s)
          else Schedule session (cb, CallWaitFor (OptionalString target_id)
                 \<lparr>wait_selector = OptionalString (wo_selector opts), wait_text = OptionalString (wo_text opts),
                  wait_timeout_ms = wo_timeout_ms opts\<rparr>) s
      | _ \<Rightarrow> (kScheduleRejected, s))"

definition browserd_click :: "bool \<Rightarrow> c_string \<Rightarrow> browserd_ref_options option \<Rightarrow> nat option \<Rightarrow> 'c entry" where
  "browserd_click session target_id options callback s =
     (case (callback, options) of
        (Some cb, Some opts) \<Rightarrow>
          if ro_size opts < ref_options_size \<or> ro_ref opts = None then (kScheduleRejected, s)
          else Schedule session (cb, CallClick (OptionalString target_id) \<lparr>ref_ref = the (ro_ref opts)\<rparr>) s
      | _ \<Rightarrow> (kScheduleRejected, s))"

definition browserd_hover :: "bool \<Rightarrow> c_string \<Rightarrow> browserd_ref_options option \<Rightarrow> nat option \<Rightarrow> 'c entry" where
  "browserd_hover session target_id options callback s =
     (case (callback, options) of
        (Some cb, Some opts) \<Rightarrow>
          if ro_size opts < ref_options_size \<or> ro_ref opts = None then (kScheduleRejected, s)
          else Schedule session (cb, CallHover (OptionalString target_id) \<lparr>ref_ref = the (ro_ref opts)\<rparr>) s
      | _ \<Rightarrow> (kScheduleRejected, s))"

definition browserd_type :: "bool \<Rightarrow> c_string \<Rightarrow> browserd_type_options option \<Rightarrow> nat option \<Rightarrow> 'c entry" where
  "browserd_type session target_id options callback s =
     (case (callback, options) of
        (Some cb, Some opts) \<Rightarrow>
          if to_size opts < type_options_size \<or> to_ref opts = None \<or> to_text opts = None then (kScheduleRejected, s)
          else Schedule session (cb, CallType (OptionalString target_id)
                 \<lparr>type_ref = the (to_ref opts), type_text = the (to_text opts), type_clear = to_clear opts\<rparr>) s
      | _ \<Rightarrow> (kScheduleRejected, s))"

definition browserd_press_key :: "bool \<Rightarrow> c_string \<Rightarrow> browserd_key_options option \<Rightarrow> nat option \<Rightarrow> 'c entry" where
  "browserd_press_key session target_id options callback s =
     (case (callback, options) of
        (Some cb, Some opts) \<Rightarrow>
          if ko_size opts < key_options_size \<or> ko_key opts = None then (kScheduleRejected, s)
          else Schedule session (cb, CallPressKey (OptionalString target_id) \<lparr>key_key = the (ko_key opts)\<rparr>) s
      | _ \<Rightarrow> (kScheduleRejected, s))"

text \<open>The loop that copies the values and stops at a null one.\<close>

fun copy_values :: "string list \<Rightarrow> c_string list \<Rightarrow> string list option" where
  "copy_values vs [] = Some vs"
| "copy_values vs (None # rest) = None"
| "copy_values vs (Some v # rest) = copy_values (vs @ [v]) rest"

definition browserd_select_option ::
  "bool \<Rightarrow> c_string \<Rightarrow> browserd_select_options option \<Rightarrow> nat option \<Rightarrow> 'c entry" where
  "browserd_select_option session target_id options callback s =
     (case (callback, options) of
        (Some cb, Some opts) \<Rightarrow>
          if so_size opts < select_options_size \<or> so_ref opts = None \<or>
             (so_values opts = None \<and> so_values_len opts > 0)
          then (kScheduleRejected, s)
          else
            (case copy_values [] (take (so_values_len opts) (case so_values opts of Some vs \<Rightarrow> vs | None \<Rightarrow> [])) of
               None \<Rightarrow> (kScheduleRejected, s)
             | Some values \<Rightarrow>
                 Schedule session (cb, CallSelectOption (OptionalString target_id)
                   \<lparr>select_ref = the (so_ref opts), select_values = values\<rparr>) s)
      | _ \<Rightarrow> (kScheduleRejected, s))"

definition browserd_drag :: "bool \<Rightarrow> c_string \<Rightarrow> browserd_drag_options option \<Rightarrow> nat option \<Rightarrow> 'c entry" where
  "browserd_drag session target_id options callback s =
     (case (callback, options) of
        (Some cb, Some opts) \<Rightarrow>
          if do_size opts < drag_options_size \<or> do_start_ref opts = None \<or> do_end_ref opts = None
          then (kScheduleRejected, s)
          else Schedule session (cb, CallDrag (OptionalString target_id)
                 \<lparr>drag_start_ref = the (do_start_ref opts), drag_end_ref = the (do_end_ref opts)\<rparr>) s
      | _ \<Rightarrow> (kScheduleRejected, s))"

definition browserd_scroll :: "bool \<Rightarrow> c_string \<Rightarrow> browserd_scroll_options option \<Rightarrow> nat option \<Rightarrow> 'c entry" where
  "browserd_scroll session target_id options callback s =
     (case (callback, options) of
        (Some cb, Some opts) \<Rightarrow>
          if sc_size opts < scroll_options_size then (kScheduleRejected, s)
          else Schedule session (cb, CallScroll (OptionalString target_id)
                 \<lparr>scroll_delta_x = sc_delta_x opts, scroll_delta_y = sc_delta_y opts\<rparr>) s
      | _ \<Rightarrow> (kScheduleRejected, s))"

definition browserd_cookie_list ::
  "bool \<Rightarrow> c_string \<Rightarrow> browserd_cookie_list_options option \<Rightarrow> nat option \<Rightarrow> 'c entry" where
  "browserd_cookie_list session target_id options callback s =
     (case callback of
        None \<Rightarrow> (kScheduleRejected, s)
      | Some cb \<Rightarrow>
          (case options of
             None \<Rightarrow> Schedule session (cb, CallCookieList (OptionalString target_id) \<lparr>cl_url = None\<rparr>) s
           | Some opts \<Rightarrow>
               if clo_size opts < cookie_list_options_size then (kScheduleRejected, s)
               else Schedule session (cb, CallCookieList (OptionalString target_id)
                      \<lparr>cl_url = OptionalString (clo_url opts)\<rparr>) s))"

definition browserd_cookie_get ::
  "bool \<Rightarrow> c_string \<Rightarrow> browserd_cookie_get_options option \<Rightarrow> nat option \<Rightarrow> 'c entry" where
  "browserd_cookie_get session target_id options callback s =
     (case (callback, options) of
        (Some cb, Some opts) \<Rightarrow>
          if cgo_size opts < cookie_get_options_size \<or> cgo_name opts = None then (kScheduleRejected, s)
          else Schedule session (cb, CallCookieGet (OptionalString target_id) \<lparr>cg_name = the (cgo_name opts)\<rparr>) s
      | _ \<Rightarrow> (kScheduleRejected, s))"

definition browserd_cookie_set ::
  "bool \<Rightarrow> c_string \<Rightarrow> browserd_cookie_set_options option \<Rightarrow> nat option \<Rightarrow> 'c entry" where
  "browserd_cookie_set session target_id options callback s =
     (case (callback, options) of
        (Some cb, Some opts) \<Rightarrow>
          if cso_size opts < cookie_set_options_size \<or> cso_name opts = None \<or> cso_value opts = None
          then (kScheduleRejected, s)
          else Schedule session (cb, CallCookieSet (OptionalString target_id)
                 \<lparr>cs_name = the (cso_name opts), cs_value = the (cso_value opts),
                  cs_domain = OptionalString (cso_domain opts), cs_path = OptionalString (cso_path opts),
                  cs_url = OptionalString (cso_url opts), cs_secure = cso_secure opts,
                  cs_http_only = cso_http_only opts\<rparr>) s
      | _ \<Rightarrow> (kScheduleRejected, s))"

definition browserd_cookie_delete ::
  "bool \<Rightarrow> c_string \<Rightarrow> browserd_cookie_delete_options option \<Rightarrow> nat option \<Rightarrow> 'c entry" where
  "browserd_cookie_delete session target_id options callback s =
     (case (callback, options) of
        (Some cb, Some opts) \<Rightarrow>
          if cdo_size opts < cookie_delete_options_size \<or> cdo_name opts = None then (kScheduleRejected, s)
          else Schedule session (cb, CallCookieDelete (OptionalString target_id)
                 \<lparr>cd_name = the (cdo_name opts), cd_url = OptionalString (cdo_url opts),
                  cd_domain = OptionalString (cdo_domain opts)\<rparr>) s
      | _ \<Rightarrow> (kScheduleRejected, s))"

definition browserd_cookie_clear :: "bool \<Rightarrow> c_string \<Rightarrow> nat option \<Rightarrow> 'c entry" where
  "browserd_cookie_clear session target_id callback s =
     (case callback of
        None \<Rightarrow> (kScheduleRejected, s)
      | Some cb \<Rightarrow> Schedule session (cb, CallCookieClear (OptionalString target_id)) s)"

section \<open>Runs\<close>

text \<open>A call of an entry point with any arguments, with its result.\<close>

inductive entry_call :: "'c embed \<Rightarrow> int \<times> 'c embed \<Rightarrow> bool" where
  "entry_call s (browserd_tab_list p cb s)"
| "entry_call s (browserd_tab_new p i cb s)"
| "entry_call s (browserd_tab_close p i cb s)"
| "entry_call s (browserd_resize p w w' cb s)"
| "entry_call s (browserd_navigate p i i' cb s)"
| "entry_call s (browserd_navigate_back p i cb s)"
| "entry_call s (browserd_navigate_forward p i cb s)"
| "entry_call s (browserd_reload p i cb s)"
| "entry_call s (browserd_evaluate p i i' cb s)"
| "entry_call s (browserd_console_messages p i cb s)"
| "entry_call s (browserd_snapshot p i cb s)"
| "entry_call s (browserd_screenshot p i cb s)"
| "entry_call s (browserd_wait_for p i opts cb s)"
| "entry_call s (browserd_click p i opts cb s)"
| "entry_call s (browserd_hover p i opts cb s)"
| "entry_call s (browserd_type p i opts cb s)"
| "entry_call s (browserd_press_key p i opts cb s)"
| "entry_call s (browserd_select_option p i opts cb s)"
| "entry_call s (browserd_drag p i opts cb s)"
| "entry_call s (browserd_scroll p i opts cb s)"
| "entry_call s (browserd_cookie_list p i opts cb s)"
| "entry_call s (browserd_cookie_get p i opts cb s)"
| "entry_call s (browserd_cookie_set p i opts cb s)"
| "entry_call s (browserd_cookie_delete p i opts cb s)"
| "entry_call s (browserd_cookie_clear p i cb s)"

lemmas entry_defs = browserd_tab_list_def browserd_tab_new_def browserd_tab_close_def browserd_resize_def browserd_navigate_def browserd_navigate_back_def browserd_navigate_forward_def browserd_reload_def browserd_evaluate_def browserd_console_messages_def browserd_snapshot_def browserd_screenshot_def browserd_wait_for_def browserd_click_def browserd_hover_def browserd_type_def browserd_press_key_def browserd_select_option_def browserd_drag_def browserd_scroll_def browserd_cookie_list_def browserd_cookie_get_def browserd_cookie_set_def browserd_cookie_delete_def browserd_cookie_clear_def

lemma entry_call_schedules:
  "entry_call s r \<Longrightarrow> r = (kScheduleRejected, s) \<or> (\<exists>p task. r = Schedule p task s)"
  by (induction rule: entry_call.induct) (auto simp: entry_defs split: option.split)

text \<open>
  What happens in the process: the embedder runs the browser, calls an entry point and shuts down,
  the browser gets ready, runs a posted task and ends. A browser that was started gets ready at most once, for its
  callback is a \<open>OnceCallback\<close>; that no second browser does is up to \<open>TryBeginRun\<close>.
\<close>

definition browser_ready :: "bool \<Rightarrow> nat \<Rightarrow> bool \<Rightarrow> 'c embed \<Rightarrow> 'c embed" where
  "browser_ready initialized controller runner s =
     OnHeadlessBrowserStart initialized controller runner (s\<lparr>em_starting := em_starting s - 1\<rparr>)"

inductive embed_step :: "'c cl_ops \<Rightarrow> switch_names \<Rightarrow> base_lib \<Rightarrow> 'c embed \<Rightarrow> 'c embed \<Rightarrow> bool" for C N L where
  run: "browserd_run C N L config ready s = (rc, s') \<Longrightarrow> embed_step C N L s s'"
| ready: "0 < em_starting s \<Longrightarrow> embed_step C N L s (browser_ready initialized controller runner s)"
| call: "entry_call s (rc, s') \<Longrightarrow> embed_step C N L s s'"
| posted: "embed_step C N L s (run_posted s)"
| shutdown: "embed_step C N L s (browserd_shutdown p in_sequence s)"
| ends: "em_lifecycle s = kRunning \<Longrightarrow> embed_step C N L s (browserd_run_ends s)"

inductive embed_run :: "'c cl_ops \<Rightarrow> switch_names \<Rightarrow> base_lib \<Rightarrow> 'c embed \<Rightarrow> bool" for C N L where
  start: "embed_run C N L (new_embed c env)"
| step: "embed_run C N L s \<Longrightarrow> embed_step C N L s s' \<Longrightarrow> embed_run C N L s'"

text \<open>Closed: the session was there, or its start failed, and it takes no more calls.\<close>

definition closed :: "'c embed \<Rightarrow> bool" where
  "closed s \<longleftrightarrow> em_lifecycle s \<noteq> kNotStarted \<and> (em_ready s \<noteq> [] \<or> em_lifecycle s = kStopped) \<and>
     (case em_session s of None \<Rightarrow> True | Some ses \<Rightarrow> ses_shutting_down ses)"

definition controllers_alive :: "'c embed \<Rightarrow> nat" where
  "controllers_alive s =
     (case em_session s of None \<Rightarrow> 0 | Some ses \<Rightarrow> (if ses_controller ses = None then 0 else 1))"

fun posted_to :: "posted list \<Rightarrow> nat list" where
  "posted_to [] = []"
| "posted_to (PostedTask c t # ps) = c # posted_to ps"
| "posted_to (PostedDestroy # ps) = posted_to ps"

definition session_ok :: "'c embed \<Rightarrow> bool" where
  "session_ok s \<longleftrightarrow>
     (case em_session s of
        None \<Rightarrow> em_posted s = []
      | Some ses \<Rightarrow> em_lifecycle s = kRunning \<and> em_ready s \<noteq> [] \<and>
          (ses_controller ses = None \<longrightarrow> ses_shutting_down ses) \<and>
          (ses_controller ses = None \<or> Some ` set (posted_to (em_posted s)) \<subseteq> {ses_controller ses}))"

definition embed_ok :: "'c embed \<Rightarrow> bool" where
  "embed_ok s \<longleftrightarrow>
     em_accepted s = em_started s @ em_dropped s @ posted_tasks (em_posted s) \<and>
     (em_dropped s \<noteq> [] \<longrightarrow> closed s) \<and> session_ok s \<and>
     em_starting s + length (em_ready s) \<le> 1 \<and> (em_lifecycle s = kNotStarted \<longrightarrow> em_ready s = []) \<and>
     (0 < em_starting s \<longrightarrow> em_lifecycle s = kRunning) \<and>
     em_controllers_destroyed s + controllers_alive s \<le> length (em_ready s) \<and>
     em_runtime_shutdowns s \<le> em_controllers_destroyed s"

lemma posted_tasks_append [simp]: "posted_tasks (a @ b) = posted_tasks a @ posted_tasks b"
  by (induction a rule: posted_tasks.induct) simp_all

lemma posted_to_append [simp]: "posted_to (a @ b) = posted_to a @ posted_to b"
  by (induction a rule: posted_to.induct) simp_all

lemmas embed_invariant = embed_ok_def closed_def session_ok_def controllers_alive_def

lemma embed_ok_new: "embed_ok (new_embed c env)"
  by (simp add: embed_invariant new_embed_def)

text \<open>A run that is rejected changes nothing, and one that begins changes nothing of the session.\<close>

lemma browserd_run_cases:
  assumes "browserd_run C N L config ready s = (rc, s')"
  obtains "s' = s" "rc = Some kScheduleRejected" "\<not> ready \<or> em_lifecycle s \<noteq> kNotStarted"
  | c env policy gui where "rc = None" "em_lifecycle s = kNotStarted" "ready"
      "s' = s\<lparr>em_lifecycle := kRunning, em_policy := policy, em_environment := env, em_command_line := c,
              em_gui := Some gui, em_starting := Suc (em_starting s)\<rparr>"
  using assms
  by (cases "ready \<and> em_lifecycle s = kNotStarted")
    (auto simp: browserd_run_def TryBeginRun_def ApplyRunConfig_def Let_def split: prod.splits if_splits)

lemma Schedule_cases:
  obtains "Schedule p task s = (kScheduleRejected, s)"
  | ses c where "em_session s = Some ses" "p" "\<not> ses_shutting_down ses" "ses_controller ses = Some c"
      "Schedule p task s = (kScheduleOk, s\<lparr>em_posted := em_posted s @ [PostedTask c task],
                                         em_accepted := em_accepted s @ [task]\<rparr>)"
proof (cases "\<exists>ses c. p \<and> em_session s = Some ses \<and> \<not> ses_shutting_down ses \<and> ses_controller ses = Some c \<and> ses_runner ses")
  case True
  then obtain ses c where t: "p" "em_session s = Some ses" "\<not> ses_shutting_down ses" "ses_controller ses = Some c" "ses_runner ses"
    by blast
  show thesis by (rule that(2) [OF t(2,1,3,4)]) (simp add: Schedule_def t)
next
  case False
  show thesis by (rule that(1)) (use False in \<open>auto simp: Schedule_def split: option.split\<close>)
qed

lemma embed_ok_destroy: "embed_ok s \<Longrightarrow> embed_ok (DestroySessionController s)"
  by (cases "em_session s") (auto simp: DestroySessionController_def embed_invariant)

lemma embed_ok_posted: "embed_ok s \<Longrightarrow> embed_ok (run_posted s)"
proof (cases "em_posted s")
  case (Cons p ps)
  assume ok: "embed_ok s"
  then obtain ses where ses: "em_session s = Some ses"
    using Cons by (cases "em_session s") (simp_all add: embed_ok_def session_ok_def)
  show ?thesis
  proof (cases p)
    case PostedDestroy
    have "embed_ok (s\<lparr>em_posted := ps\<rparr>)"
      using ok Cons PostedDestroy ses by (simp add: embed_invariant)
    with Cons PostedDestroy show ?thesis by (simp add: run_posted_def embed_ok_destroy)
  next
    case (PostedTask c t)
    show ?thesis
    proof (cases "ses_shutting_down ses \<or> ses_controller ses \<noteq> Some c")
      case True
      then have "ses_shutting_down ses"
        using ok Cons PostedTask ses by (auto simp: embed_ok_def session_ok_def)
      with ok Cons PostedTask ses show ?thesis by (auto simp: run_posted_def embed_invariant)
    next
      case False
      with ok Cons PostedTask ses show ?thesis by (simp add: run_posted_def embed_invariant)
    qed
  qed
qed (simp add: run_posted_def)

lemma embed_ok_shutdown: "embed_ok s \<Longrightarrow> embed_ok (browserd_shutdown p in_sequence s)"
proof (cases "if p then em_session s else None")
  case (Some ses)
  assume ok: "embed_ok s"
  let ?s1 = "s\<lparr>em_session := Some (ses\<lparr>ses_shutting_down := True\<rparr>)\<rparr>"
  have policy: "embed_ok (t\<lparr>em_policy := q\<rparr>) = embed_ok t" for t :: "'a embed" and q
    by (cases "em_session t") (simp_all add: embed_invariant)
  from Some have ses: "p" "em_session s = Some ses" by (auto split: if_splits)
  have "embed_ok ?s1" "embed_ok (?s1\<lparr>em_posted := em_posted ?s1 @ [PostedDestroy]\<rparr>)"
    using ok ses by (auto simp: embed_invariant)
  with ok ses embed_ok_destroy [of ?s1] show ?thesis
    by (simp add: browserd_shutdown_def Let_def policy)
qed (simp add: browserd_shutdown_def)

lemma starting_not_ready:
  assumes "embed_ok s" "0 < em_starting s"
  shows "em_starting s = 1 \<and> em_ready s = [] \<and> em_lifecycle s = kRunning \<and> em_session s = None"
proof -
  from assms have one: "em_starting s + length (em_ready s) \<le> 1" "em_lifecycle s = kRunning" "session_ok s"
    by (simp_all add: embed_ok_def)
  then have "em_starting s = 1" "length (em_ready s) = 0" using assms(2) by linarith+
  with one show ?thesis by (cases "em_session s") (simp_all add: session_ok_def)
qed

lemma embed_ok_ready:
  assumes "embed_ok s" "0 < em_starting s" shows "embed_ok (browser_ready initialized controller runner s)"
  using assms(1) starting_not_ready [OF assms]
  by (auto simp: browser_ready_def OnHeadlessBrowserStart_def NotifyReady_def embed_invariant)

lemma embed_ok_ends:
  assumes "embed_ok s" "em_lifecycle s = kRunning" shows "embed_ok (browserd_run_ends s)"
  using assms
  by (cases "em_session s") (auto simp: browserd_run_ends_def FinishRun_def Let_def embed_invariant)

lemma embed_ok_step:
  assumes "embed_step C N L s s'" "embed_ok s" shows "embed_ok s'"
  using assms
proof (induction rule: embed_step.induct)
  case (run config ready s rc s')
  from run(1) show ?case
  proof (cases rule: browserd_run_cases)
    case (2 c env policy gui)
    with run(2) show ?thesis by (cases "em_session s") (auto simp: embed_invariant)
  qed (use run in simp)
next
  case (call s rc s')
  from entry_call_schedules [OF call(1)] show ?case
  proof
    assume "\<exists>p task. (rc, s') = Schedule p task s"
    then obtain p task where "Schedule p task s = (rc, s')" by auto
    with call(2) show ?case by (cases p task s rule: Schedule_cases) (auto simp: embed_invariant)
  qed (use call in simp)
qed (simp_all add: embed_ok_ready embed_ok_posted embed_ok_shutdown embed_ok_ends)

lemma embed_run_ok: "embed_run C N L s \<Longrightarrow> embed_ok s"
  by (induction rule: embed_run.induct) (simp_all add: embed_ok_new embed_ok_step)

lemma closed_step:
  assumes "embed_step C N L s s'" "embed_ok s" "closed s"
  shows "closed s' \<and> em_started s' = em_started s \<and> em_accepted s' = em_accepted s"
  using assms
proof (induction rule: embed_step.induct)
  case (run config ready s rc s')
  from run(1) show ?case
    by (cases rule: browserd_run_cases) (use run in \<open>auto simp: closed_def\<close>)
next
  case (call s rc s')
  from entry_call_schedules [OF call(1)] show ?case
  proof
    assume "\<exists>p task. (rc, s') = Schedule p task s"
    then obtain p task where "Schedule p task s = (rc, s')" by auto
    with call(3) show ?case by (cases p task s rule: Schedule_cases) (auto simp: closed_def)
  qed (use call in simp)
next
  case (posted s)
  then show ?case
    by (cases "em_session s"; cases "em_posted s"; cases "hd (em_posted s)")
      (auto simp: run_posted_def closed_def DestroySessionController_def)
next
  case (shutdown s p in_sequence)
  then show ?case
    by (cases "em_session s") (auto simp: browserd_shutdown_def closed_def)
next
  case (ends s)
  then show ?case by (simp add: browserd_run_ends_def FinishRun_def closed_def Let_def)
next
  case (ready s initialized controller runner)
  with starting_not_ready [OF ready(2,1)] show ?case by (simp add: closed_def)
qed

lemma closed_steps:
  "(embed_step C N L)\<^sup>*\<^sup>* s s' \<Longrightarrow> embed_ok s \<Longrightarrow> closed s \<Longrightarrow>
     closed s' \<and> em_started s' = em_started s \<and> em_accepted s' = em_accepted s"
proof (induction rule: converse_rtranclp_induct)
  case (step s t)
  with closed_step [OF step(1)] embed_ok_step [OF step(1)] show ?case by simp
qed simp

section \<open>Properties\<close>


definition demo_embed :: "(string \<times> string) list embed" where
  "demo_embed =
     browser_ready True 1 True (snd (browserd_run list_cl ref_names ref_lib None True (new_embed [] (\<lambda>n. None))))"

definition demo_called :: "(string \<times> string) list embed" where
  "demo_called = snd (browserd_tab_new True None (Some 5) demo_embed)"

lemma demo_embed_run: "embed_run list_cl ref_names ref_lib demo_embed"
proof -
  let ?s0 = "new_embed [] (\<lambda>n. None) :: (string \<times> string) list embed"
  let ?s1 = "snd (browserd_run list_cl ref_names ref_lib None True ?s0)"
  obtain rc s1 where r: "browserd_run list_cl ref_names ref_lib None True ?s0 = (rc, s1)" by fastforce
  then have "0 < em_starting s1"
    by (cases rule: browserd_run_cases) (simp_all add: new_embed_def)
  moreover have "embed_run list_cl ref_names ref_lib s1"
    by (rule embed_run.step [OF embed_run.start embed_step.run [OF r]])
  ultimately show ?thesis
    unfolding demo_embed_def r snd_conv by (blast intro: embed_run.step embed_step.ready)
qed

lemma demo_called_run: "embed_run list_cl ref_names ref_lib demo_called"
  unfolding demo_called_def
  by (rule embed_run.step [OF demo_embed_run])
    (metis embed_step.call entry_call.intros(2) prod.collapse)

lemma demo_embed_session:
  "em_session demo_embed = Some \<lparr>ses_controller = Some 1, ses_runner = True, ses_shutting_down = False\<rparr>"
  by (simp add: demo_embed_def browser_ready_def OnHeadlessBrowserStart_def NotifyReady_def)

lemma demo_called_accepted:
  "em_accepted demo_called = em_accepted demo_embed @ [(5, CallTabNew ''about:blank'')]"
  "em_session demo_called = em_session demo_embed"
  by (simp_all add: demo_called_def browserd_tab_new_def Schedule_def demo_embed_session)


text \<open>
  C13: a shutdown is final, and silent: once \<open>browserd_shutdown\<close> was called on the session, from
  whichever thread, no call is accepted and none reaches the controller any more. A call that was
  accepted before and has not started by then is dropped without its callback, though it returned 0.
\<close>

theorem embed_shutdown_is_final:
  assumes "embed_run C N L s" "em_session s \<noteq> None"
    and "(embed_step C N L)\<^sup>*\<^sup>* (browserd_shutdown True in_sequence s) s'"
  shows "em_started s' = em_started s \<and> em_accepted s' = em_accepted s \<and>
    fst (Schedule p task s') = kScheduleRejected"
proof -
  note ok = embed_run_ok [OF assms(1)]
  from assms(2) obtain ses where ses: "em_session s = Some ses" by blast
  have same: "em_started (DestroySessionController t) = em_started t"
    "em_accepted (DestroySessionController t) = em_accepted t"
    "em_lifecycle (DestroySessionController t) = em_lifecycle t" "em_ready (DestroySessionController t) = em_ready t"
    for t :: "'a embed"
    by (simp_all add: DestroySessionController_def split: option.split)
  let ?t = "browserd_shutdown True in_sequence s"
  have 1: "em_started ?t = em_started s" "em_accepted ?t = em_accepted s" "em_lifecycle ?t = em_lifecycle s"
    "em_ready ?t = em_ready s"
    by (simp_all add: browserd_shutdown_def Let_def same split: option.split)
  have "case em_session ?t of None \<Rightarrow> True | Some ses \<Rightarrow> ses_shutting_down ses"
    using ses by (simp add: browserd_shutdown_def DestroySessionController_def Let_def)
  with ok ses have closed: "closed ?t" by (simp add: closed_def 1 embed_ok_def session_ok_def)
  from closed_steps [OF assms(3) embed_ok_shutdown [OF ok] closed]
  have 2: "closed s'" "em_started s' = em_started s" "em_accepted s' = em_accepted s" by (simp_all add: 1)
  then have "fst (Schedule p task s') = kScheduleRejected"
    by (cases p task s' rule: Schedule_cases) (auto simp: closed_def)
  with 2 show ?thesis by simp
qed

theorem embed_shutdown_is_final_witness:
  "em_accepted (run_posted (browserd_shutdown True False demo_called)) = [(5, CallTabNew ''about:blank'')] \<and>
   em_started (run_posted (browserd_shutdown True False demo_called)) = []"
proof -
  have "em_accepted demo_embed = []" "em_started demo_embed = []"
    by (simp_all add: demo_embed_def browser_ready_def OnHeadlessBrowserStart_def NotifyReady_def browserd_run_def TryBeginRun_def
        new_embed_def ApplyRunConfig_def Let_def split: prod.split)
  then have a: "em_accepted demo_called = [(5, CallTabNew ''about:blank'')]" "em_started demo_called = []"
    by (simp_all add: demo_called_accepted)
      (simp add: demo_called_def browserd_tab_new_def Schedule_def demo_embed_session)
  have "em_session demo_called \<noteq> None" by (simp add: demo_called_accepted demo_embed_session)
  moreover have "(embed_step list_cl ref_names ref_lib)\<^sup>*\<^sup>* (browserd_shutdown True False demo_called)
      (run_posted (browserd_shutdown True False demo_called))"
    by (rule r_into_rtranclp) (rule embed_step.posted)
  ultimately show ?thesis using embed_shutdown_is_final [OF demo_called_run] a by metis
qed

text \<open>A session that is shut down drops its posted calls and destroys its controller.\<close>

lemma drain:
  assumes "em_session s = Some ses" "ses_shutting_down ses" "n = length (em_posted s)"
  shows "\<exists>ses'. em_session ((run_posted ^^ n) s) = Some ses' \<and> em_posted ((run_posted ^^ n) s) = [] \<and>
    (ses_controller ses' = None \<longleftrightarrow> ses_controller ses = None \<or> PostedDestroy \<in> set (em_posted s)) \<and>
    em_dropped ((run_posted ^^ n) s) = em_dropped s @ posted_tasks (em_posted s) \<and>
    em_runtime_shutdowns ((run_posted ^^ n) s) = em_runtime_shutdowns s +
      (if ses_controller ses \<noteq> None \<and> PostedDestroy \<in> set (em_posted s) then 1 else 0)"
  using assms
proof (induction n arbitrary: s ses)
  case (Suc n)
  then obtain p ps where posted: "em_posted s = p # ps" "length ps = n" by (cases "em_posted s") auto
  let ?ses1 = "if p = PostedDestroy \<and> ses_controller ses \<noteq> None
    then ses\<lparr>ses_shutting_down := True, ses_controller := None\<rparr> else ses"
  have "em_session (run_posted s) = Some ?ses1 \<and> em_posted (run_posted s) = ps \<and>
    em_dropped (run_posted s) = em_dropped s @ posted_tasks [p] \<and>
    em_runtime_shutdowns (run_posted s) = em_runtime_shutdowns s +
      (if ses_controller ses \<noteq> None \<and> p = PostedDestroy then 1 else 0)"
    using Suc.prems(1,2) posted(1) by (cases p) (simp_all add: run_posted_def DestroySessionController_def)
  then obtain ses1 where 1: "em_session (run_posted s) = Some ses1" "ses_shutting_down ses1" "em_posted (run_posted s) = ps"
    "ses_controller ses1 = (if p = PostedDestroy then None else ses_controller ses)"
    "em_dropped (run_posted s) = em_dropped s @ posted_tasks [p]"
    "em_runtime_shutdowns (run_posted s) = em_runtime_shutdowns s + (if ses_controller ses \<noteq> None \<and> p = PostedDestroy then 1 else 0)"
    using Suc.prems(2) by simp
  have tasks: "posted_tasks (p # ps) = posted_tasks [p] @ posted_tasks ps" by (metis append_Cons append_Nil posted_tasks_append)
  have unroll: "(run_posted ^^ Suc n) s = (run_posted ^^ n) (run_posted s)" by (simp only: funpow_Suc_right o_apply)
  have "n = length (em_posted (run_posted s))" using posted(2) 1(3) by simp
  from Suc.IH [OF 1(1,2) this, unfolded 1(3)] obtain ses' where
    2: "em_session ((run_posted ^^ n) (run_posted s)) = Some ses'" "em_posted ((run_posted ^^ n) (run_posted s)) = []"
    "ses_controller ses' = None \<longleftrightarrow> ses_controller ses1 = None \<or> PostedDestroy \<in> set ps"
    "em_dropped ((run_posted ^^ n) (run_posted s)) = em_dropped (run_posted s) @ posted_tasks ps"
    "em_runtime_shutdowns ((run_posted ^^ n) (run_posted s)) = em_runtime_shutdowns (run_posted s) +
      (if ses_controller ses1 \<noteq> None \<and> PostedDestroy \<in> set ps then 1 else 0)" by (elim exE conjE)
  have "ses_controller ses' = None \<longleftrightarrow> ses_controller ses = None \<or> PostedDestroy \<in> set (p # ps)"
    using 2(3) 1(4) by auto
  moreover have "em_dropped ((run_posted ^^ n) (run_posted s)) = em_dropped s @ posted_tasks (p # ps)"
    using 2(4) 1(5) tasks by simp
  moreover have "em_runtime_shutdowns ((run_posted ^^ n) (run_posted s)) = em_runtime_shutdowns s +
      (if ses_controller ses \<noteq> None \<and> PostedDestroy \<in> set (p # ps) then 1 else 0)"
    using 2(5) 1(4,6) by auto
  ultimately show ?case
    unfolding unroll posted(1) by (intro exI [of _ ses'] conjI 2(1,2))
qed simp

text \<open>
  A shutdown completes: whichever thread asks for it, once the browser's sequence has run what is
  posted the controller is destroyed, its runtime was shut down exactly once, nothing is left
  posted, and a second shutdown changes nothing.
\<close>

lemma embed_shutdown_completes:
  assumes "embed_run C N L s" "em_session s = Some ses" "\<not> ses_shutting_down ses"
    and "s1 = browserd_shutdown True in_sequence s" "s2 = (run_posted ^^ length (em_posted s1)) s1"
  shows "em_posted s2 = [] \<and> (\<exists>ses2. em_session s2 = Some ses2 \<and> ses_controller ses2 = None) \<and>
    em_runtime_shutdowns s2 = 1 \<and> em_dropped s2 = posted_tasks (em_posted s) \<and>
    browserd_shutdown True in_sequence' s2 = s2"
proof -
  note ok = embed_run_ok [OF assms(1)]
  with assms(2,3) obtain c where c: "ses_controller ses = Some c" "em_dropped s = []" "em_runtime_shutdowns s = 0"
    by (cases "ses_controller ses") (auto simp: embed_invariant)
  have "\<exists>ses1. em_session s1 = Some ses1 \<and> ses_shutting_down ses1 \<and>
      (PostedDestroy \<notin> set (em_posted s1) \<longrightarrow> ses_controller ses1 = None) \<and>
      em_runtime_shutdowns s1 = (if ses_controller ses1 = None then 1 else 0) \<and>
      em_dropped s1 = [] \<and> posted_tasks (em_posted s1) = posted_tasks (em_posted s)"
  proof (cases "ses_runner ses \<and> \<not> in_sequence")
    case True
    with assms(2,3) c show ?thesis by (simp add: assms(4) browserd_shutdown_def Let_def)
  next
    case False
    with assms(2,3) c show ?thesis by (simp add: assms(4) browserd_shutdown_def DestroySessionController_def Let_def)
  qed
  then obtain ses1 where 1: "em_session s1 = Some ses1" "ses_shutting_down ses1"
    "PostedDestroy \<notin> set (em_posted s1) \<longrightarrow> ses_controller ses1 = None"
    "em_runtime_shutdowns s1 = (if ses_controller ses1 = None then 1 else 0)"
    "em_dropped s1 = []" "posted_tasks (em_posted s1) = posted_tasks (em_posted s)" by blast
  obtain ses2 where 2: "em_session s2 = Some ses2" "em_posted s2 = []" "ses_controller ses2 = None"
    "em_dropped s2 = posted_tasks (em_posted s)" "em_runtime_shutdowns s2 = 1"
    using drain [OF 1(1,2) refl] 1(3-6) unfolding assms(5) by (auto split: if_splits)
  have "embed_ok s1" unfolding assms(4) by (rule embed_ok_shutdown [OF ok])
  then have "embed_ok ((run_posted ^^ n) s1)" for n
    by (induction n) (simp_all add: embed_ok_posted)
  then have "embed_ok s2" by (simp add: assms(5))
  with 2 have "ses_shutting_down ses2" by (simp add: embed_ok_def session_ok_def)
  with 2 show ?thesis by (simp add: browserd_shutdown_def)
qed

lemma embed_shutdown_completes_witness:
  "em_runtime_shutdowns ((run_posted ^^ length (em_posted (browserd_shutdown True False demo_called)))
     (browserd_shutdown True False demo_called)) = 1"
  using embed_shutdown_completes [OF demo_called_run, OF _ _ refl refl] by (simp add: demo_called_accepted demo_embed_session)

lemma option_sizes:
  "ref_options_size = 16" "type_options_size = 32" "key_options_size = 16" "select_options_size = 32"
  "drag_options_size = 24" "scroll_options_size = 12" "wait_options_size = 32" "cookie_list_options_size = 16"
  "cookie_get_options_size = 16" "cookie_set_options_size = 56" "cookie_delete_options_size = 32"
  by code_simp+

text \<open>The session takes calls.\<close>

definition usable :: "bool \<Rightarrow> 'c embed \<Rightarrow> bool" where
  "usable p s \<longleftrightarrow> p \<and>
     (case em_session s of
        None \<Rightarrow> False
      | Some ses \<Rightarrow> \<not> ses_shutting_down ses \<and> ses_controller ses \<noteq> None \<and> ses_runner ses)"

lemma Schedule_result: "fst (Schedule p task s) = (if usable p s then kScheduleOk else kScheduleRejected)"
  by (auto simp: Schedule_def usable_def split: option.split)

lemma schedule_codes [simp]: "kScheduleRejected \<noteq> kScheduleOk" "kScheduleOk \<noteq> kScheduleRejected"
  by (simp_all add: kScheduleOk_def kScheduleRejected_def)

lemma copy_values_spec:
  "copy_values vs cs = (if None \<in> set cs then None else Some (vs @ map the cs))"
  by (induction vs cs rule: copy_values.induct) auto

text \<open>
  An entry point accepts a call exactly when the session takes calls and the arguments are
  complete: there is a callback, the options are there with at least the size of today's structure
  (whose size is the one below on a 64-bit machine) and every string that the operation needs is
  not null, also each of the values of a selection. What is optional may be missing.
\<close>

lemma embed_argument_checks:
  "(fst (browserd_click p i ro cb s) = kScheduleOk \<longleftrightarrow>
      usable p s \<and> cb \<noteq> None \<and> (case ro of None \<Rightarrow> False | Some z \<Rightarrow> ro_size z \<ge> 16 \<and> ro_ref z \<noteq> None)) \<and>
   (fst (browserd_type p i tyo cb s) = kScheduleOk \<longleftrightarrow>
      usable p s \<and> cb \<noteq> None \<and>
      (case tyo of None \<Rightarrow> False | Some z \<Rightarrow> to_size z \<ge> 32 \<and> to_ref z \<noteq> None \<and> to_text z \<noteq> None)) \<and>
   (fst (browserd_select_option p i seo cb s) = kScheduleOk \<longleftrightarrow>
      usable p s \<and> cb \<noteq> None \<and>
      (case seo of None \<Rightarrow> False | Some z \<Rightarrow> so_size z \<ge> 32 \<and> so_ref z \<noteq> None \<and>
         (case so_values z of None \<Rightarrow> so_values_len z = 0 | Some vs \<Rightarrow> None \<notin> set (take (so_values_len z) vs)))) \<and>
   (fst (browserd_wait_for p i wo cb s) = kScheduleOk \<longleftrightarrow>
      usable p s \<and> cb \<noteq> None \<and> (case wo of None \<Rightarrow> False | Some z \<Rightarrow> wo_size z \<ge> 32)) \<and>
   (fst (browserd_cookie_list p i clo cb s) = kScheduleOk \<longleftrightarrow>
      usable p s \<and> cb \<noteq> None \<and> (case clo of None \<Rightarrow> True | Some z \<Rightarrow> clo_size z \<ge> 16)) \<and>
   (fst (browserd_cookie_set p i cso cb s) = kScheduleOk \<longleftrightarrow>
      usable p s \<and> cb \<noteq> None \<and>
      (case cso of None \<Rightarrow> False | Some z \<Rightarrow> cso_size z \<ge> 56 \<and> cso_name z \<noteq> None \<and> cso_value z \<noteq> None)) \<and>
   (fst (browserd_navigate p i url cb s) = kScheduleOk \<longleftrightarrow> usable p s \<and> cb \<noteq> None \<and> url \<noteq> None) \<and>
   (fst (browserd_tab_new p url cb s) = kScheduleOk \<longleftrightarrow> usable p s \<and> cb \<noteq> None)"
proof (intro conjI)
  show "fst (browserd_click p i ro cb s) = kScheduleOk \<longleftrightarrow>
      usable p s \<and> cb \<noteq> None \<and> (case ro of None \<Rightarrow> False | Some z \<Rightarrow> ro_size z \<ge> 16 \<and> ro_ref z \<noteq> None)"
    by (cases ro; cases cb) (auto simp: browserd_click_def option_sizes Schedule_result)
  show "fst (browserd_type p i tyo cb s) = kScheduleOk \<longleftrightarrow> usable p s \<and> cb \<noteq> None \<and>
      (case tyo of None \<Rightarrow> False | Some z \<Rightarrow> to_size z \<ge> 32 \<and> to_ref z \<noteq> None \<and> to_text z \<noteq> None)"
    by (cases tyo; cases cb) (auto simp: browserd_type_def option_sizes Schedule_result)
  show "fst (browserd_select_option p i seo cb s) = kScheduleOk \<longleftrightarrow> usable p s \<and> cb \<noteq> None \<and>
      (case seo of None \<Rightarrow> False | Some z \<Rightarrow> so_size z \<ge> 32 \<and> so_ref z \<noteq> None \<and>
         (case so_values z of None \<Rightarrow> so_values_len z = 0 | Some vs \<Rightarrow> None \<notin> set (take (so_values_len z) vs)))"
    by (cases seo; cases cb)
      (auto simp: browserd_select_option_def option_sizes Schedule_result copy_values_spec split: option.split)
  show "fst (browserd_wait_for p i wo cb s) = kScheduleOk \<longleftrightarrow>
      usable p s \<and> cb \<noteq> None \<and> (case wo of None \<Rightarrow> False | Some z \<Rightarrow> wo_size z \<ge> 32)"
    by (cases wo; cases cb) (auto simp: browserd_wait_for_def option_sizes Schedule_result)
  show "fst (browserd_cookie_list p i clo cb s) = kScheduleOk \<longleftrightarrow>
      usable p s \<and> cb \<noteq> None \<and> (case clo of None \<Rightarrow> True | Some z \<Rightarrow> clo_size z \<ge> 16)"
    by (cases clo; cases cb) (auto simp: browserd_cookie_list_def option_sizes Schedule_result)
  show "fst (browserd_cookie_set p i cso cb s) = kScheduleOk \<longleftrightarrow> usable p s \<and> cb \<noteq> None \<and>
      (case cso of None \<Rightarrow> False | Some z \<Rightarrow> cso_size z \<ge> 56 \<and> cso_name z \<noteq> None \<and> cso_value z \<noteq> None)"
    by (cases cso; cases cb) (auto simp: browserd_cookie_set_def option_sizes Schedule_result)
  show "fst (browserd_navigate p i url cb s) = kScheduleOk \<longleftrightarrow> usable p s \<and> cb \<noteq> None \<and> url \<noteq> None"
    by (cases url; cases cb) (auto simp: browserd_navigate_def Schedule_result)
  show "fst (browserd_tab_new p url cb s) = kScheduleOk \<longleftrightarrow> usable p s \<and> cb \<noteq> None"
    by (cases cb) (auto simp: browserd_tab_new_def Schedule_result)
qed

subsection \<open>Configurations of old callers\<close>

lemma config_ends:
  "config_end 1 = 5" "config_end (Suc 0) = 5" "config_end 2 = 16" "config_end 4 = 32" "config_end 5 = 33" "config_end 6 = 34"
  by code_simp+

lemma browserd_run_cong:
  "ApplyRunConfig C N L a = ApplyRunConfig C N L b \<Longrightarrow> browserd_run C N L a ready s = browserd_run C N L b ready s"
  by (simp add: browserd_run_def case_prod_beta Let_def cong: if_cong)

text \<open>A configuration of today's size with the defaults in the place of the fields that it does not have.\<close>

definition upgraded :: "browserd_config \<Rightarrow> browserd_config" where
  "upgraded c =
     \<lparr>cfg_size = 40, cfg_gui = (5 \<le> cfg_size c \<and> cfg_gui c),
      cfg_user_data_dir = (if 16 \<le> cfg_size c then cfg_user_data_dir c else None),
      cfg_switches = (if 32 \<le> cfg_size c then cfg_switches c else None),
      cfg_start_empty = (33 \<le> cfg_size c \<and> cfg_start_empty c),
      cfg_idle_on_zero_tabs = (34 \<le> cfg_size c \<and> cfg_idle_on_zero_tabs c)\<rparr>"

text \<open>
  A configuration of any size runs the browser like one of today's size that has the defaults for
  the fields beyond its end, and no configuration is one of no fields: what lies behind a short
  structure is never read, and a structure that a newer caller makes longer is read as it is.
\<close>

lemma old_configurations:
  "browserd_run C N L (Some c) ready s = browserd_run C N L (Some (upgraded c)) ready s \<and>
   ConfigGuiRuntimeOptions (Some c) = ConfigGuiRuntimeOptions (Some (upgraded c)) \<and>
   browserd_run C N L None ready s = browserd_run C N L (Some (c\<lparr>cfg_size := 4\<rparr>)) ready s \<and>
   ConfigGuiRuntimeOptions None = ConfigGuiRuntimeOptions (Some (c\<lparr>cfg_size := 4\<rparr>))"
proof -
  have "ConfigRequestsGui (Some c) = ConfigRequestsGui (Some (upgraded c))"
    "ConfigUserDataDir (Some c) = ConfigUserDataDir (Some (upgraded c))"
    "ConfigSwitches (Some c) = ConfigSwitches (Some (upgraded c))"
    "ConfigStartEmpty (Some c) = ConfigStartEmpty (Some (upgraded c))"
    "ConfigIdleOnZeroTabs (Some c) = ConfigIdleOnZeroTabs (Some (upgraded c))"
    "ConfigRequestsGui None = ConfigRequestsGui (Some (c\<lparr>cfg_size := 4\<rparr>))"
    "ConfigUserDataDir None = ConfigUserDataDir (Some (c\<lparr>cfg_size := 4\<rparr>))"
    "ConfigSwitches None = ConfigSwitches (Some (c\<lparr>cfg_size := 4\<rparr>))"
    "ConfigStartEmpty None = ConfigStartEmpty (Some (c\<lparr>cfg_size := 4\<rparr>))"
    "ConfigIdleOnZeroTabs None = ConfigIdleOnZeroTabs (Some (c\<lparr>cfg_size := 4\<rparr>))"
    by (simp_all add: ConfigRequestsGui_def ConfigUserDataDir_def ConfigSwitches_def ConfigStartEmpty_def
        ConfigIdleOnZeroTabs_def ConfigFieldPresent_def upgraded_def config_ends)
  note same = this
  have "ApplyRunConfig C N L (Some c) = ApplyRunConfig C N L (Some (upgraded c))"
    "ApplyRunConfig C N L None = ApplyRunConfig C N L (Some (c\<lparr>cfg_size := 4\<rparr>))"
    unfolding ApplyRunConfig_def same(6-8) same(1) [symmetric] same(2) [symmetric] same(3) [symmetric] by simp_all
  note this [THEN browserd_run_cong]
  then show ?thesis
    unfolding ConfigGuiRuntimeOptions_def same(9,10) same(4) [symmetric] same(5) [symmetric] by blast
qed

end
