(* ===== verification/Tool_Handlers.thy ===== *)
theory Tool_Handlers
  imports Interactions Mcp_Tool
begin

section \<open>The MCP tools (\<open>mcp/tools\<close>)\<close>

text \<open>
  A tool reads its arguments, asks the controller for one operation and turns what it answers into
  the content of a tool result. As for the C interface, a handler is a task: it runs in the
  controller's sequence, so its operation is not posted. No tool but \<open>browser_close\<close> names a tab;
  the others work on the active one. A missing argument is answered before the controller is asked.
\<close>

type_synonym 'rt handler = "dict \<Rightarrow> ('rt controller, tool_result) task"

definition tool_text :: "string \<Rightarrow> ('s, tool_result) task" where
  "tool_text s = Answer (TextContent s, False)"

definition tool_error :: "string \<Rightarrow> ('s, tool_result) task" where
  "tool_error s = Answer (TextContent s, True)"

text \<open>What every completion does first: an error answers its message.\<close>

definition when_ok :: "'a BrowserResult \<Rightarrow> ('a \<Rightarrow> ('s, tool_result) task) \<Rightarrow> ('s, tool_result) task" where
  "when_ok result k =
     (if \<not> result_ok result then tool_error (st_message (res_status result)) else value_or_undefined result k)"

text \<open>The same function in the files of the navigation, interaction, tab and cookie tools.\<close>

definition CompleteStatusTool :: "string \<Rightarrow> BrowserStatus \<Rightarrow> ('s, tool_result) task" where
  "CompleteStatusTool success_message status =
     (if \<not> status_ok status then tool_error (st_message status) else tool_text success_message)"

subsection \<open>Navigation (\<open>navigation_tools.cc\<close>)\<close>

definition HandleNavigate :: "'rt runtime_class \<Rightarrow> base_lib \<Rightarrow> 'rt handler" where
  "HandleNavigate V L args =
     (case FindString args ''url'' of
        None \<Rightarrow> tool_error ''Missing required parameter: url''
      | Some url \<Rightarrow>
          then_task (CtlNavigate V True None (lib_gurl L url)) (CompleteStatusTool ''Navigated to page''))"

definition HandleNavigateBack :: "'rt runtime_class \<Rightarrow> 'rt handler" where
  "HandleNavigateBack V args = then_task (CtlNavigateBack V True None) (CompleteStatusTool ''Navigated back'')"

definition HandleNavigateForward :: "'rt runtime_class \<Rightarrow> 'rt handler" where
  "HandleNavigateForward V args =
     then_task (CtlNavigateForward V True None) (CompleteStatusTool ''Navigated forward'')"

definition HandleReload :: "'rt runtime_class \<Rightarrow> 'rt handler" where
  "HandleReload V args = then_task (CtlReload V True None) (CompleteStatusTool ''Page reloaded'')"

subsection \<open>Snapshots (\<open>snapshot_tools.cc\<close>)\<close>

definition CompleteSnapshot :: "string BrowserResult \<Rightarrow> ('s, tool_result) task" where
  "CompleteSnapshot result = when_ok result tool_text"

definition CompleteScreenshot :: "base_lib \<Rightarrow> 8 word list BrowserResult \<Rightarrow> ('s, tool_result) task" where
  "CompleteScreenshot L result =
     when_ok result (\<lambda>bytes. Answer (ImageContent (lib_base64_encode L bytes) ''image/png'', False))"

definition HandleSnapshot :: "'rt runtime_class \<Rightarrow> string \<Rightarrow> 'rt handler" where
  "HandleSnapshot V script args = then_task (CtlSnapshot V script True None) CompleteSnapshot"

definition HandleScreenshot :: "'rt runtime_class \<Rightarrow> base_lib \<Rightarrow> 'rt handler" where
  "HandleScreenshot V L args = then_task (CtlScreenshot V True None) (CompleteScreenshot L)"

subsection \<open>Interactions (\<open>interaction_tools.cc\<close>)\<close>

definition HandleClick :: "'rt runtime_class \<Rightarrow> base_lib \<Rightarrow> f64_ops \<Rightarrow> 'rt handler" where
  "HandleClick V L F args =
     (case FindString args ''ref'' of
        None \<Rightarrow> tool_error ''Missing required parameter: ref''
      | Some r \<Rightarrow> then_task (CtlClick V L F True None \<lparr>ref_ref = r\<rparr>) (CompleteStatusTool ''Clicked element''))"

definition HandleHover :: "'rt runtime_class \<Rightarrow> base_lib \<Rightarrow> f64_ops \<Rightarrow> 'rt handler" where
  "HandleHover V L F args =
     (case FindString args ''ref'' of
        None \<Rightarrow> tool_error ''Missing required parameter: ref''
      | Some r \<Rightarrow> then_task (CtlHover V L F True None \<lparr>ref_ref = r\<rparr>) (CompleteStatusTool ''Hovered over element''))"

definition HandleType :: "'rt runtime_class \<Rightarrow> base_lib \<Rightarrow> 'rt handler" where
  "HandleType V L args =
     (case (FindString args ''ref'', FindString args ''text'') of
        (Some r, Some t) \<Rightarrow>
          then_task (CtlType V L True None
              \<lparr>type_ref = r, type_text = t,
               type_clear = (case FindBool args ''clear'' of Some b \<Rightarrow> b | None \<Rightarrow> False)\<rparr>)
            (CompleteStatusTool ''Typed text'')
      | _ \<Rightarrow> tool_error ''Missing required parameters: ref, text'')"

definition HandlePressKey :: "'rt runtime_class \<Rightarrow> 'rt handler" where
  "HandlePressKey V args =
     (case FindString args ''key'' of
        None \<Rightarrow> tool_error ''Missing required parameter: key''
      | Some key \<Rightarrow>
          then_task (CtlPressKey V True None \<lparr>key_key = key\<rparr>) (CompleteStatusTool (''Pressed key: '' @ key)))"

fun string_values :: "json list \<Rightarrow> string list" where
  "string_values [] = []"
| "string_values (JString s # vs) = s # string_values vs"
| "string_values (_ # vs) = string_values vs"

definition HandleSelectOption :: "'rt runtime_class \<Rightarrow> base_lib \<Rightarrow> 'rt handler" where
  "HandleSelectOption V L args =
     (case (FindString args ''ref'', FindList args ''values'') of
        (Some r, Some vs) \<Rightarrow>
          then_task (CtlSelectOption V L True None \<lparr>select_ref = r, select_values = string_values vs\<rparr>)
            (CompleteStatusTool ''Options selected'')
      | _ \<Rightarrow> tool_error ''Missing required parameters: ref, values'')"

definition HandleDragAndDrop :: "'rt runtime_class \<Rightarrow> base_lib \<Rightarrow> f64_ops \<Rightarrow> 'rt handler" where
  "HandleDragAndDrop V L F args =
     (case (FindString args ''startRef'', FindString args ''endRef'') of
        (Some a, Some b) \<Rightarrow>
          then_task (CtlDrag V L F True None \<lparr>drag_start_ref = a, drag_end_ref = b\<rparr>)
            (CompleteStatusTool ''Drag and drop completed'')
      | _ \<Rightarrow> tool_error ''Missing required parameters: startRef, endRef'')"

definition int_or :: "c_int \<Rightarrow> dict \<Rightarrow> string \<Rightarrow> c_int" where
  "int_or d args name = (case FindInt args name of Some i \<Rightarrow> i | None \<Rightarrow> d)"

definition HandleScroll :: "'rt runtime_class \<Rightarrow> 'rt handler" where
  "HandleScroll V args =
     then_task (CtlScroll V True None
         \<lparr>scroll_delta_x = int_or 0 args ''deltaX'', scroll_delta_y = int_or 0 args ''deltaY''\<rparr>)
       (CompleteStatusTool ''Scrolled page'')"

subsection \<open>Scripts and the console (\<open>evaluate_tools.cc\<close>)\<close>

definition CompleteEvaluateTool :: "EvaluateResult BrowserResult \<Rightarrow> ('s, tool_result) task" where
  "CompleteEvaluateTool result =
     when_ok result (\<lambda>v. if ev_kind v = EvalUndefined then tool_text ''undefined'' else tool_text (ev_json v))"

definition CompleteConsoleMessages :: "string BrowserResult \<Rightarrow> ('s, tool_result) task" where
  "CompleteConsoleMessages result = when_ok result tool_text"

definition HandleEvaluate :: "'rt runtime_class \<Rightarrow> base_lib \<Rightarrow> 'rt handler" where
  "HandleEvaluate V L args =
     (case FindString args ''expression'' of
        None \<Rightarrow> tool_error ''Missing required parameter: expression''
      | Some js \<Rightarrow> then_task (CtlEvaluate V L True None js) CompleteEvaluateTool)"

definition HandleConsoleMessages :: "'rt runtime_class \<Rightarrow> 'rt handler" where
  "HandleConsoleMessages V args = then_task (CtlConsoleMessages V True None) CompleteConsoleMessages"

subsection \<open>Waiting (\<open>wait_tools.cc\<close>)\<close>

definition CompleteWait :: "string \<Rightarrow> BrowserStatus \<Rightarrow> ('s, tool_result) task" where
  "CompleteWait wait_desc status =
     (if \<not> status_ok status then tool_error (st_message status)
      else tool_text (''Wait satisfied for '' @ wait_desc))"

definition HandleWaitFor :: "'rt runtime_class \<Rightarrow> base_lib \<Rightarrow> 'rt handler" where
  "HandleWaitFor V L args =
     (let options = \<lparr>wait_selector = FindString args ''selector'', wait_text = FindString args ''text'',
                     wait_timeout_ms = int_or 30000 args ''timeout''\<rparr>;
          wait = (\<lambda>wait_desc. then_task (CtlWaitFor V L True None options) (CompleteWait wait_desc))
      in case (wait_selector options, wait_text options) of
           (Some s, _) \<Rightarrow> wait (''selector: '' @ s)
         | (None, Some t) \<Rightarrow> wait (''text: '' @ t)
         | (None, None) \<Rightarrow> tool_error ''Must provide either selector or text to wait for'')"

subsection \<open>Tabs (\<open>tab_tools.cc\<close>)\<close>

fun tab_lines :: "base_lib \<Rightarrow> int \<Rightarrow> BrowserTabInfo list \<Rightarrow> string" where
  "tab_lines L index [] = []"
| "tab_lines L index (tab # tabs) =
     ''['' @ lib_number_to_string L index @ ''] '' @ tab_title tab @ '' ('' @ tab_url tab @ '')'' @
     '' [id='' @ tab_target_id tab @ '']'' @ [newline] @ tab_lines L (index + 1) tabs"

definition CompleteTabsTool :: "base_lib \<Rightarrow> BrowserTabInfo list BrowserResult \<Rightarrow> ('s, tool_result) task" where
  "CompleteTabsTool L result =
     when_ok result (\<lambda>tabs.
       let output = tab_lines L 0 tabs in tool_text (if output = [] then ''No tabs open'' else output))"

definition CompleteCreateTab :: "BrowserTabInfo BrowserResult \<Rightarrow> ('s, tool_result) task" where
  "CompleteCreateTab result = when_ok result (\<lambda>tab. tool_text (''Created new tab: '' @ tab_target_id tab))"

definition HandleTabs :: "'rt runtime_class \<Rightarrow> base_lib \<Rightarrow> 'rt handler" where
  "HandleTabs V L args = then_task (CtlListTabs V True) (CompleteTabsTool L)"

definition HandleNewTab :: "'rt runtime_class \<Rightarrow> base_lib \<Rightarrow> 'rt handler" where
  "HandleNewTab V L args =
     (let target_url = (case FindString args ''url'' of Some url \<Rightarrow> url | None \<Rightarrow> ''about:blank'')
      in then_task (CtlCreateTab V True (lib_gurl L target_url)) CompleteCreateTab)"

definition HandleClose :: "'rt runtime_class \<Rightarrow> 'rt handler" where
  "HandleClose V args =
     (let target = FindString args ''targetId''
      in then_task (CtlCloseTab V True target)
           (CompleteStatusTool (if target \<noteq> None then ''Tab closed'' else ''Current tab closed'')))"

text \<open>\<open>gfx::Size\<close> takes a negative length as zero.\<close>

definition HandleResize :: "'rt runtime_class \<Rightarrow> base_lib \<Rightarrow> 'rt handler" where
  "HandleResize V L args =
     (let width = int_or 1280 args ''width''; height = int_or 720 args ''height''
      in then_task (CtlResizeActive V True (max 0 (sint width), max 0 (sint height)))
           (CompleteStatusTool
             (''Resized to '' @ lib_number_to_string L (sint width) @ ''x'' @ lib_number_to_string L (sint height))))"

subsection \<open>Cookies (\<open>cookie_tools.cc\<close>)\<close>

fun cookie_lines :: "CookieInfo list \<Rightarrow> string" where
  "cookie_lines [] = []"
| "cookie_lines (c # cs) =
     ci_name c @ ''='' @ ci_value c @ '' (domain='' @ ci_domain c @ '', path='' @ ci_path c @ '')'' @ [newline] @
     cookie_lines cs"

definition FormatCookieList :: "CookieInfo list BrowserResult \<Rightarrow> ('s, tool_result) task" where
  "FormatCookieList result =
     when_ok result (\<lambda>cookies.
       if cookies = [] then tool_text ''No cookies found'' else tool_text (cookie_lines cookies))"

definition bool_text :: "bool \<Rightarrow> string" where
  "bool_text b = (if b then ''true'' else ''false'')"

definition FormatCookieGet :: "CookieInfo BrowserResult \<Rightarrow> ('s, tool_result) task" where
  "FormatCookieGet result =
     (if \<not> result_ok result then
        Answer (TextContent (st_message (res_status result)), st_code (res_status result) \<noteq> kNotFound)
      else value_or_undefined result (\<lambda>c.
        tool_text (ci_name c @ ''='' @ ci_value c @ [newline] @ ''domain: '' @ ci_domain c @ [newline] @
          ''path: '' @ ci_path c @ [newline] @ ''secure: '' @ bool_text (ci_secure c) @ [newline] @
          ''httpOnly: '' @ bool_text (ci_http_only c))))"

definition CompleteDelete :: "string \<Rightarrow> BrowserStatus \<Rightarrow> ('s, tool_result) task" where
  "CompleteDelete cookie_name status =
     (if \<not> status_ok status \<and> st_code status \<noteq> kNotFound then tool_error (st_message status)
      else tool_text (''Cookie '' @ [CHR 0x27] @ cookie_name @ [CHR 0x27] @ '' deleted''))"

definition HandleCookieList :: "'rt runtime_class \<Rightarrow> base_lib \<Rightarrow> 'rt handler" where
  "HandleCookieList V L args =
     (case FindString args ''url'' of
        Some url \<Rightarrow>
          if \<not> gurl_is_valid (lib_gurl L url) then tool_error ''Invalid URL''
          else then_task (CtlListCookies V L True None \<lparr>cl_url = Some url\<rparr>) FormatCookieList
      | None \<Rightarrow> then_task (CtlListCookies V L True None \<lparr>cl_url = None\<rparr>) FormatCookieList)"

definition HandleCookieGet :: "'rt runtime_class \<Rightarrow> base_lib \<Rightarrow> 'rt handler" where
  "HandleCookieGet V L args =
     (case FindString args ''name'' of
        None \<Rightarrow> tool_error ''Missing required parameter: name''
      | Some name \<Rightarrow> then_task (CtlGetCookie V L True None \<lparr>cg_name = name\<rparr>) FormatCookieGet)"

definition HandleCookieSet :: "'rt runtime_class \<Rightarrow> base_lib \<Rightarrow> 'rt handler" where
  "HandleCookieSet V L args =
     (case (FindString args ''name'', FindString args ''value'') of
        (Some name, Some v) \<Rightarrow>
          then_task (CtlSetCookie V L True None
              \<lparr>cs_name = name, cs_value = v, cs_domain = FindString args ''domain'',
               cs_path = FindString args ''path'', cs_url = FindString args ''url'',
               cs_secure = (case FindBool args ''secure'' of Some b \<Rightarrow> b | None \<Rightarrow> False),
               cs_http_only = (case FindBool args ''httpOnly'' of Some b \<Rightarrow> b | None \<Rightarrow> False)\<rparr>)
            (CompleteStatusTool (''Cookie '' @ [CHR 0x27] @ name @ [CHR 0x27] @ '' set''))
      | _ \<Rightarrow> tool_error ''Missing required parameters: name, value'')"

definition HandleCookieDelete :: "'rt runtime_class \<Rightarrow> base_lib \<Rightarrow> 'rt handler" where
  "HandleCookieDelete V L args =
     (case FindString args ''name'' of
        None \<Rightarrow> tool_error ''Missing required parameter: name''
      | Some name \<Rightarrow>
          then_task (CtlDeleteCookie V L True None
              \<lparr>cd_name = name, cd_url = FindString args ''url'', cd_domain = FindString args ''domain''\<rparr>)
            (CompleteDelete name))"

definition HandleCookieClear :: "'rt runtime_class \<Rightarrow> 'rt handler" where
  "HandleCookieClear V args = then_task (CtlClearCookies V True None) (CompleteStatusTool ''All cookies cleared'')"

section \<open>What the tools answer\<close>

text \<open>
  A tool result is one item of content: a text, or for an ok screenshot an image.
\<close>

definition text_result :: "tool_result \<Rightarrow> bool" where
  "text_result r \<longleftrightarrow> (\<exists>s. fst r = TextContent s)"

definition image_result :: "tool_result \<Rightarrow> bool" where
  "image_result r \<longleftrightarrow> (\<exists>d. fst r = ImageContent d ''image/png'') \<and> \<not> snd r"

lemma text_results [simp]:
  "wp (tool_text s) pages M (\<lambda>r _. text_result r) c" "wp (tool_error s) pages M (\<lambda>r _. text_result r) c"
  "wp (tool_error s) pages M (\<lambda>r _. text_result r \<or> image_result r) c"
  "wp (CompleteStatusTool s st) pages M (\<lambda>r _. text_result r) c"
  "wp (CompleteWait s st) pages M (\<lambda>r _. text_result r) c"
  "wp (CompleteDelete s st) pages M (\<lambda>r _. text_result r) c"
  by (auto simp: tool_text_def tool_error_def text_result_def CompleteStatusTool_def CompleteWait_def CompleteDelete_def)

lemma text_answer: "wp (Answer (TextContent s, b)) pages M (\<lambda>r _. text_result r) c"
  by (auto simp: text_result_def)

lemma when_ok_wp:
  assumes "result_wf r" "wp (tool_error (st_message (res_status r))) pages M Q s" "\<And>v. wp (k v) pages M Q s"
  shows "wp (when_ok r k) pages M Q s"
  using assms result_wf_value [of r] by (auto simp: when_ok_def value_or_undefined_def)

lemma completions_text:
  "result_wf rs \<Longrightarrow> wp (CompleteSnapshot rs) pages M (\<lambda>r _. text_result r) s"
  "result_wf re \<Longrightarrow> wp (CompleteEvaluateTool re) pages M (\<lambda>r _. text_result r) s"
  "result_wf rs \<Longrightarrow> wp (CompleteConsoleMessages rs) pages M (\<lambda>r _. text_result r) s"
  "result_wf rts \<Longrightarrow> wp (CompleteTabsTool L rts) pages M (\<lambda>r _. text_result r) s"
  "result_wf rt \<Longrightarrow> wp (CompleteCreateTab rt) pages M (\<lambda>r _. text_result r) s"
  "result_wf rcs \<Longrightarrow> wp (FormatCookieList rcs) pages M (\<lambda>r _. text_result r) s"
  unfolding CompleteSnapshot_def CompleteEvaluateTool_def CompleteConsoleMessages_def CompleteTabsTool_def
    CompleteCreateTab_def FormatCookieList_def Let_def
  by (rule when_ok_wp; simp)+

lemma FormatCookieGet_text: "result_wf r \<Longrightarrow> wp (FormatCookieGet r) pages M (\<lambda>r _. text_result r) s"
  using result_wf_value [of r] by (auto simp: FormatCookieGet_def value_or_undefined_def text_answer simp del: wp.simps(1))

lemma CompleteScreenshot_wp:
  "result_wf r \<Longrightarrow> wp (CompleteScreenshot L r) pages M (\<lambda>r _. text_result r \<or> image_result r) s"
  unfolding CompleteScreenshot_def by (rule when_ok_wp) (simp_all, auto simp: image_result_def)

lemma wp_complete_status:
  assumes "wp t pages M (\<lambda>_ s. Q s) s" "\<And>st s. wp (complete st) pages M (\<lambda>r _. R r) s"
  shows "wp (then_task t complete) pages M (\<lambda>r _. R r) s"
  unfolding wp_then_task by (rule wp_mono [OF assms(1)]) (simp add: assms(2))

lemma wp_complete_result:
  assumes "wp t pages M (\<lambda>r s. result_wf r \<and> Q s) s"
    and "\<And>r s. result_wf r \<Longrightarrow> wp (complete r) pages M (\<lambda>r _. R r) s"
  shows "wp (then_task t complete) pages M (\<lambda>r _. R r) s"
  unfolding wp_then_task using assms(1) by (rule wp_mono) (simp add: assms(2))

end
