(* ===== verification/Tools.thy ===== *)
theory Tools
  imports Tool_Handlers Mcp_Server
begin

section \<open>The registered tools\<close>

text \<open>
  The lists of tools that the \<open>Register\<close> functions add to the server: name, description, schema and
  handler. How the browser runs a handler is an argument, \<open>start\<close>: it starts a task on what the
  server holds of the controller and says whether the task answered before it returned.
\<close>

record 'rt tool =
  tl_name :: string
  tl_description :: string
  tl_schema :: dict
  tl_handler :: "'rt handler"

definition element_ref :: dict where
  "element_ref = SchemaString ''Element ref from accessibility snapshot''"

text \<open>The schema that \<open>browser_select_option\<close> writes out for its list of values.\<close>

definition SchemaValues :: dict where
  "SchemaValues =
     Set ''items'' (JDict (Set ''type'' (JString ''string'') []))
       (Set ''description'' (JString ''Option values to select'') (Set ''type'' (JString ''array'') []))"

definition RegisterNavigationTools :: "'rt runtime_class \<Rightarrow> base_lib \<Rightarrow> 'rt tool list" where
  "RegisterNavigationTools V L =
     [\<lparr>tl_name = ''browser_navigate'', tl_description = ''Navigate to a URL'',
       tl_schema = SchemaObject (Set ''url'' (JDict (SchemaString ''URL to navigate to'')) []) [''url''],
       tl_handler = HandleNavigate V L\<rparr>,
      \<lparr>tl_name = ''browser_navigate_back'', tl_description = ''Go back in browser history'',
       tl_schema = SchemaObject [] [], tl_handler = HandleNavigateBack V\<rparr>,
      \<lparr>tl_name = ''browser_navigate_forward'', tl_description = ''Go forward in browser history'',
       tl_schema = SchemaObject [] [], tl_handler = HandleNavigateForward V\<rparr>,
      \<lparr>tl_name = ''browser_reload'', tl_description = ''Reload the current page'',
       tl_schema = SchemaObject [] [], tl_handler = HandleReload V\<rparr>]"

definition RegisterSnapshotTools :: "'rt runtime_class \<Rightarrow> base_lib \<Rightarrow> string \<Rightarrow> 'rt tool list" where
  "RegisterSnapshotTools V L script =
     [\<lparr>tl_name = ''browser_snapshot'', tl_description = ''Capture an accessibility snapshot of the current page'',
       tl_schema = SchemaObject [] [], tl_handler = HandleSnapshot V script\<rparr>,
      \<lparr>tl_name = ''browser_take_screenshot'', tl_description = ''Take a screenshot of the current page'',
       tl_schema = SchemaObject [] [], tl_handler = HandleScreenshot V L\<rparr>]"

definition RegisterInteractionTools :: "'rt runtime_class \<Rightarrow> base_lib \<Rightarrow> f64_ops \<Rightarrow> 'rt tool list" where
  "RegisterInteractionTools V L F =
     [\<lparr>tl_name = ''browser_click'',
       tl_description = ''Click an element on the page using its accessibility ref'',
       tl_schema = SchemaObject (Set ''ref'' (JDict element_ref) []) [''ref''],
       tl_handler = HandleClick V L F\<rparr>,
      \<lparr>tl_name = ''browser_hover'', tl_description = ''Hover over an element on the page'',
       tl_schema = SchemaObject (Set ''ref'' (JDict element_ref) []) [''ref''],
       tl_handler = HandleHover V L F\<rparr>,
      \<lparr>tl_name = ''browser_type'', tl_description = ''Type text into a focused element'',
       tl_schema = SchemaObject
         (Set ''clear'' (JDict (SchemaBool ''Clear existing text before typing''))
         (Set ''text'' (JDict (SchemaString ''Text to type''))
         (Set ''ref'' (JDict element_ref) []))) [''ref'', ''text''],
       tl_handler = HandleType V L\<rparr>,
      \<lparr>tl_name = ''browser_press_key'', tl_description = ''Press a keyboard key or key combination'',
       tl_schema = SchemaObject
         (Set ''key'' (JDict (SchemaString ''Key to press (e.g. Enter, Tab, ArrowDown)'')) []) [''key''],
       tl_handler = HandlePressKey V\<rparr>,
      \<lparr>tl_name = ''browser_select_option'', tl_description = ''Select option(s) in a select element'',
       tl_schema = SchemaObject
         (Set ''values'' (JDict SchemaValues) (Set ''ref'' (JDict element_ref) [])) [''ref'', ''values''],
       tl_handler = HandleSelectOption V L\<rparr>,
      \<lparr>tl_name = ''browser_drag'', tl_description = ''Drag and drop from one element to another'',
       tl_schema = SchemaObject
         (Set ''endRef'' (JDict (SchemaString ''Target element ref''))
         (Set ''startRef'' (JDict (SchemaString ''Source element ref'')) [])) [''startRef'', ''endRef''],
       tl_handler = HandleDragAndDrop V L F\<rparr>,
      \<lparr>tl_name = ''browser_scroll'', tl_description = ''Scroll the page'',
       tl_schema = SchemaObject
         (Set ''deltaY'' (JDict (SchemaInt ''Vertical scroll amount in pixels''))
         (Set ''deltaX'' (JDict (SchemaInt ''Horizontal scroll amount in pixels'')) [])) [],
       tl_handler = HandleScroll V\<rparr>]"

definition RegisterEvaluateTools :: "'rt runtime_class \<Rightarrow> base_lib \<Rightarrow> 'rt tool list" where
  "RegisterEvaluateTools V L =
     [\<lparr>tl_name = ''browser_evaluate'', tl_description = ''Execute JavaScript in the browser console'',
       tl_schema = SchemaObject
         (Set ''expression'' (JDict (SchemaString ''JavaScript expression to evaluate'')) []) [''expression''],
       tl_handler = HandleEvaluate V L\<rparr>,
      \<lparr>tl_name = ''browser_console_messages'', tl_description = ''Get console messages from the page'',
       tl_schema = SchemaObject [] [], tl_handler = HandleConsoleMessages V\<rparr>]"

definition RegisterWaitTools :: "'rt runtime_class \<Rightarrow> base_lib \<Rightarrow> 'rt tool list" where
  "RegisterWaitTools V L =
     [\<lparr>tl_name = ''browser_wait_for'',
       tl_description = ''Wait for a selector to appear or text to be present on the page'',
       tl_schema = SchemaObject
         (Set ''timeout'' (JDict (SchemaInt ''Timeout in milliseconds (default 30000)''))
         (Set ''text'' (JDict (SchemaString ''Text to wait for on the page''))
         (Set ''selector'' (JDict (SchemaString ''CSS selector to wait for'')) []))) [],
       tl_handler = HandleWaitFor V L\<rparr>]"

definition RegisterTabTools :: "'rt runtime_class \<Rightarrow> base_lib \<Rightarrow> 'rt tool list" where
  "RegisterTabTools V L =
     [\<lparr>tl_name = ''browser_tab_list'', tl_description = ''List all open browser tabs'',
       tl_schema = SchemaObject [] [], tl_handler = HandleTabs V L\<rparr>,
      \<lparr>tl_name = ''browser_tab_new'', tl_description = ''Open a new browser tab'',
       tl_schema = SchemaObject (Set ''url'' (JDict (SchemaString ''URL to open in the new tab'')) []) [],
       tl_handler = HandleNewTab V L\<rparr>,
      \<lparr>tl_name = ''browser_close'', tl_description = ''Close a browser tab'',
       tl_schema = SchemaObject
         (Set ''targetId''
           (JDict (SchemaString ''Target ID of the tab to close (closes current if omitted)'')) []) [],
       tl_handler = HandleClose V\<rparr>,
      \<lparr>tl_name = ''browser_resize'', tl_description = ''Resize the browser viewport'',
       tl_schema = SchemaObject
         (Set ''height'' (JDict (SchemaInt ''Viewport height in pixels''))
         (Set ''width'' (JDict (SchemaInt ''Viewport width in pixels'')) [])) [],
       tl_handler = HandleResize V L\<rparr>]"

definition RegisterCookieTools :: "'rt runtime_class \<Rightarrow> base_lib \<Rightarrow> 'rt tool list" where
  "RegisterCookieTools V L =
     [\<lparr>tl_name = ''browser_cookie_list'', tl_description = ''List cookies, optionally filtered by URL'',
       tl_schema = SchemaObject (Set ''url'' (JDict (SchemaString ''URL to filter cookies by'')) []) [],
       tl_handler = HandleCookieList V L\<rparr>,
      \<lparr>tl_name = ''browser_cookie_get'', tl_description = ''Get a specific cookie by name'',
       tl_schema = SchemaObject (Set ''name'' (JDict (SchemaString ''Cookie name'')) []) [''name''],
       tl_handler = HandleCookieGet V L\<rparr>,
      \<lparr>tl_name = ''browser_cookie_set'', tl_description = ''Set a cookie'',
       tl_schema = SchemaObject
         (Set ''httpOnly'' (JDict (SchemaBool ''HttpOnly flag''))
         (Set ''secure'' (JDict (SchemaBool ''Secure flag''))
         (Set ''url'' (JDict (SchemaString ''URL to associate cookie with''))
         (Set ''path'' (JDict (SchemaString ''Cookie path''))
         (Set ''domain'' (JDict (SchemaString ''Cookie domain''))
         (Set ''value'' (JDict (SchemaString ''Cookie value''))
         (Set ''name'' (JDict (SchemaString ''Cookie name'')) []))))))) [''name'', ''value''],
       tl_handler = HandleCookieSet V L\<rparr>,
      \<lparr>tl_name = ''browser_cookie_delete'', tl_description = ''Delete a cookie by name'',
       tl_schema = SchemaObject
         (Set ''domain'' (JDict (SchemaString ''Cookie domain''))
         (Set ''url'' (JDict (SchemaString ''URL the cookie belongs to''))
         (Set ''name'' (JDict (SchemaString ''Cookie name to delete'')) []))) [''name''],
       tl_handler = HandleCookieDelete V L\<rparr>,
      \<lparr>tl_name = ''browser_cookie_clear'', tl_description = ''Clear all cookies'',
       tl_schema = SchemaObject [] [], tl_handler = HandleCookieClear V\<rparr>]"

text \<open>\<open>App::RegisterTools\<close>.\<close>

definition all_tools :: "'rt runtime_class \<Rightarrow> base_lib \<Rightarrow> f64_ops \<Rightarrow> string \<Rightarrow> 'rt tool list" where
  "all_tools V L F script =
     RegisterNavigationTools V L @ RegisterSnapshotTools V L script @ RegisterInteractionTools V L F @
     RegisterEvaluateTools V L @ RegisterWaitTools V L @ RegisterTabTools V L @ RegisterCookieTools V L"

type_synonym ('rt, 'c) starter = "'c \<Rightarrow> ('rt controller, tool_result) task \<Rightarrow> 'c \<times> tool_result option"

definition tool_def :: "('rt, 'c) starter \<Rightarrow> 'rt tool \<Rightarrow> 'c MCPToolDef" where
  "tool_def start t =
     \<lparr>tool_name = tl_name t, tool_description = tl_description t, tool_input_schema = tl_schema t,
      tool_handler = (\<lambda>c args. start c (tl_handler t args))\<rparr>"

definition RegisterTools ::
  "('rt, 'c) starter \<Rightarrow> 'rt runtime_class \<Rightarrow> base_lib \<Rightarrow> f64_ops \<Rightarrow> string \<Rightarrow> 'c MCPServer \<Rightarrow> 'c MCPServer" where
  "RegisterTools start V L F script s = fold (\<lambda>t. RegisterTool (tool_def start t)) (all_tools V L F script) s"

lemmas register_defs = RegisterNavigationTools_def RegisterSnapshotTools_def RegisterInteractionTools_def
  RegisterEvaluateTools_def RegisterWaitTools_def RegisterTabTools_def RegisterCookieTools_def

lemmas schema_defs = element_ref_def SchemaValues_def SchemaString_def SchemaInt_def SchemaBool_def SchemaObject_def

lemma RegisterTools_appends:
  "RegisterTools start V L F script s = s\<lparr>srv_tools := srv_tools s @ map (tool_def start) (all_tools V L F script)\<rparr>"
proof -
  have "fold (\<lambda>t. RegisterTool (tool_def start t)) ts s = s\<lparr>srv_tools := srv_tools s @ map (tool_def start) ts\<rparr>" for ts
    by (induction ts arbitrary: s) (simp_all add: RegisterTool_def)
  then show ?thesis by (simp add: RegisterTools_def)
qed

text \<open>Names and schemas do not depend on what the tools do.\<close>

definition required_names :: "dict \<Rightarrow> string list" where
  "required_names schema =
     (case FindList schema ''required'' of Some req \<Rightarrow> string_values req | None \<Rightarrow> [])"

lemma tool_names_distinct: "distinct (map tl_name (all_tools V L F script))"
  unfolding all_tools_def register_defs by simp

lemma SchemaValues_ok [simp]: "property_schema_ok (JDict SchemaValues)"
  by (simp add: property_schema_ok_def SchemaValues_def)

lemma tool_schemas_ok: "list_all (\<lambda>t. schema_ok (tl_schema t)) (all_tools V L F script)"
  unfolding all_tools_def register_defs
  by (simp add: schema_ok_SchemaObject Set_def element_ref_def)

lemma find_tool:
  assumes "distinct (map tl_name ts)" "t \<in> set ts"
  shows "find (\<lambda>d. tool_name d = tl_name t) (map (tool_def start) ts) = Some (tool_def start t)"
  using assms by (induction ts) (auto simp: tool_def_def)

subsection \<open>Required arguments\<close>

text \<open>
  An argument is given when it is there with the type its schema declares. The message for missing
  ones names all that the tool requires.
\<close>

definition declared_type :: "dict \<Rightarrow> string \<Rightarrow> string option" where
  "declared_type schema n =
     (case FindDict schema ''properties'' of
        None \<Rightarrow> None
      | Some props \<Rightarrow> (case FindDict props n of None \<Rightarrow> None | Some p \<Rightarrow> FindString p ''type''))"

definition given :: "dict \<Rightarrow> dict \<Rightarrow> string \<Rightarrow> bool" where
  "given schema args n =
     (if declared_type schema n = Some ''string'' then FindString args n \<noteq> None
      else if declared_type schema n = Some ''array'' then FindList args n \<noteq> None
      else False)"

definition arguments_given :: "dict \<Rightarrow> dict \<Rightarrow> bool" where
  "arguments_given schema args = list_all (given schema args) (required_names schema)"

fun comma_list :: "string list \<Rightarrow> string" where
  "comma_list [] = []"
| "comma_list [n] = n"
| "comma_list (n # ns) = n @ '', '' @ comma_list ns"

definition missing_message :: "dict \<Rightarrow> string" where
  "missing_message schema =
     (let names = required_names schema
      in ''Missing required parameter'' @ (if length names = 1 then '': '' else ''s: '') @ comma_list names)"

text \<open>An operation that runs in the controller's sequence first looks at the controller.\<close>

lemma operation_asks:
  "then_task (CtlNavigate V True t url) f \<noteq> Answer r" "then_task (CtlNavigateBack V True t) f \<noteq> Answer r"
  "then_task (CtlNavigateForward V True t) f \<noteq> Answer r" "then_task (CtlReload V True t) f \<noteq> Answer r"
  "then_task (CtlSnapshot V script True t) g \<noteq> Answer r" "then_task (CtlScreenshot V True t) gb \<noteq> Answer r"
  "then_task (CtlClick V L F True t re) f \<noteq> Answer r" "then_task (CtlHover V L F True t re) f \<noteq> Answer r"
  "then_task (CtlType V L True t ty) f \<noteq> Answer r" "then_task (CtlPressKey V True t ke) f \<noteq> Answer r"
  "then_task (CtlSelectOption V L True t se) f \<noteq> Answer r" "then_task (CtlDrag V L F True t dr) f \<noteq> Answer r"
  "then_task (CtlScroll V True t z) f \<noteq> Answer r" "then_task (CtlEvaluate V L True t js) ge \<noteq> Answer r"
  "then_task (CtlConsoleMessages V True t) g \<noteq> Answer r" "then_task (CtlWaitFor V L True t w) f \<noteq> Answer r"
  "then_task (CtlListTabs V True) gl \<noteq> Answer r" "then_task (CtlCreateTab V True url) gt \<noteq> Answer r"
  "then_task (CtlCloseTab V True t) f \<noteq> Answer r" "then_task (CtlResizeActive V True sz) f \<noteq> Answer r"
  "then_task (CtlListCookies V L True t cl) gc \<noteq> Answer r" "then_task (CtlGetCookie V L True t cg) gg \<noteq> Answer r"
  "then_task (CtlSetCookie V L True t cs) f \<noteq> Answer r" "then_task (CtlDeleteCookie V L True t cd) f \<noteq> Answer r"
  "then_task (CtlClearCookies V True t) f \<noteq> Answer r"
  by (simp_all add: CtlNavigate_def CtlNavigateBack_def CtlNavigateForward_def CtlReload_def CtlSnapshot_def
      CtlScreenshot_def CtlClick_def CtlHover_def CtlType_def CtlPressKey_def CtlSelectOption_def CtlDrag_def
      CtlScroll_def CtlEvaluate_def CtlConsoleMessages_def CtlWaitFor_def CtlListTabs_def CtlCreateTab_def
      CtlCloseTab_def CtlResizeActive_def CtlListCookies_def CtlGetCookie_def CtlSetCookie_def
      CtlDeleteCookie_def CtlClearCookies_def RunOrPost_def status_page_def result_page_def
      interaction_page_def)

lemmas required_defs = schema_defs arguments_given_def required_names_def FindList_def given_def declared_type_def
  FindDict_def FindString_described missing_message_def

text \<open>The schema of each tool and what its handler insists on.\<close>

lemma tools_require:
  assumes "t \<in> set (all_tools V L F script)"
  shows "if arguments_given (tl_schema t) args then \<forall>r. tl_handler t args = Answer r \<longrightarrow> snd r \<and> required_names (tl_schema t) = []
    else tl_handler t args = tool_error (missing_message (tl_schema t))"
proof -
  note handlers = HandleNavigate_def HandleNavigateBack_def HandleNavigateForward_def HandleReload_def
    HandleSnapshot_def HandleScreenshot_def HandleClick_def HandleHover_def HandleType_def HandlePressKey_def
    HandleSelectOption_def HandleDragAndDrop_def HandleScroll_def HandleEvaluate_def HandleConsoleMessages_def
    HandleWaitFor_def HandleTabs_def HandleNewTab_def HandleClose_def HandleResize_def HandleCookieList_def
    HandleCookieGet_def HandleCookieSet_def HandleCookieDelete_def HandleCookieClear_def
  let ?P = "\<lambda>t. if arguments_given (tl_schema t) args then \<forall>r. tl_handler t args = Answer r \<longrightarrow> snd r \<and> required_names (tl_schema t) = []
    else tl_handler t args = tool_error (missing_message (tl_schema t))"
  have "list_all ?P (RegisterNavigationTools V L)" "list_all ?P (RegisterSnapshotTools V L script)"
    "list_all ?P (RegisterInteractionTools V L F)" "list_all ?P (RegisterEvaluateTools V L)"
    "list_all ?P (RegisterWaitTools V L)" "list_all ?P (RegisterTabTools V L)" "list_all ?P (RegisterCookieTools V L)"
    unfolding register_defs list.pred_inject tool.simps
    by (simp_all add: required_defs handlers operation_asks tool_error_def Let_def split: option.split json.split)
  with assms show ?thesis by (auto simp: all_tools_def list_all_iff)
qed

section \<open>Properties\<close>

text \<open>Starting a task that only answers answers at once and leaves the controller alone.\<close>

definition start_law :: "('rt, 'c) starter \<Rightarrow> bool" where
  "start_law start \<longleftrightarrow> (\<forall>c r. start c (Answer r) = (c, Some r))"

text \<open>
  A fresh server has all 25 tools after \<open>RegisterTools\<close>, under different names, so a call by name
  finds the tool that was meant, and each with a well-formed object schema whose required
  parameters it declares with a known type.
\<close>

lemma registered_tools_ok:
  "distinct (map tool_name (srv_tools (RegisterTools start V L F script new_server))) \<and>
   length (srv_tools (RegisterTools start V L F script new_server)) = 25 \<and>
   list_all (\<lambda>d. schema_ok (tool_input_schema d)) (srv_tools (RegisterTools start V L F script new_server))"
proof -
  have tools: "srv_tools (RegisterTools start V L F script new_server) = map (tool_def start) (all_tools V L F script)"
    by (simp add: RegisterTools_appends new_server_def)
  have "length (all_tools V L F script) = 25"
    by (simp add: all_tools_def register_defs)
  moreover have "map tool_name (map (tool_def start) (all_tools V L F script)) = map tl_name (all_tools V L F script)"
    by (simp add: tool_def_def)
  moreover have "list_all (\<lambda>t. schema_ok (tool_input_schema (tool_def start t))) (all_tools V L F script)"
    using tool_schemas_ok by (simp add: tool_def_def)
  ultimately show ?thesis
    unfolding tools by (simp add: list.pred_map comp_def tool_names_distinct del: map_map)
qed

text \<open>
  C24: a call without an argument that the schema of its tool requires, or with one of another type,
  is answered at once with an error that names the required parameters, whichever tool it is: the
  controller is not asked, and the server is as idle as before.
\<close>

theorem missing_arguments_rejected:
  assumes "start_law start" "t \<in> set (all_tools V L F script)" "\<not> arguments_given (tl_schema t) args"
    and "srv_controller s = Some c" "srv_tools s = []" "srv_initialized s" "\<not> srv_in_progress s" "srv_queue s = []"
    and "FindString message ''method'' = Some ''tools/call''" "Find message ''id'' = Some i"
    and "FindDict message ''params'' = Some params" "FindString params ''name'' = Some (tl_name t)"
    and "FindDict params ''arguments'' = Some args"
  shows "OnMessage message cb (RegisterTools start V L F script s) =
    (RegisterTools start V L F script s)\<lparr>srv_sent := srv_sent s @
      [(cb, Some (result_response i (tool_call_result (TextContent (missing_message (tl_schema t)), True))))]\<rparr>"
proof -
  have run: "start c (tl_handler t args) = (c, Some (TextContent (missing_message (tl_schema t)), True))"
    using tools_require [OF assms(2), of args] assms(1,3) by (simp add: start_law_def tool_error_def)
  have "find (\<lambda>d. tool_name d = tl_name t) (map (tool_def start) (all_tools V L F script)) = Some (tool_def start t)"
    by (rule find_tool [OF tool_names_distinct assms(2)])
  with run assms(4-) show ?thesis
    by (simp add: OnMessage_def RegisterTools_appends HandleToolsCall_def ExecuteNextToolCall.simps OnToolCallComplete.simps
        tool_def_def send_defs)
qed

definition demo_start :: "('rt, unit) starter" where
  "demo_start c t = (case t of Answer r \<Rightarrow> (c, Some r) | _ \<Rightarrow> (c, None))"

definition demo_tools_server :: "unit MCPServer" where
  "demo_tools_server = (SetController (Some ()) new_server)\<lparr>srv_initialized := True\<rparr>"

theorem missing_arguments_rejected_witness:
  "srv_sent (OnMessage (request ''tools/call'' 7 [(''name'', JString ''browser_click''), (''arguments'', JDict [])]) 3
      (RegisterTools demo_start demo_class ref_lib demo_f64 [] demo_tools_server)) =
    [(3, Some (result_response (JInt 7) (tool_call_result (TextContent ''Missing required parameter: ref'', True))))]"
proof -
  let ?t = "hd (RegisterInteractionTools demo_class ref_lib demo_f64)"
  have "start_law (demo_start :: (gui_runtime, unit) starter)" by (simp add: start_law_def demo_start_def)
  moreover have "?t \<in> set (all_tools demo_class ref_lib demo_f64 [])"
    by (simp add: all_tools_def RegisterInteractionTools_def)
  moreover have "\<not> arguments_given (tl_schema ?t) []" "missing_message (tl_schema ?t) = ''Missing required parameter: ref''"
    "tl_name ?t = ''browser_click''"
    by (simp_all add: RegisterInteractionTools_def required_defs)
  moreover have "FindString (request ''tools/call'' 7 p) ''method'' = Some ''tools/call''"
    "Find (request ''tools/call'' 7 p) ''id'' = Some (JInt 7)" "FindDict (request ''tools/call'' 7 p) ''params'' = Some p" for p
    by (simp_all add: request_def find_defs)
  ultimately show ?thesis
    using missing_arguments_rejected [of demo_start ?t demo_class ref_lib demo_f64 "[]" "[]" demo_tools_server "()"
        "request ''tools/call'' 7 [(''name'', JString ''browser_click''), (''arguments'', JDict [])]" "JInt 7"
        "[(''name'', JString ''browser_click''), (''arguments'', JDict [])]" 3]
    by (simp add: demo_tools_server_def SetController_def new_server_def find_defs)
qed

subsection \<open>What the tools answer\<close>

text \<open>
  The calls whose operation only uses its page while it is sure to be there, as for the C interface:
  references into the last DOM snapshot, and waits whose limit does not overflow.
\<close>

definition dom_argument :: "base_lib \<Rightarrow> dict \<Rightarrow> string \<Rightarrow> bool" where
  "dom_argument L args n = (case FindString args n of None \<Rightarrow> True | Some r \<Rightarrow> ParseDomRef L r \<noteq> None)"

definition careful_args :: "base_lib \<Rightarrow> string \<Rightarrow> dict \<Rightarrow> bool" where
  "careful_args L name args \<longleftrightarrow>
     name \<notin> {''browser_tab_new'', ''browser_press_key'', ''browser_scroll''} \<and>
     (if name = ''browser_wait_for'' then sint (int_or 30000 args ''timeout'') \<le> 2147482647
      else if name \<in> {''browser_click'', ''browser_hover'', ''browser_type''} then dom_argument L args ''ref''
      else if name = ''browser_drag'' then dom_argument L args ''startRef'' \<and> dom_argument L args ''endRef''
      else True)"

context page_owner
begin

lemma text_tools_wp:
  assumes "controllers_ok inv s"
  shows "wp (HandleNavigate V L args) (controller_pages V) (meanwhile inv) (\<lambda>r _. text_result r) s"
    and "wp (HandleNavigateBack V args) (controller_pages V) (meanwhile inv) (\<lambda>r _. text_result r) s"
    and "wp (HandleNavigateForward V args) (controller_pages V) (meanwhile inv) (\<lambda>r _. text_result r) s"
    and "wp (HandleReload V args) (controller_pages V) (meanwhile inv) (\<lambda>r _. text_result r) s"
    and "wp (HandleClose V args) (controller_pages V) (meanwhile inv) (\<lambda>r _. text_result r) s"
    and "wp (HandleResize V L args) (controller_pages V) (meanwhile inv) (\<lambda>r _. text_result r) s"
    and "wp (HandleCookieSet V L args) (controller_pages V) (meanwhile inv) (\<lambda>r _. text_result r) s"
    and "wp (HandleCookieDelete V L args) (controller_pages V) (meanwhile inv) (\<lambda>r _. text_result r) s"
    and "wp (HandleCookieClear V args) (controller_pages V) (meanwhile inv) (\<lambda>r _. text_result r) s"
  unfolding HandleNavigate_def HandleNavigateBack_def HandleNavigateForward_def HandleReload_def HandleClose_def
    HandleResize_def HandleCookieSet_def HandleCookieDelete_def HandleCookieClear_def Let_def
  by (auto intro!: wp_complete_status navigate_wp history_wp close_tab_wp resize_wp cookie_status_wp assms
      split: option.split)

lemma result_tools_wp:
  assumes "controllers_ok inv s"
  shows "wp (HandleSnapshot V script args) (controller_pages V) (meanwhile inv) (\<lambda>r _. text_result r) s"
    and "wp (HandleScreenshot V L args) (controller_pages V) (meanwhile inv) (\<lambda>r _. text_result r \<or> image_result r) s"
    and "wp (HandleEvaluate V L args) (controller_pages V) (meanwhile inv) (\<lambda>r _. text_result r) s"
    and "wp (HandleConsoleMessages V args) (controller_pages V) (meanwhile inv) (\<lambda>r _. text_result r) s"
    and "wp (HandleTabs V L args) (controller_pages V) (meanwhile inv) (\<lambda>r _. text_result r) s"
    and "wp (HandleCookieList V L args) (controller_pages V) (meanwhile inv) (\<lambda>r _. text_result r) s"
  unfolding HandleSnapshot_def HandleScreenshot_def HandleEvaluate_def HandleConsoleMessages_def HandleTabs_def
    HandleCookieList_def
  by (auto intro!: wp_complete_result evaluate_wp list_tabs_wp list_cookies_wp assms
      CompleteScreenshot_wp completions_text split: option.split)

lemma cookie_get_tool_wp:
  assumes "controllers_ok inv s"
  shows "wp (HandleCookieGet V L args) (controller_pages V) (meanwhile inv) (\<lambda>r _. text_result r) s"
proof -
  have "wp (CtlGetCookie V L True None g) (controller_pages V) (meanwhile inv) (\<lambda>r s. result_wf r \<and> True) s" for g
    by (rule wp_mono [OF get_cookie_wp [OF assms]]) simp
  from wp_complete_result [OF this FormatCookieGet_text] show ?thesis
    by (simp add: HandleCookieGet_def split: option.split)
qed

lemma wait_tool_wp:
  assumes "controllers_ok inv s" "sint (int_or 30000 args ''timeout'') \<le> 2147482647"
  shows "wp (HandleWaitFor V L args) (controller_pages V) (meanwhile inv) (\<lambda>r _. text_result r) s"
proof -
  let ?w = "\<lparr>wait_selector = FindString args ''selector'', wait_text = FindString args ''text'',
             wait_timeout_ms = int_or 30000 args ''timeout''\<rparr>"
  have "c_add (wait_timeout_ms ?w) 1000 \<noteq> None"
    using assms(2) sint_c_int_bounds [of "wait_timeout_ms ?w"] by (simp add: c_add_None)
  from wp_complete_status [OF wait_for_wp [OF assms(1) this] text_results(5)]
  have waits: "wp (then_task (CtlWaitFor V L True None ?w) (CompleteWait d)) (controller_pages V) (meanwhile inv)
      (\<lambda>r _. text_result r) s" for d by this
  show ?thesis
    by (cases "FindString args ''selector''"; cases "FindString args ''text''")
      (use waits in \<open>simp_all add: HandleWaitFor_def\<close>)
qed

lemma dom_tools_wp:
  assumes "controllers_ok inv s"
  shows "dom_argument L args ''ref'' \<Longrightarrow>
      wp (HandleClick V L F args) (controller_pages V) (meanwhile inv) (\<lambda>r _. text_result r) s"
    and "dom_argument L args ''ref'' \<Longrightarrow>
      wp (HandleHover V L F args) (controller_pages V) (meanwhile inv) (\<lambda>r _. text_result r) s"
    and "dom_argument L args ''ref'' \<Longrightarrow>
      wp (HandleType V L args) (controller_pages V) (meanwhile inv) (\<lambda>r _. text_result r) s"
    and "wp (HandleSelectOption V L args) (controller_pages V) (meanwhile inv) (\<lambda>r _. text_result r) s"
    and "dom_argument L args ''startRef'' \<Longrightarrow> dom_argument L args ''endRef'' \<Longrightarrow>
      wp (HandleDragAndDrop V L F args) (controller_pages V) (meanwhile inv) (\<lambda>r _. text_result r) s"
proof -
  have later: "meanwhile inv s s' \<Longrightarrow> controllers_ok inv s'" for s' by (simp add: meanwhile_def)
  note dom = dom_reference_wp [OF assms later, THEN wp_complete_status]
  note handlers = HandleClick_def HandleHover_def HandleType_def HandleSelectOption_def HandleDragAndDrop_def
    dom_argument_def
  show "dom_argument L args ''ref'' \<Longrightarrow>
      wp (HandleClick V L F args) (controller_pages V) (meanwhile inv) (\<lambda>r _. text_result r) s"
    "dom_argument L args ''ref'' \<Longrightarrow>
      wp (HandleHover V L F args) (controller_pages V) (meanwhile inv) (\<lambda>r _. text_result r) s"
    "dom_argument L args ''ref'' \<Longrightarrow>
      wp (HandleType V L args) (controller_pages V) (meanwhile inv) (\<lambda>r _. text_result r) s"
    "wp (HandleSelectOption V L args) (controller_pages V) (meanwhile inv) (\<lambda>r _. text_result r) s"
    "dom_argument L args ''startRef'' \<Longrightarrow> dom_argument L args ''endRef'' \<Longrightarrow>
      wp (HandleDragAndDrop V L F args) (controller_pages V) (meanwhile inv) (\<lambda>r _. text_result r) s"
    by (auto simp: handlers intro!: dom split: option.split)
qed

end

text \<open>
  A careful call of a tool never crashes, whatever becomes of the tabs and of the controller
  meanwhile, and each result it gives is one item of content: a text, and only for a screenshot that
  succeeded a PNG image.
\<close>

lemma tools_answer_content:
  assumes "page_owner V ok room" "controllers_ok ok s" "t \<in> set (all_tools V L F script)" "careful_args L (tl_name t) args"
  shows "always L V (meanwhile ok) s (tl_handler t args)
    (\<lambda>r _. text_result r \<or> (tl_name t = ''browser_take_screenshot'' \<and> image_result r))"
proof (rule always_wp)
  note tool_wps = page_owner.text_tools_wp [OF assms(1,2)] page_owner.result_tools_wp(1,3-6) [OF assms(1,2)]
    page_owner.cookie_get_tool_wp [OF assms(1,2)] page_owner.wait_tool_wp [OF assms(1,2)]
    page_owner.dom_tools_wp [OF assms(1,2)]
  let ?W = "\<lambda>t. careful_args L (tl_name t) args \<longrightarrow> wp (tl_handler t args) (controller_pages V) (meanwhile ok)
    (\<lambda>r _. text_result r \<or> (tl_name t = ''browser_take_screenshot'' \<and> image_result r)) s"
  have "list_all ?W (RegisterNavigationTools V L)" "list_all ?W (RegisterSnapshotTools V L script)"
    "list_all ?W (RegisterInteractionTools V L F)" "list_all ?W (RegisterEvaluateTools V L)"
    "list_all ?W (RegisterWaitTools V L)" "list_all ?W (RegisterTabTools V L)" "list_all ?W (RegisterCookieTools V L)"
    unfolding register_defs list.pred_inject tool.simps
    by (simp_all add: tool_wps page_owner.result_tools_wp(2) [OF assms(1,2)] careful_args_def)
  with assms(3,4) show "wp (tl_handler t args) (controller_pages V) (meanwhile ok)
    (\<lambda>r _. text_result r \<or> (tl_name t = ''browser_take_screenshot'' \<and> image_result r)) s"
    by (auto simp: all_tools_def list_all_iff)
qed

lemma tools_answer_content_witness:
  "\<exists>r s'. run ref_lib (controller_pages demo_class) (meanwhile (gui_ok ref_lib)) (Some demo_controller) \<lparr>pt_x = 0, pt_y = 0\<rparr>
     (HandleTabs demo_class ref_lib []) [] (Answered r s') \<and> text_result r"
proof -
  let ?t = "hd (RegisterTabTools demo_class ref_lib)"
  have t: "?t \<in> set (all_tools demo_class ref_lib demo_f64 [])" "tl_name ?t = ''browser_tab_list''"
    "tl_handler ?t = HandleTabs demo_class ref_lib"
    by (simp_all add: all_tools_def RegisterTabTools_def)
  have careful: "careful_args ref_lib (tl_name ?t) []" by (simp add: t(2) careful_args_def)
  have "answers_now ref_lib (controller_pages demo_class) (meanwhile (gui_ok ref_lib)) (Some demo_controller)
      \<lparr>pt_x = 0, pt_y = 0\<rparr> (HandleTabs demo_class ref_lib [])"
    by (auto simp: HandleTabs_def CtlListTabs_def RunOrPost_def with_runtime_def CompleteTabsTool_def when_ok_def
        value_or_undefined_def tool_text_def tool_error_def Let_def intro!: answers_nowI)
  then obtain r s' where run: "run ref_lib (controller_pages demo_class) (meanwhile (gui_ok ref_lib))
      (Some demo_controller) \<lparr>pt_x = 0, pt_y = 0\<rparr> (HandleTabs demo_class ref_lib []) [] (Answered r s')"
    unfolding answers_now_def by blast
  from always_answered [OF tools_answer_content [OF demo_class_owner demo_controllers_ok t(1) careful, unfolded t(3)] run] t(2)
  have "text_result r" by simp
  with run show ?thesis by blast
qed

end
