(* ===== verification/App.thy ===== *)
theory App
  imports Tools Mcp_Http Mcp_Ipc Switches
begin

section \<open>The application (\<open>app.cc\<close>)\<close>

text \<open>
  The standalone program: it builds the controller, registers the tools and starts the transports
  that the command line asks for. The command line, the environment, the threads, the HTTP listener
  and the file system are arguments. A configuration that is asked for but wrong, and a transport
  that does not start, end the process.
\<close>

definition kMcpHttpHostSwitch :: string where "kMcpHttpHostSwitch = ''mcp-http-host''"
definition kMcpHttpPortSwitch :: string where "kMcpHttpPortSwitch = ''mcp-http-port''"
definition kMcpIpcPathSwitch :: string where "kMcpIpcPathSwitch = ''mcp-ipc-path''"
definition kMcpHttpTokenEnv :: string where "kMcpHttpTokenEnv = ''BROWSERD_MCP_HTTP_TOKEN''"

record MCPHttpConfig =
  hc_host :: string
  hc_port :: "16 word"
  hc_token :: string

definition no_http_config :: MCPHttpConfig where
  "no_http_config = \<lparr>hc_host = [], hc_port = 0, hc_token = []\<rparr>"

record MCPIPCConfig =
  ic_path :: string

definition no_ipc_config :: MCPIPCConfig where
  "no_ipc_config = \<lparr>ic_path = []\<rparr>"

definition IsAllowedHttpHost :: "base_lib \<Rightarrow> string \<Rightarrow> bool" where
  "IsAllowedHttpHost L host \<longleftrightarrow>
     host = ''127.0.0.1'' \<or> host = ''0.0.0.0'' \<or> host = ''::1'' \<or> host = ''::'' \<or> lib_eq_ci L host ''localhost''"

definition GetMCPHttpConfig :: "'l cl_ops \<Rightarrow> base_lib \<Rightarrow> environment \<Rightarrow> 'l \<Rightarrow> MCPHttpConfig option" where
  "GetMCPHttpConfig C L env command_line =
     (if \<not> cl_has C command_line kMcpHttpPortSwitch then None
      else
        let given_host = cl_value C command_line kMcpHttpHostSwitch;
            host = (if given_host = [] then ''127.0.0.1'' else given_host)
        in if \<not> IsAllowedHttpHost L host then Some no_http_config
           else
             case lib_string_to_uint L (cl_value C command_line kMcpHttpPortSwitch) of
               None \<Rightarrow> Some no_http_config
             | Some port_value \<Rightarrow>
                 if port_value > 65535 then Some no_http_config
                 else
                   case env kMcpHttpTokenEnv of
                     None \<Rightarrow> Some no_http_config
                   | Some token \<Rightarrow>
                       if token = [] then Some no_http_config
                       else Some \<lparr>hc_host = host, hc_port = ucast port_value, hc_token = token\<rparr>)"

definition GetMCPIPCConfig :: "'l cl_ops \<Rightarrow> 'l \<Rightarrow> MCPIPCConfig option" where
  "GetMCPIPCConfig C command_line =
     (if \<not> cl_has C command_line kMcpIpcPathSwitch then None
      else
        let path = cl_value C command_line kMcpIpcPathSwitch
        in if path = [] then Some no_ipc_config else Some \<lparr>ic_path = path\<rparr>)"

definition IsInvalidHttpConfig :: "MCPHttpConfig \<Rightarrow> bool" where
  "IsInvalidHttpConfig config \<longleftrightarrow> hc_host config = [] \<or> hc_token config = []"

definition IsInvalidIPCConfig :: "MCPIPCConfig \<Rightarrow> bool" where
  "IsInvalidIPCConfig config \<longleftrightarrow> ic_path config = []"

subsection \<open>Starting\<close>

text \<open>What the operating system says when the transports start.\<close>

record start_env =
  se_http_thread :: bool
  se_listen :: "string \<Rightarrow> 16 word \<Rightarrow> int"
  se_ipc_thread :: bool
  se_unix :: unix_env

record 'c app =
  app_server :: "'c MCPServer"
  app_http :: http_transport
  app_ipc :: ipc_transport

definition new_app :: "'c app" where
  "new_app = \<lparr>app_server = new_server, app_http = new_http_transport, app_ipc = new_ipc_transport\<rparr>"

text \<open>
  The three functions of \<open>MCPServer\<close> that start a transport. The transport on the standard streams
  always starts; what differs is whether its end ends the program.
\<close>

definition ServerStart :: "bool \<Rightarrow> 'c app \<Rightarrow> 'c app" where
  "ServerStart shutdown_on_stdio_close a =
     a\<lparr>app_server := (app_server a)\<lparr>srv_shutdown_on_stdio_close := shutdown_on_stdio_close\<rparr>\<rparr>"

definition StartHttpTransport ::
  "base_lib \<Rightarrow> start_env \<Rightarrow> string \<Rightarrow> 16 word \<Rightarrow> string \<Rightarrow> 'c app \<Rightarrow> bool \<times> 'c app" where
  "StartHttpTransport L E host port token a =
     (let (success, h) = HttpStart L (se_http_thread E) (se_listen E) host port token (app_http a)
      in (success, a\<lparr>app_http := h\<rparr>))"

definition StartIPCTransport :: "start_env \<Rightarrow> string \<Rightarrow> 'c app \<Rightarrow> bool \<times> 'c app" where
  "StartIPCTransport E path a =
     (let (success, s) = IpcStart (se_ipc_thread E) (se_unix E) path (app_ipc a)
      in (success, a\<lparr>app_ipc := s\<rparr>))"

text \<open>\<open>None\<close> is a process that was terminated.\<close>

definition start_http :: "base_lib \<Rightarrow> start_env \<Rightarrow> MCPHttpConfig option \<Rightarrow> 'c app \<Rightarrow> 'c app option" where
  "start_http L E http_config a =
     (case http_config of
        None \<Rightarrow> Some a
      | Some config \<Rightarrow>
          (case StartHttpTransport L E (hc_host config) (hc_port config) (hc_token config) a of
             (success, a') \<Rightarrow> if success then Some a' else None))"

definition start_ipc :: "start_env \<Rightarrow> MCPIPCConfig option \<Rightarrow> 'c app \<Rightarrow> 'c app option" where
  "start_ipc E ipc_config a =
     (case ipc_config of
        None \<Rightarrow> Some a
      | Some config \<Rightarrow>
          (case StartIPCTransport E (ic_path config) a of (success, a') \<Rightarrow> if success then Some a' else None))"

definition AppStart ::
  "'l cl_ops \<Rightarrow> base_lib \<Rightarrow> ('c MCPServer \<Rightarrow> 'c MCPServer) \<Rightarrow> start_env \<Rightarrow> environment \<Rightarrow> 'l \<Rightarrow> 'c \<Rightarrow> 'c app \<Rightarrow> 'c app option" where
  "AppStart C L register E env command_line controller a =
     (let a1 = a\<lparr>app_server := SetController (Some controller) (register (app_server a))\<rparr>;
          http_config = GetMCPHttpConfig C L env command_line;
          ipc_config = GetMCPIPCConfig C command_line
      in if (case http_config of Some config \<Rightarrow> IsInvalidHttpConfig config | None \<Rightarrow> False) then None
         else if (case ipc_config of Some config \<Rightarrow> IsInvalidIPCConfig config | None \<Rightarrow> False) then None
         else
           let has_non_stdio_transport = (http_config \<noteq> None \<or> ipc_config \<noteq> None)
           in case start_http L E http_config (ServerStart (\<not> has_non_stdio_transport) a1) of
                None \<Rightarrow> None
              | Some a2 \<Rightarrow> start_ipc E ipc_config a2)"

text \<open>With no initial page the browser is shut down instead: nothing starts and the app stays as it was.\<close>

definition OnBrowserStart ::
  "'l cl_ops \<Rightarrow> base_lib \<Rightarrow> ('c MCPServer \<Rightarrow> 'c MCPServer) \<Rightarrow> start_env \<Rightarrow> environment \<Rightarrow> 'l \<Rightarrow> 'c \<Rightarrow> bool \<Rightarrow> 'c app \<Rightarrow> 'c app option" where
  "OnBrowserStart C L register E env command_line controller initialized a =
     (if \<not> initialized then Some a else AppStart C L register E env command_line controller a)"

section \<open>Properties\<close>

lemma http_config_cases:
  assumes "GetMCPHttpConfig C L env command_line = Some config" "\<not> IsInvalidHttpConfig config"
  shows "IsAllowedHttpHost L (hc_host config) \<and> hc_token config \<noteq> [] \<and> env kMcpHttpTokenEnv = Some (hc_token config) \<and>
    (\<exists>port. lib_string_to_uint L (cl_value C command_line kMcpHttpPortSwitch) = Some port \<and> unat (hc_port config) = unat port)"
proof -
  have port: "unat (ucast port :: 16 word) = unat port" if "\<not> port > 65535" for port :: "32 word"
  proof -
    from that have "unat port \<le> 65535" by (simp add: word_le_nat_alt not_less)
    then show ?thesis by (simp add: unsigned_ucast_eq take_bit_nat_eq_self)
  qed
  show ?thesis
    using assms port
    by (auto simp: GetMCPHttpConfig_def Let_def IsInvalidHttpConfig_def no_http_config_def split: if_splits option.splits)
qed

lemma HttpStart_runs:
  assumes "HttpStart L thread_ok listen host port token new_http_transport = (True, h)"
  shows "http_run L token [] h"
proof -
  have "h = new_http_transport\<lparr>http_token := token, http_running := True\<rparr>"
    using assms by (auto simp: HttpStart_def StartOnHttpThread_def new_http_transport_def Let_def split: if_splits)
  then show ?thesis by (simp add: http_run.start)
qed

lemma start_http_runs:
  assumes "start_http L E http_config a = Some a'" "app_http a = new_http_transport"
  shows "app_server a' = app_server a \<and> app_ipc a' = app_ipc a \<and>
    (case http_config of None \<Rightarrow> app_http a' = new_http_transport | Some config \<Rightarrow> http_run L (hc_token config) [] (app_http a'))"
  using assms HttpStart_runs
  by (auto simp: start_http_def StartHttpTransport_def split: option.splits prod.splits if_splits)

lemma start_ipc_runs:
  assumes "start_ipc E ipc_config a = Some a'" "app_ipc a = new_ipc_transport"
  shows "app_server a' = app_server a \<and> app_http a' = app_http a \<and>
    (case ipc_config of None \<Rightarrow> app_ipc a' = new_ipc_transport | Some config \<Rightarrow> ipc_run L (app_ipc a'))"
  using assms ipc_run.start
  by (fastforce simp: start_ipc_def StartIPCTransport_def split: option.splits prod.splits if_splits)

lemma start_ipc_written:
  assumes "start_ipc E ipc_config a = Some a'" "app_ipc a = new_ipc_transport"
  shows "ipc_written (app_ipc a') = []"
  using assms
  by (auto simp: start_ipc_def StartIPCTransport_def IpcStart_def RunLoop_start_def new_ipc_transport_def Let_def
      split: option.splits prod.splits if_splits)

lemma start_http_None:
  "start_http L E (Some config) a = None \<longleftrightarrow>
     \<not> IsAllowedHttpHost L (hc_host config) \<or> \<not> se_http_thread E \<or>
     se_listen E (NormalizeListenHost L (hc_host config)) (hc_port config) \<noteq> 0"
  by (simp add: start_http_def StartHttpTransport_def HttpStart_def StartOnHttpThread_def IsAllowedListenHost_def
      IsAllowedHttpHost_def)

lemma start_ipc_None:
  "start_ipc E (Some config) a = None \<longleftrightarrow>
     ic_path config = [] \<or> \<not> se_ipc_thread E \<or> fst (CreateListeningSocket (se_unix E) (ic_path config)) < 0"
  by (simp add: start_ipc_def StartIPCTransport_def IpcStart_def RunLoop_start_def Let_def split: prod.split)

definition http_refused :: "'l cl_ops \<Rightarrow> base_lib \<Rightarrow> start_env \<Rightarrow> environment \<Rightarrow> 'l \<Rightarrow> bool" where
  "http_refused C L E env command_line \<longleftrightarrow>
     cl_has C command_line kMcpHttpPortSwitch \<and>
       (let given_host = cl_value C command_line kMcpHttpHostSwitch;
            host = (if given_host = [] then ''127.0.0.1'' else given_host)
        in \<not> IsAllowedHttpHost L host \<or>
           (case lib_string_to_uint L (cl_value C command_line kMcpHttpPortSwitch) of
              None \<Rightarrow> True
            | Some port \<Rightarrow> port > 65535 \<or> \<not> se_http_thread E \<or> se_listen E (NormalizeListenHost L host) (ucast port) \<noteq> 0) \<or>
           env kMcpHttpTokenEnv = None \<or> env kMcpHttpTokenEnv = Some [])"

definition ipc_refused :: "'l cl_ops \<Rightarrow> start_env \<Rightarrow> 'l \<Rightarrow> bool" where
  "ipc_refused C E command_line \<longleftrightarrow>
     cl_has C command_line kMcpIpcPathSwitch \<and>
       (cl_value C command_line kMcpIpcPathSwitch = [] \<or> \<not> se_ipc_thread E \<or>
        fst (CreateListeningSocket (se_unix E) (cl_value C command_line kMcpIpcPathSwitch)) < 0)"

lemma http_fails:
  "(case GetMCPHttpConfig C L env command_line of Some config \<Rightarrow> IsInvalidHttpConfig config | None \<Rightarrow> False) \<or>
   start_http L E (GetMCPHttpConfig C L env command_line) a = None \<longleftrightarrow> http_refused C L E env command_line"
proof (cases "cl_has C command_line kMcpHttpPortSwitch")
  case False
  then show ?thesis by (simp add: http_refused_def GetMCPHttpConfig_def start_http_def)
next
  case True
  define host where "host = (if cl_value C command_line kMcpHttpHostSwitch = [] then ''127.0.0.1'' else cl_value C command_line kMcpHttpHostSwitch)"
  have "host \<noteq> []" by (simp add: host_def)
  then show ?thesis
    using True unfolding http_refused_def GetMCPHttpConfig_def Let_def host_def [symmetric]
    by (cases "lib_string_to_uint L (cl_value C command_line kMcpHttpPortSwitch)"; cases "env kMcpHttpTokenEnv")
      (auto simp: IsInvalidHttpConfig_def no_http_config_def start_http_None split: if_splits)
qed

lemma ipc_fails:
  "(case GetMCPIPCConfig C command_line of Some config \<Rightarrow> IsInvalidIPCConfig config | None \<Rightarrow> False) \<or>
   start_ipc E (GetMCPIPCConfig C command_line) a = None \<longleftrightarrow> ipc_refused C E command_line"
proof (cases "cl_has C command_line kMcpIpcPathSwitch")
  case False
  then show ?thesis by (simp add: ipc_refused_def GetMCPIPCConfig_def start_ipc_def)
next
  case True
  then show ?thesis
    by (cases "cl_value C command_line kMcpIpcPathSwitch")
      (auto simp: ipc_refused_def GetMCPIPCConfig_def Let_def IsInvalidIPCConfig_def no_ipc_config_def start_ipc_None)
qed

lemma AppStart_None:
  fixes controller :: 'c
  shows "AppStart C L register E env command_line controller new_app = None \<longleftrightarrow>
     http_refused C L E env command_line \<or> ipc_refused C E command_line"
proof -
  let ?http = "GetMCPHttpConfig C L env command_line" and ?ipc = "GetMCPIPCConfig C command_line"
  let ?bad_http = "case ?http of Some config \<Rightarrow> IsInvalidHttpConfig config | None \<Rightarrow> False"
  let ?bad_ipc = "case ?ipc of Some config \<Rightarrow> IsInvalidIPCConfig config | None \<Rightarrow> False"
  let ?a1 = "new_app\<lparr>app_server := SetController (Some controller) (register (app_server new_app))\<rparr>"
  let ?a2 = "ServerStart (\<not> (?http \<noteq> None \<or> ?ipc \<noteq> None)) ?a1"
  have "AppStart C L register E env command_line controller new_app =
      (if ?bad_http then None else if ?bad_ipc then None
       else case start_http L E ?http ?a2 of None \<Rightarrow> None | Some a \<Rightarrow> start_ipc E ?ipc a)"
    by (simp only: AppStart_def Let_def)
  moreover have "?bad_http \<or> start_http L E ?http ?a2 = None \<longleftrightarrow> http_refused C L E env command_line"
    by (rule http_fails)
  moreover have "?bad_ipc \<or> start_ipc E ?ipc a = None \<longleftrightarrow> ipc_refused C E command_line" for a :: "'c app"
    by (rule ipc_fails)
  ultimately show ?thesis by (cases "start_http L E ?http ?a2") auto
qed

lemma AppStart_server:
  assumes "AppStart C L register E env command_line controller new_app = Some a"
  shows "(\<exists>b. app_server a = (SetController (Some controller) (register new_server))\<lparr>srv_shutdown_on_stdio_close := b\<rparr>) \<and>
    ipc_written (app_ipc a) = []"
proof -
  let ?a1 = "new_app\<lparr>app_server := SetController (Some controller) (register (app_server new_app))\<rparr>"
  from assms obtain a2 b where
    http: "start_http L E (GetMCPHttpConfig C L env command_line) (ServerStart b ?a1) = Some a2"
    and ipc: "start_ipc E (GetMCPIPCConfig C command_line) a2 = Some a"
    by (auto simp: AppStart_def Let_def split: if_splits option.splits)
  have new: "app_http (ServerStart b ?a1) = new_http_transport" "app_ipc (ServerStart b ?a1) = new_ipc_transport"
    by (simp_all add: ServerStart_def new_app_def)
  with start_http_runs [OF http] have "app_server a2 = app_server (ServerStart b ?a1)" "app_ipc a2 = new_ipc_transport"
    by simp_all
  with start_ipc_runs [OF ipc] start_ipc_written [OF ipc]
  have "app_server a = app_server (ServerStart b ?a1)" "ipc_written (app_ipc a) = []" by simp_all
  then show ?thesis by (auto simp: ServerStart_def new_app_def)
qed

lemma AppStart_transports:
  assumes "AppStart C L register E env command_line controller new_app = Some a"
  shows "srv_shutdown_on_stdio_close (app_server a) =
      (\<not> cl_has C command_line kMcpHttpPortSwitch \<and> \<not> cl_has C command_line kMcpIpcPathSwitch) \<and>
    (if cl_has C command_line kMcpHttpPortSwitch
     then \<exists>token. token \<noteq> [] \<and> env kMcpHttpTokenEnv = Some token \<and> http_run L token [] (app_http a)
     else app_http a = new_http_transport) \<and>
    (if cl_has C command_line kMcpIpcPathSwitch then ipc_run L (app_ipc a) else app_ipc a = new_ipc_transport)"
proof -
  let ?http = "GetMCPHttpConfig C L env command_line" and ?ipc = "GetMCPIPCConfig C command_line"
  let ?a1 = "new_app\<lparr>app_server := SetController (Some controller) (register (app_server new_app))\<rparr>"
  have asked: "?http = None \<longleftrightarrow> \<not> cl_has C command_line kMcpHttpPortSwitch" "?ipc = None \<longleftrightarrow> \<not> cl_has C command_line kMcpIpcPathSwitch"
    by (auto simp: GetMCPHttpConfig_def GetMCPIPCConfig_def Let_def split: option.split)
  from assms obtain a2 where valid: "\<And>config. ?http = Some config \<Longrightarrow> \<not> IsInvalidHttpConfig config"
    and http: "start_http L E ?http (ServerStart (\<not> (?http \<noteq> None \<or> ?ipc \<noteq> None)) ?a1) = Some a2"
    and ipc: "start_ipc E ?ipc a2 = Some a"
    by (auto simp: AppStart_def Let_def split: if_splits option.splits)
  note h = start_http_runs [OF http] and i = start_ipc_runs [OF ipc, of L]
  have "app_http (ServerStart b ?a1) = new_http_transport" "app_ipc (ServerStart b ?a1) = new_ipc_transport"
    "srv_shutdown_on_stdio_close (app_server (ServerStart b ?a1)) = b" for b
    by (simp_all add: ServerStart_def new_app_def)
  with h i valid http_config_cases [of C L env command_line] asked show ?thesis
    by (cases ?http; cases ?ipc) auto
qed

text \<open>
  C27: a program that started has the transports its command line asks for and no other. The HTTP
  transport runs with the token of the environment, which is not empty; the socket transport runs
  from its start; and the end of the standard input ends the program exactly when there is no other
  transport.
\<close>

theorem app_transports_guarded:
  assumes "AppStart C L register E env command_line controller new_app = Some a"
  shows "srv_shutdown_on_stdio_close (app_server a) =
      (\<not> cl_has C command_line kMcpHttpPortSwitch \<and> \<not> cl_has C command_line kMcpIpcPathSwitch) \<and>
    (if cl_has C command_line kMcpHttpPortSwitch
     then \<exists>token. token \<noteq> [] \<and> env kMcpHttpTokenEnv = Some token \<and> http_run L token [] (app_http a)
     else app_http a = new_http_transport) \<and>
    (if cl_has C command_line kMcpIpcPathSwitch then ipc_run L (app_ipc a) else app_ipc a = new_ipc_transport)"
  by (rule AppStart_transports [OF assms])

definition demo_start_env :: start_env where
  "demo_start_env = \<lparr>se_http_thread = True, se_listen = (\<lambda>h p. 0), se_ipc_thread = True, se_unix = safe_env\<rparr>"

definition demo_line :: "(string \<times> string) list" where
  "demo_line = [(kMcpHttpPortSwitch, ''8080''), (kMcpIpcPathSwitch, ''/run/b.sock'')]"

definition demo_vars :: environment where
  "demo_vars = [kMcpHttpTokenEnv \<mapsto> ''secret'']"

definition port_lib :: base_lib where
  "port_lib = ref_lib\<lparr>lib_string_to_uint := (\<lambda>s. if s = ''8080'' then Some 8080 else None)\<rparr>"

theorem app_transports_guarded_witness:
  "\<exists>a. AppStart list_cl port_lib id demo_start_env demo_vars demo_line () new_app = Some a \<and>
     \<not> srv_shutdown_on_stdio_close (app_server a) \<and> http_run port_lib ''secret'' [] (app_http a) \<and> ipc_run port_lib (app_ipc a)"
proof -
  have "\<not> http_refused list_cl port_lib demo_start_env demo_vars demo_line"
    by (simp add: http_refused_def list_cl_def demo_line_def demo_vars_def demo_start_env_def port_lib_def
        IsAllowedHttpHost_def kMcpHttpHostSwitch_def kMcpHttpPortSwitch_def kMcpIpcPathSwitch_def)
  moreover have "\<not> ipc_refused list_cl demo_start_env demo_line" by code_simp
  ultimately have "AppStart list_cl port_lib id demo_start_env demo_vars demo_line () new_app \<noteq> None"
    by (simp add: AppStart_None)
  then obtain a where a: "AppStart list_cl port_lib id demo_start_env demo_vars demo_line () new_app = Some a" by blast
  have "cl_has list_cl demo_line kMcpHttpPortSwitch" "cl_has list_cl demo_line kMcpIpcPathSwitch"
    "demo_vars kMcpHttpTokenEnv = Some ''secret''"
    by code_simp+
  with a app_transports_guarded [OF a] show ?thesis by auto
qed

text \<open>
  The program fails to start exactly when the HTTP transport is asked for with a host that is not
  a loopback or wildcard address, a port that is not one, no token, or does not start, or when the
  socket transport is asked for without a path or does not start. It never runs without a transport
  it was asked for.
\<close>

lemma app_start_fails_iff:
  "AppStart C L register E env command_line controller new_app = None \<longleftrightarrow>
     http_refused C L E env command_line \<or> ipc_refused C E command_line"
  by (rule AppStart_None)

end
