(* ===== verification/Program.thy ===== *)
theory Program
  imports App
begin

section \<open>The program as a whole\<close>

text \<open>
  The server with the three transports that \<open>MCPServer\<close> owns, as they run together. A response
  callback is the number of the message it came with; \<open>pg_routes\<close> is what the transports bound into
  those callbacks: the message and where its answer goes. The main thread runs one task at a time:
  a message that a transport posted, a completed tool call; while it does, the callbacks that the
  server ran (\<open>srv_sent\<close>) are carried out in order (\<open>pg_delivered\<close> of them so far). The answer to
  an HTTP request is posted to the HTTP thread (\<open>pg_replies\<close>); one for the standard output or a
  socket is written at once. \<open>pg_stdin\<close> is what the reader thread posts, up to the task that is next.
\<close>

datatype route = ToStdio | ToHttp int | ToIpc "64 word"

record 'c program =
  pg_server :: "'c MCPServer"
  pg_stdin :: "main_task list"
  pg_stdout :: string
  pg_http :: http_transport
  pg_replies :: "(int \<times> dict option) list"
  pg_ipc :: ipc_transport
  pg_ipc_taken :: nat
  pg_routes :: "(dict \<times> route) list"
  pg_delivered :: nat

definition program_of :: "base_lib \<Rightarrow> string \<Rightarrow> 'c app \<Rightarrow> 'c program" where
  "program_of L input a =
     \<lparr>pg_server = app_server a, pg_stdin = ReadLoop L True input, pg_stdout = [], pg_http = app_http a,
      pg_replies = [], pg_ipc = app_ipc a, pg_ipc_taken = 0, pg_routes = [], pg_delivered = 0\<rparr>"

subsection \<open>The tasks of the main thread\<close>

definition pg_message :: "dict \<Rightarrow> route \<Rightarrow> 'c program \<Rightarrow> 'c program" where
  "pg_message m r s =
     s\<lparr>pg_server := OnMessage m (length (pg_routes s)) (pg_server s), pg_routes := pg_routes s @ [(m, r)]\<rparr>"

definition pg_stdin_task :: "('c \<Rightarrow> 'c) \<Rightarrow> 'c program \<Rightarrow> 'c program" where
  "pg_stdin_task Shutdown s =
     (case pg_stdin s of
        [] \<Rightarrow> s
      | MessageTask m # tasks \<Rightarrow> pg_message m ToStdio (s\<lparr>pg_stdin := tasks\<rparr>)
      | CloseTask # tasks \<Rightarrow> s\<lparr>pg_stdin := tasks, pg_server := OnTransportClosed Shutdown (pg_server s)\<rparr>)"

definition pg_http_task :: "'c program \<Rightarrow> 'c program" where
  "pg_http_task s =
     (case http_posted (pg_http s) of
        [] \<Rightarrow> s
      | (m, c) # tasks \<Rightarrow> pg_message m (ToHttp c) (s\<lparr>pg_http := (pg_http s)\<lparr>http_posted := tasks\<rparr>\<rparr>))"

definition pg_ipc_task :: "'c program \<Rightarrow> 'c program" where
  "pg_ipc_task s =
     (if pg_ipc_taken s < length (ipc_posted (pg_ipc s)) then
        case ipc_posted (pg_ipc s) ! pg_ipc_taken s of
          (m, g, src) \<Rightarrow> pg_message m (ToIpc g) (s\<lparr>pg_ipc_taken := Suc (pg_ipc_taken s)\<rparr>)
      else s)"

definition pg_complete :: "tool_result \<Rightarrow> 'c program \<Rightarrow> 'c program" where
  "pg_complete r s = s\<lparr>pg_server := run_bound_callback r (pg_server s)\<rparr>"

text \<open>The next callback that the server ran: it does what its transport bound.\<close>

definition pg_deliver :: "base_lib \<Rightarrow> send_outcome list \<Rightarrow> 'c program \<Rightarrow> 'c program" where
  "pg_deliver L os s =
     (case srv_sent (pg_server s) ! pg_delivered s of
        (cb, response) \<Rightarrow>
          let s1 = s\<lparr>pg_delivered := Suc (pg_delivered s)\<rparr>
          in case snd (pg_routes s ! cb) of
               ToStdio \<Rightarrow> s1\<lparr>pg_stdout := StdioSendResponse L response (pg_stdout s)\<rparr>
             | ToHttp c \<Rightarrow> s1\<lparr>pg_replies := pg_replies s @ [(c, response)]\<rparr>
             | ToIpc g \<Rightarrow> s1\<lparr>pg_ipc := IpcSendResponse L os g response (pg_ipc s)\<rparr>)"

text \<open>The next answer on the HTTP thread.\<close>

definition pg_http_reply :: "base_lib \<Rightarrow> 'c program \<Rightarrow> 'c program" where
  "pg_http_reply L s =
     (case pg_replies s of
        [] \<Rightarrow> s
      | (c, response) # replies \<Rightarrow> s\<lparr>pg_replies := replies, pg_http := SendMCPResponse L c response (pg_http s)\<rparr>)"

definition pg_idle :: "'c program \<Rightarrow> bool" where
  "pg_idle s \<longleftrightarrow> pg_delivered s = length (srv_sent (pg_server s))"

subsection \<open>Runs\<close>

text \<open>
  A run of the program: it starts with the transports its command line asks for, and then the three
  threads take steps in any order. \<open>reqs\<close> are the HTTP requests so far and \<open>closed\<close> the connections
  that were closed; requests come on open connections, as Chromium's HTTP server promises. The
  controller changes as its operations go on.
\<close>

inductive program_run ::
  "'l cl_ops \<Rightarrow> base_lib \<Rightarrow> environment \<Rightarrow> 'l \<Rightarrow> string \<Rightarrow> (int \<times> http_request) list \<Rightarrow> int set \<Rightarrow> 'c program \<Rightarrow> bool"
  for C L env line input where
  start: "AppStart C L (fold RegisterTool tools) E env line controller new_app = Some a \<Longrightarrow>
    program_run C L env line input [] {} (program_of L input a)"
| connect: "program_run C L env line input reqs closed s \<Longrightarrow>
    program_run C L env line input reqs closed (s\<lparr>pg_http := OnConnect c (pg_http s)\<rparr>)"
| close: "program_run C L env line input reqs closed s \<Longrightarrow>
    program_run C L env line input reqs (insert c closed) (s\<lparr>pg_http := OnClose c (pg_http s)\<rparr>)"
| request: "program_run C L env line input reqs closed s \<Longrightarrow> http_running (pg_http s) \<Longrightarrow> c \<in> http_open (pg_http s) \<Longrightarrow>
    program_run C L env line input (reqs @ [(c, info)]) closed (s\<lparr>pg_http := OnHttpRequest L c info (pg_http s)\<rparr>)"
| websocket: "program_run C L env line input reqs closed s \<Longrightarrow> http_running (pg_http s) \<Longrightarrow> c \<in> http_open (pg_http s) \<Longrightarrow>
    program_run C L env line input (reqs @ [(c, info)]) closed (s\<lparr>pg_http := OnWebSocketRequest c info (pg_http s)\<rparr>)"
| http_reply: "program_run C L env line input reqs closed s \<Longrightarrow> program_run C L env line input reqs closed (pg_http_reply L s)"
| loop: "program_run C L env line input reqs closed s \<Longrightarrow> os_answer_ok a (pg_ipc s) \<Longrightarrow>
    program_run C L env line input reqs closed (s\<lparr>pg_ipc := loop_step L a (pg_ipc s)\<rparr>)"
| stdin_task: "program_run C L env line input reqs closed s \<Longrightarrow> pg_idle s \<Longrightarrow>
    program_run C L env line input reqs closed (pg_stdin_task Shutdown s)"
| http_task: "program_run C L env line input reqs closed s \<Longrightarrow> pg_idle s \<Longrightarrow>
    program_run C L env line input reqs closed (pg_http_task s)"
| ipc_task: "program_run C L env line input reqs closed s \<Longrightarrow> pg_idle s \<Longrightarrow>
    program_run C L env line input reqs closed (pg_ipc_task s)"
| complete: "program_run C L env line input reqs closed s \<Longrightarrow> pg_idle s \<Longrightarrow> srv_bound (pg_server s) \<noteq> [] \<Longrightarrow>
    program_run C L env line input reqs closed (pg_complete r s)"
| controller: "program_run C L env line input reqs closed s \<Longrightarrow>
    program_run C L env line input reqs closed (s\<lparr>pg_server := SetController c (pg_server s)\<rparr>)"
| deliver: "program_run C L env line input reqs closed s \<Longrightarrow> \<not> pg_idle s \<Longrightarrow>
    program_run C L env line input reqs closed (pg_deliver L os s)"

section \<open>The server in the program\<close>

text \<open>The messages the server received, each under its own number.\<close>

definition received :: "(dict \<times> route) list \<Rightarrow> (response_callback \<times> dict) list" where
  "received routes = enumerate 0 (map fst routes)"

lemma received_snoc: "received (routes @ [(m, r)]) = received routes @ [(length routes, m)]"
  by (simp add: received_def enumerate_append_eq)

lemma received_fst: "map fst (received routes) = [0..<length routes]"
  by (simp add: received_def)

lemma received_iff: "(cb, m) \<in> set (received routes) \<longleftrightarrow> cb < length routes \<and> m = fst (routes ! cb)"
  by (auto simp: received_def in_set_enumerate_eq)

definition server_ok :: "'c program \<Rightarrow> bool" where
  "server_ok s \<longleftrightarrow> (\<exists>calls. server_run (received (pg_routes s)) calls (pg_server s)) \<and>
     pg_delivered s \<le> length (srv_sent (pg_server s))"

lemma server_ok_message:
  assumes "server_ok s" shows "server_ok (pg_message m r s)"
proof -
  from assms obtain calls where run: "server_run (received (pg_routes s)) calls (pg_server s)"
    and d: "pg_delivered s \<le> length (srv_sent (pg_server s))" by (auto simp: server_ok_def)
  from server_run.message [OF run, of "length (pg_routes s)" m] run_sent_grows(1) [OF run, of m "length (pg_routes s)"] d
  show ?thesis by (auto simp: server_ok_def pg_message_def received_snoc)
qed

lemma server_ok_same:
  "server_ok s \<Longrightarrow> pg_server t = pg_server s \<Longrightarrow> pg_routes t = pg_routes s \<Longrightarrow>
   pg_delivered t = pg_delivered s \<Longrightarrow> server_ok t"
  by (simp add: server_ok_def)

lemma server_run_tools: "server_run rcv calls s \<Longrightarrow> server_run rcv calls (fold RegisterTool ts s)"
  by (induction ts arbitrary: s) (simp_all add: server_run.tool)

lemma deliver_server [simp]:
  "pg_server (pg_deliver L os s) = pg_server s" "pg_routes (pg_deliver L os s) = pg_routes s"
  "pg_delivered (pg_deliver L os s) = Suc (pg_delivered s)" "pg_http (pg_deliver L os s) = pg_http s"
  "pg_stdin (pg_deliver L os s) = pg_stdin s" "pg_ipc_taken (pg_deliver L os s) = pg_ipc_taken s"
  by (simp_all add: pg_deliver_def Let_def split: prod.split route.split)

lemma http_reply_server [simp]:
  "pg_server (pg_http_reply L s) = pg_server s" "pg_routes (pg_http_reply L s) = pg_routes s"
  "pg_delivered (pg_http_reply L s) = pg_delivered s" "pg_stdout (pg_http_reply L s) = pg_stdout s"
  "pg_stdin (pg_http_reply L s) = pg_stdin s" "pg_ipc (pg_http_reply L s) = pg_ipc s"
  "pg_ipc_taken (pg_http_reply L s) = pg_ipc_taken s"
  by (simp_all add: pg_http_reply_def split: list.split prod.split)

lemma run_server_ok: "program_run C L env line input reqs closed s \<Longrightarrow> server_ok s"
proof (induction rule: program_run.induct)
  case (start tools E controller a)
  from AppStart_server [OF start] obtain b where
    a: "app_server a = (SetController (Some controller) (fold RegisterTool tools new_server))\<lparr>srv_shutdown_on_stdio_close := b\<rparr>"
    by blast
  have "server_run [] [] (app_server a)"
    unfolding a by (intro server_run.start_stdio server_run.controller server_run_tools server_run.start)
  then show ?case by (auto simp: server_ok_def program_of_def received_def)
next
  case (stdin_task reqs closed s Shutdown)
  have "server_ok (s\<lparr>pg_stdin := ts\<rparr>)" for ts using stdin_task.IH by (rule server_ok_same) simp_all
  moreover have "server_ok (s\<lparr>pg_stdin := ts, pg_server := OnTransportClosed Shutdown (pg_server s)\<rparr>)" for ts
    using stdin_task.IH by (auto simp: server_ok_def intro: server_run.closed)
  ultimately show ?case
    using stdin_task.IH by (simp add: pg_stdin_task_def server_ok_message split: list.split main_task.split)
next
  case (http_task reqs closed s)
  have "server_ok (s\<lparr>pg_http := h\<rparr>)" for h using http_task.IH by (rule server_ok_same) simp_all
  with http_task.IH show ?case by (simp add: pg_http_task_def server_ok_message split: list.split prod.split)
next
  case (ipc_task reqs closed s)
  have "server_ok (s\<lparr>pg_ipc_taken := n\<rparr>)" for n using ipc_task.IH by (rule server_ok_same) simp_all
  with ipc_task.IH show ?case by (simp add: pg_ipc_task_def server_ok_message split: prod.split)
next
  case (complete reqs closed s r)
  then obtain calls where run: "server_run (received (pg_routes s)) calls (pg_server s)"
    and d: "pg_delivered s \<le> length (srv_sent (pg_server s))" by (auto simp: server_ok_def)
  from server_run.complete [OF run complete.hyps(3), of r] run_sent_grows(2) [OF run, of r] d show ?case
    by (auto simp: server_ok_def pg_complete_def)
next
  case (controller reqs closed s c)
  then show ?case by (auto simp: server_ok_def intro: server_run.controller)
next
  case (deliver reqs closed s os)
  then show ?case by (auto simp: server_ok_def pg_idle_def)
qed (simp_all add: server_ok_def)

text \<open>What the server sends next: the answer to the message with that number, which was not answered before.\<close>

lemma next_answer:
  assumes "server_ok s" "\<not> pg_idle s" "srv_sent (pg_server s) ! pg_delivered s = (cb, r)"
  shows "cb < length (pg_routes s)" "answer_ok (fst (pg_routes s ! cb)) r"
    "cb \<notin> fst ` set (take (pg_delivered s) (srv_sent (pg_server s)))"
proof -
  from assms(1) obtain calls where run: "server_run (received (pg_routes s)) calls (pg_server s)"
    and d: "pg_delivered s < length (srv_sent (pg_server s))"
    using assms(2) by (auto simp: server_ok_def pg_idle_def)
  let ?sent = "srv_sent (pg_server s)" and ?d = "pg_delivered s"
  from d assms(3) have "(cb, r) \<in> set ?sent" by (metis nth_mem)
  with run_log_ok [OF run] obtain m where "(cb, m) \<in> set (received (pg_routes s))" "answer_ok m r"
    by (auto simp: log_ok_def)
  then show "cb < length (pg_routes s)" "answer_ok (fst (pg_routes s ! cb)) r" by (simp_all add: received_iff)
  have "mset (map fst ?sent @ map snd (waiting (pg_server s))) = mset [0..<length (pg_routes s)]"
    using run_accounted [OF run] by (simp add: accounted_def received_fst)
  from mset_eq_imp_distinct_iff [OF this] have "distinct (map fst ?sent)" by simp
  then have "distinct (take (Suc ?d) (map fst ?sent))" by (rule distinct_take)
  then show "cb \<notin> fst ` set (take ?d ?sent)"
    using d assms(3) by (simp add: take_Suc_conv_app_nth take_map)
qed

section \<open>HTTP in the program\<close>

lemma http_effects:
  "http_token (SendMCPResponse L c resp h) = http_token h" "http_running (SendMCPResponse L c resp h) = http_running h"
  "http_posted (SendMCPResponse L c resp h) = http_posted h" "http_open (SendMCPResponse L c resp h) = http_open h"
  "http_token (OnHttpRequest L c info h) = http_token h" "http_running (OnHttpRequest L c info h) = http_running h"
  "http_open (OnHttpRequest L c info h) = http_open h"
  "http_token (OnWebSocketRequest c info h) = http_token h" "http_running (OnWebSocketRequest c info h) = http_running h"
  "http_posted (OnWebSocketRequest c info h) = http_posted h" "http_open (OnWebSocketRequest c info h) = http_open h"
  using SendMCPResponse_once [of c h L resp] OnHttpRequest_once [of c h L info]
  by (auto simp: answers_once_def posts_once_def OnWebSocketRequest_def SendTextResponse_def server_SendResponse_def)

definition http_origin_ok :: "base_lib \<Rightarrow> string \<Rightarrow> (int \<times> http_request) list \<Rightarrow> dict \<Rightarrow> int \<Rightarrow> bool" where
  "http_origin_ok L token reqs m c \<longleftrightarrow> (\<exists>info. (c, info) \<in> set reqs \<and> http_accepts L token info m)"

lemma http_origin_more: "http_origin_ok L token reqs m c \<Longrightarrow> http_origin_ok L token (reqs @ new) m c"
  by (auto simp: http_origin_ok_def)

definition http_ok ::
  "base_lib \<Rightarrow> environment \<Rightarrow> (int \<times> http_request) list \<Rightarrow> 'c program \<Rightarrow> bool" where
  "http_ok L env reqs s \<longleftrightarrow>
     (http_running (pg_http s) \<longrightarrow> http_token (pg_http s) \<noteq> [] \<and> env kMcpHttpTokenEnv = Some (http_token (pg_http s))) \<and>
     (\<forall>(m, c) \<in> set (http_posted (pg_http s)).
        http_running (pg_http s) \<and> http_origin_ok L (http_token (pg_http s)) reqs m c) \<and>
     (\<forall>m c. (m, ToHttp c) \<in> set (pg_routes s) \<longrightarrow>
        http_running (pg_http s) \<and> http_origin_ok L (http_token (pg_http s)) reqs m c)"

lemma http_ok_same:
  "http_ok L env reqs s \<Longrightarrow> pg_routes t = pg_routes s \<Longrightarrow> http_token (pg_http t) = http_token (pg_http s) \<Longrightarrow>
   http_running (pg_http t) = http_running (pg_http s) \<Longrightarrow> http_posted (pg_http t) = http_posted (pg_http s) \<Longrightarrow>
   http_ok L env reqs t"
  by (simp add: http_ok_def)

lemma http_ok_request:
  assumes "http_ok L env reqs s" "http_running (pg_http s)"
  shows "http_ok L env (reqs @ [(c, info)]) (s\<lparr>pg_http := OnHttpRequest L c info (pg_http s)\<rparr>)"
proof -
  have "http_origin_ok L (http_token (pg_http s)) (reqs @ [(c, info)]) m c"
    if "http_accepts L (http_token (pg_http s)) info m" for m
    using that by (auto simp: http_origin_ok_def)
  with assms show ?thesis
    by (auto simp: http_ok_def http_effects OnHttpRequest_posted http_origin_more split: option.split)
qed

lemma http_ok_message:
  "http_ok L env reqs s \<Longrightarrow>
   (\<And>c. r = ToHttp c \<Longrightarrow> http_running (pg_http s) \<and> http_origin_ok L (http_token (pg_http s)) reqs m c) \<Longrightarrow>
   http_ok L env reqs (pg_message m r s)"
  by (auto simp: http_ok_def pg_message_def)

lemma http_ok_message_other:
  "http_ok L env reqs s \<Longrightarrow> http_ok L env reqs (pg_message m ToStdio s)"
  "http_ok L env reqs s \<Longrightarrow> http_ok L env reqs (pg_message m (ToIpc g) s)"
  by (auto intro: http_ok_message)

lemma run_http_ok: "program_run C L env line input reqs closed s \<Longrightarrow> http_ok L env reqs s"
proof (induction rule: program_run.induct)
  case (start tools E controller a)
  have http: "http_posted (app_http a) = [] \<and> (http_running (app_http a) \<longrightarrow>
      http_token (app_http a) \<noteq> [] \<and> env kMcpHttpTokenEnv = Some (http_token (app_http a)))"
  proof (cases "cl_has C line kMcpHttpPortSwitch")
    case True
    with AppStart_transports [OF start] obtain token where
      "token \<noteq> []" "env kMcpHttpTokenEnv = Some token" "http_run L token [] (app_http a)" by auto
    with run_token run_owed show ?thesis by (fastforce simp: owed_def)
  next
    case False
    with AppStart_transports [OF start] have "app_http a = new_http_transport" by auto
    then show ?thesis by (simp add: new_http_transport_def)
  qed
  then show ?case by (simp add: http_ok_def program_of_def)
next
  case (stdin_task reqs closed s Shutdown)
  then have "http_ok L env reqs (s\<lparr>pg_stdin := ts\<rparr>)" for ts by (simp add: http_ok_def)
  moreover have "http_ok L env reqs (s\<lparr>pg_stdin := ts, pg_server := x\<rparr>)" for ts x
    using stdin_task.IH by (simp add: http_ok_def)
  ultimately show ?case
    using stdin_task.IH by (simp add: pg_stdin_task_def http_ok_message_other split: list.split main_task.split)
next
  case (http_task reqs closed s)
  have "http_ok L env reqs (pg_message m (ToHttp c) (s\<lparr>pg_http := (pg_http s)\<lparr>http_posted := rest\<rparr>\<rparr>))"
    if "http_posted (pg_http s) = (m, c) # rest" for m c rest
    by (rule http_ok_message) (use http_task.IH that in \<open>auto simp: http_ok_def\<close>)
  with http_task.IH show ?case by (auto simp: pg_http_task_def split: list.split)
next
  case (ipc_task reqs closed s)
  then have "http_ok L env reqs (s\<lparr>pg_ipc_taken := n\<rparr>)" for n by (simp add: http_ok_def)
  with ipc_task.IH show ?case by (simp add: pg_ipc_task_def http_ok_message_other split: prod.split)
next
  case (http_reply reqs closed s)
  from http_reply.IH show ?case
    by (rule http_ok_same) (simp_all add: pg_http_reply_def http_effects split: list.split prod.split)
next
  case (request reqs closed s c info)
  then show ?case by (simp add: http_ok_request)
next
  case (websocket reqs closed s c info)
  then have "http_ok L env (reqs @ [(c, info)]) s" by (auto simp: http_ok_def http_origin_more)
  then show ?case by (rule http_ok_same) (simp_all add: http_effects)
qed (simp_all add: http_ok_def OnConnect_def OnClose_def pg_complete_def)

text \<open>What the HTTP thread was given and what it sent are answers to messages of that connection.\<close>

definition answers_connection :: "(dict \<times> route) list \<Rightarrow> int \<Rightarrow> dict option \<Rightarrow> bool" where
  "answers_connection routes c r \<longleftrightarrow> (\<exists>m. (m, ToHttp c) \<in> set routes \<and> answer_ok m r)"

lemma answers_connection_more: "answers_connection routes c r \<Longrightarrow> answers_connection (routes @ new) c r"
  by (auto simp: answers_connection_def)

definition sent_ok :: "base_lib \<Rightarrow> (dict \<times> route) list \<Rightarrow> int \<times> http_response \<Rightarrow> bool" where
  "sent_ok L routes sent \<longleftrightarrow> resp_status (snd sent) = 200 \<longrightarrow>
     (\<exists>resp. answers_connection routes (fst sent) (Some resp) \<and> lib_json_write L (JDict resp) = Some (resp_body (snd sent)))"

lemma sent_ok_more: "sent_ok L routes x \<Longrightarrow> sent_ok L (routes @ new) x"
  using answers_connection_more by (fastforce simp: sent_ok_def)

definition replies_ok :: "base_lib \<Rightarrow> 'c program \<Rightarrow> bool" where
  "replies_ok L s \<longleftrightarrow>
     (\<forall>(c, r) \<in> set (pg_replies s). answers_connection (pg_routes s) c r) \<and>
     (\<forall>x \<in> set (http_sent (pg_http s)). sent_ok L (pg_routes s) x)"

lemma sent_SendMCPResponse:
  "answers_connection routes c r \<Longrightarrow> x \<in> set (http_sent (SendMCPResponse L c r h)) \<Longrightarrow>
   x \<in> set (http_sent h) \<or> sent_ok L routes x"
  by (auto simp: SendMCPResponse_def server_SendResponse_def SendTextResponse_def sent_ok_def
      split: if_splits option.splits)

lemma sent_OnHttpRequest:
  "x \<in> set (http_sent (OnHttpRequest L c info h)) \<Longrightarrow> x \<in> set (http_sent h) \<or> resp_status (snd x) \<noteq> 200"
  by (auto simp: OnHttpRequest_def server_SendResponse_def SendTextResponse_def split: if_splits option.splits)

lemma sent_OnWebSocketRequest:
  "x \<in> set (http_sent (OnWebSocketRequest c info h)) \<Longrightarrow> x \<in> set (http_sent h) \<or> resp_status (snd x) \<noteq> 200"
  by (auto simp: OnWebSocketRequest_def server_SendResponse_def SendTextResponse_def split: if_splits)

lemma replies_ok_same:
  "replies_ok L s \<Longrightarrow> pg_routes t = pg_routes s \<Longrightarrow> pg_replies t = pg_replies s \<Longrightarrow>
   http_sent (pg_http t) = http_sent (pg_http s) \<Longrightarrow> replies_ok L t"
  by (simp add: replies_ok_def)

lemma replies_ok_message: "replies_ok L s \<Longrightarrow> replies_ok L (pg_message m r s)"
  by (auto simp: replies_ok_def pg_message_def answers_connection_more sent_ok_more)

lemma run_replies_ok: "program_run C L env line input reqs closed s \<Longrightarrow> replies_ok L s"
proof (induction rule: program_run.induct)
  case (start tools E controller a)
  have "http_sent (app_http a) = []"
  proof (cases "cl_has C line kMcpHttpPortSwitch")
    case True
    with AppStart_transports [OF start] obtain token where "http_run L token [] (app_http a)" by auto
    with run_owed show ?thesis by (fastforce simp: owed_def)
  qed (use AppStart_transports [OF start] in \<open>simp add: new_http_transport_def\<close>)
  then show ?case by (simp add: replies_ok_def program_of_def)
next
  case (stdin_task reqs closed s Shutdown)
  then have "replies_ok L (s\<lparr>pg_stdin := ts\<rparr>)" "replies_ok L (s\<lparr>pg_stdin := ts, pg_server := x\<rparr>)" for ts x
    by (simp_all add: replies_ok_def)
  with stdin_task.IH show ?case
    by (simp add: pg_stdin_task_def replies_ok_message split: list.split main_task.split)
next
  case (http_task reqs closed s)
  then have "replies_ok L (s\<lparr>pg_http := (pg_http s)\<lparr>http_posted := rest\<rparr>\<rparr>)" for rest by (simp add: replies_ok_def)
  with http_task.IH show ?case by (simp add: pg_http_task_def replies_ok_message split: list.split prod.split)
next
  case (ipc_task reqs closed s)
  then have "replies_ok L (s\<lparr>pg_ipc_taken := n\<rparr>)" for n by (simp add: replies_ok_def)
  with ipc_task.IH show ?case by (simp add: pg_ipc_task_def replies_ok_message split: prod.split)
next
  case (http_reply reqs closed s)
  then show ?case
    using sent_SendMCPResponse by (fastforce simp: pg_http_reply_def replies_ok_def split: list.split prod.split)
next
  case (request reqs closed s c info)
  then show ?case using sent_OnHttpRequest by (fastforce simp: replies_ok_def sent_ok_def)
next
  case (websocket reqs closed s c info)
  then show ?case using sent_OnWebSocketRequest by (fastforce simp: replies_ok_def sent_ok_def)
next
  case (deliver reqs closed s os)
  obtain cb r where x: "srv_sent (pg_server s) ! pg_delivered s = (cb, r)" by fastforce
  note now = next_answer [OF run_server_ok [OF deliver.hyps(1)] deliver.hyps(2) x]
  have "answers_connection (pg_routes s) c r" if "snd (pg_routes s ! cb) = ToHttp c" for c
    unfolding answers_connection_def using now(1,2) that by (metis nth_mem prod.collapse)
  with deliver.IH x show ?case
    by (auto simp: pg_deliver_def Let_def replies_ok_def split: route.split)
qed (simp_all add: replies_ok_def OnConnect_def OnClose_def pg_complete_def)

section \<open>The socket in the program\<close>

lemma RequestStopLocked_logs:
  "ipc_posted (RequestStopLocked s) = ipc_posted s" "ipc_written (RequestStopLocked s) = ipc_written s"
  by (simp_all add: RequestStopLocked_def close_listener_def close_client_def Let_def)

lemma loop_step_logs:
  "\<exists>new. ipc_posted (loop_step L a s) = ipc_posted s @ new" "ipc_written (loop_step L a s) = ipc_written s"
  by (cases "ipc_pc s"; simp add: loop_step_def Let_def close_client_def RequestStopLocked_logs split: option.split)+

lemma loop_step_new: "loop_step L a new_ipc_transport = new_ipc_transport"
  by (simp add: loop_step_def new_ipc_transport_def)

lemma IpcSendResponse_posted: "ipc_posted (IpcSendResponse L os g r s) = ipc_posted s"
  by (auto simp: IpcSendResponse_def SendSerializedResponse_def close_client_def Let_def split: option.split prod.split)

lemma IpcSendResponse_written:
  assumes "(g', n, bytes) \<in> set (ipc_written (IpcSendResponse L os g r s))"
  shows "(g', n, bytes) \<in> set (ipc_written s) \<or>
    g' = g \<and> (\<exists>resp rest. r = Some resp \<and> SerializeMCPTransportMessage L resp = Some (bytes @ rest))"
  using assms send_all_prefix [of os]
  by (fastforce simp: IpcSendResponse_def SendSerializedResponse_def close_client_def Let_def
      split: option.splits prod.splits if_splits)

definition write_ok :: "base_lib \<Rightarrow> (dict \<times> route) list \<Rightarrow> 64 word \<Rightarrow> string \<Rightarrow> bool" where
  "write_ok L routes g bytes \<longleftrightarrow>
     (\<exists>m resp rest. (m, ToIpc g) \<in> set routes \<and> answer_ok m (Some resp) \<and>
        SerializeMCPTransportMessage L resp = Some (bytes @ rest))"

lemma write_ok_more: "write_ok L routes g bytes \<Longrightarrow> write_ok L (routes @ new) g bytes"
  unfolding write_ok_def by (metis UnCI set_append)

definition ipc_ok :: "base_lib \<Rightarrow> 'c program \<Rightarrow> bool" where
  "ipc_ok L s \<longleftrightarrow>
     (ipc_run L (pg_ipc s) \<or> pg_ipc s = new_ipc_transport) \<and>
     (\<forall>m g. (m, ToIpc g) \<in> set (pg_routes s) \<longrightarrow> (\<exists>src. (m, g, src) \<in> set (ipc_posted (pg_ipc s)))) \<and>
     (\<forall>(g, n, bytes) \<in> set (ipc_written (pg_ipc s)). write_ok L (pg_routes s) g bytes)"

lemma ipc_ok_same:
  "ipc_ok L s \<Longrightarrow> pg_routes t = pg_routes s \<Longrightarrow> pg_ipc t = pg_ipc s \<Longrightarrow> ipc_ok L t"
  by (simp add: ipc_ok_def)

lemma ipc_ok_message:
  assumes "ipc_ok L s" "\<And>g. r = ToIpc g \<Longrightarrow> \<exists>src. (m, g, src) \<in> set (ipc_posted (pg_ipc s))"
  shows "ipc_ok L (pg_message m r s)"
  using assms write_ok_more [of L "pg_routes s" _ _ "[(m, r)]"]
  by (fastforce simp: ipc_ok_def pg_message_def)

lemma ipc_ok_message_other:
  "ipc_ok L s \<Longrightarrow> ipc_ok L (pg_message m ToStdio s)" "ipc_ok L s \<Longrightarrow> ipc_ok L (pg_message m (ToHttp c) s)"
  by (auto intro: ipc_ok_message)

lemma ipc_ok_loop:
  assumes "ipc_ok L s" "os_answer_ok a (pg_ipc s)"
  shows "ipc_ok L (s\<lparr>pg_ipc := loop_step L a (pg_ipc s)\<rparr>)"
proof -
  obtain new where "ipc_posted (loop_step L a (pg_ipc s)) = ipc_posted (pg_ipc s) @ new" using loop_step_logs(1) by blast
  with assms show ?thesis
    by (auto simp: ipc_ok_def loop_step_logs(2) loop_step_new intro: ipc_run.loop) blast+
qed

lemma ipc_ok_send:
  assumes "ipc_ok L s" "(m, ToIpc g) \<in> set (pg_routes s)" "answer_ok m r"
  shows "ipc_ok L (s\<lparr>pg_ipc := IpcSendResponse L os g r (pg_ipc s)\<rparr>)"
proof -
  from assms(1,2) obtain src where src: "(m, g, src) \<in> set (ipc_posted (pg_ipc s))"
    unfolding ipc_ok_def by blast
  then have "pg_ipc s \<noteq> new_ipc_transport" by (auto simp: new_ipc_transport_def)
  with assms(1) src have "ipc_run L (IpcSendResponse L os g r (pg_ipc s))" by (auto simp: ipc_ok_def intro: ipc_run.respond)
  moreover have "write_ok L (pg_routes s) g' bytes"
    if "(g', n, bytes) \<in> set (ipc_written (IpcSendResponse L os g r (pg_ipc s)))" for g' n bytes
    using IpcSendResponse_written [OF that] assms by (auto simp: ipc_ok_def write_ok_def)
  ultimately show ?thesis using assms(1) by (auto simp: ipc_ok_def IpcSendResponse_posted)
qed

lemma run_ipc_ok: "program_run C L env line input reqs closed s \<Longrightarrow> ipc_ok L s"
proof (induction rule: program_run.induct)
  case (start tools E controller a)
  from AppStart_transports [OF start] have "ipc_run L (app_ipc a) \<or> app_ipc a = new_ipc_transport" by presburger
  with AppStart_server [OF start] show ?case by (simp add: ipc_ok_def program_of_def)
next
  case (stdin_task reqs closed s Shutdown)
  then have "ipc_ok L (s\<lparr>pg_stdin := ts\<rparr>)" "ipc_ok L (s\<lparr>pg_stdin := ts, pg_server := x\<rparr>)" for ts x
    by (simp_all add: ipc_ok_def)
  with stdin_task.IH show ?case
    by (simp add: pg_stdin_task_def ipc_ok_message_other split: list.split main_task.split)
next
  case (http_task reqs closed s)
  then have "ipc_ok L (s\<lparr>pg_http := h\<rparr>)" for h by (simp add: ipc_ok_def)
  with http_task.IH show ?case by (simp add: pg_http_task_def ipc_ok_message_other split: list.split prod.split)
next
  case (ipc_task reqs closed s)
  have "ipc_ok L (pg_message m (ToIpc g) (s\<lparr>pg_ipc_taken := n\<rparr>))" if "(m, g, src) \<in> set (ipc_posted (pg_ipc s))" for m g src n
    by (rule ipc_ok_message) (use ipc_task.IH that in \<open>auto simp: ipc_ok_def\<close>)
  then have "ipc_ok L (pg_message m (ToIpc g) (s\<lparr>pg_ipc_taken := n\<rparr>))"
    if "pg_ipc_taken s < length (ipc_posted (pg_ipc s))" "ipc_posted (pg_ipc s) ! pg_ipc_taken s = (m, g, src)" for m g src n
    using that by (metis nth_mem)
  with ipc_task.IH show ?case by (simp add: pg_ipc_task_def split: prod.split)
next
  case (loop reqs closed s a)
  then show ?case by (simp add: ipc_ok_loop)
next
  case (deliver reqs closed s os)
  obtain cb r where x: "srv_sent (pg_server s) ! pg_delivered s = (cb, r)" by fastforce
  note now = next_answer [OF run_server_ok [OF deliver.hyps(1)] deliver.hyps(2) x]
  have "ipc_ok L (s\<lparr>pg_ipc := IpcSendResponse L os g r (pg_ipc s)\<rparr>)" if "snd (pg_routes s ! cb) = ToIpc g" for g
    by (rule ipc_ok_send [OF deliver.IH _ now(2)]) (use now(1) that in \<open>metis nth_mem prod.collapse\<close>)
  with deliver.IH x show ?case
    by (auto simp: pg_deliver_def Let_def ipc_ok_def split: route.split)
qed (simp_all add: ipc_ok_def pg_complete_def)

section \<open>The standard streams in the program\<close>

lemma filter_nth: "filter P xs = map ((!) xs) (filter (\<lambda>i. P (xs ! i)) [0..<length xs])"
proof -
  have "filter P (map ((!) xs) [0..<length xs]) = map ((!) xs) (filter (P \<circ> (!) xs) [0..<length xs])"
    by (rule filter_map)
  then show ?thesis by (simp add: map_nth o_def)
qed

text \<open>The answers carried out so far whose message came from standard input, in the order they were sent.\<close>

definition stdio_answers :: "'c program \<Rightarrow> (response_callback \<times> dict option) list" where
  "stdio_answers s =
     filter (\<lambda>(cb, r). snd (pg_routes s ! cb) = ToStdio) (take (pg_delivered s) (srv_sent (pg_server s)))"

definition stdin_messages :: "main_task list \<Rightarrow> dict list" where
  "stdin_messages tasks = concat (map (\<lambda>t. case t of MessageTask m \<Rightarrow> [m] | CloseTask \<Rightarrow> []) tasks)"

definition routed_stdin :: "'c program \<Rightarrow> dict list" where
  "routed_stdin s = map fst (filter (\<lambda>(m, r). r = ToStdio) (pg_routes s))"

definition stdio_ok :: "base_lib \<Rightarrow> string \<Rightarrow> 'c program \<Rightarrow> bool" where
  "stdio_ok L input s \<longleftrightarrow>
     pg_stdout s = fold (StdioSendResponse L) (map snd (stdio_answers s)) [] \<and>
     (\<exists>tasks. ReadLoop L True input = tasks @ pg_stdin s \<and> routed_stdin s = stdin_messages tasks)"

lemma stdio_answers_message:
  assumes "server_ok s" shows "stdio_answers (pg_message m r s) = stdio_answers s"
proof -
  from assms obtain calls where run: "server_run (received (pg_routes s)) calls (pg_server s)"
    and d: "pg_delivered s \<le> length (srv_sent (pg_server s))" by (auto simp: server_ok_def)
  have "fst x < length (pg_routes s)" if "x \<in> set (take (pg_delivered s) (srv_sent (pg_server s)))" for x
    using run_sent_received(1) [OF run] that by (fastforce simp: received_fst dest: in_set_takeD)
  with run_sent_grows(1) [OF run, of m "length (pg_routes s)"] d show ?thesis
    by (fastforce simp: stdio_answers_def pg_message_def nth_append intro: filter_cong)
qed

lemma stdio_ok_message:
  assumes "stdio_ok L input s" "server_ok s" "r \<noteq> ToStdio"
  shows "stdio_ok L input (pg_message m r s)"
  using assms stdio_answers_message [OF assms(2), of m r]
  by (simp add: stdio_ok_def routed_stdin_def) (simp add: pg_message_def)

lemma stdio_ok_same:
  "stdio_ok L input s \<Longrightarrow> pg_server t = pg_server s \<Longrightarrow> pg_routes t = pg_routes s \<Longrightarrow> pg_delivered t = pg_delivered s \<Longrightarrow>
   pg_stdin t = pg_stdin s \<Longrightarrow> pg_stdout t = pg_stdout s \<Longrightarrow> stdio_ok L input t"
  by (simp add: stdio_ok_def stdio_answers_def routed_stdin_def)

lemma stdio_ok_stdin_task:
  assumes "stdio_ok L input s" "server_ok s"
  shows "stdio_ok L input (pg_stdin_task Shutdown s)"
proof (cases "pg_stdin s")
  case Nil
  with assms show ?thesis by (simp add: pg_stdin_task_def)
next
  case (Cons t tasks)
  from assms(1) obtain before where before: "ReadLoop L True input = before @ pg_stdin s" "routed_stdin s = stdin_messages before"
    and out: "pg_stdout s = fold (StdioSendResponse L) (map snd (stdio_answers s)) []"
    by (auto simp: stdio_ok_def)
  show ?thesis
  proof (cases t)
    case (MessageTask m)
    let ?s = "s\<lparr>pg_stdin := tasks\<rparr>"
    have "server_ok ?s" using assms(2) by (rule server_ok_same) simp_all
    from stdio_answers_message [OF this, of m ToStdio]
    have "stdio_answers (pg_message m ToStdio ?s) = stdio_answers s" by (simp add: stdio_answers_def)
    moreover have "ReadLoop L True input = (before @ [t]) @ tasks" using before(1) Cons by simp
    moreover have "routed_stdin (pg_message m ToStdio ?s) = stdin_messages (before @ [t])"
      using before(2) MessageTask by (simp add: routed_stdin_def pg_message_def stdin_messages_def)
    ultimately show ?thesis
      using out Cons MessageTask unfolding stdio_ok_def
      by (intro conjI exI [of _ "before @ [t]"]) (simp_all add: pg_stdin_task_def, simp_all add: pg_message_def)
  next
    case CloseTask
    have "routed_stdin s = stdin_messages (before @ [t])" using before(2) CloseTask by (simp add: stdin_messages_def)
    then show ?thesis
      using out Cons CloseTask before(1) unfolding stdio_ok_def
      by (intro conjI exI [of _ "before @ [t]"]) (simp_all add: pg_stdin_task_def stdio_answers_def routed_stdin_def)
  qed
qed

lemma StdioSendResponse_snoc:
  "fold (StdioSendResponse L) (rs @ [r]) out = StdioSendResponse L r (fold (StdioSendResponse L) rs out)"
  by simp

lemma run_stdio_ok: "program_run C L env line input reqs closed s \<Longrightarrow> stdio_ok L input s"
proof (induction rule: program_run.induct)
  case (start tools E controller a)
  show ?case by (simp add: stdio_ok_def program_of_def stdio_answers_def routed_stdin_def stdin_messages_def)
next
  case (stdin_task reqs closed s Shutdown)
  then show ?case by (simp add: stdio_ok_stdin_task run_server_ok)
next
  case (http_task reqs closed s)
  have "stdio_ok L input (s\<lparr>pg_http := h\<rparr>)" "server_ok (s\<lparr>pg_http := h\<rparr>)" for h
    using http_task.IH run_server_ok [OF http_task.hyps(1)] by (auto intro: stdio_ok_same server_ok_same)
  with http_task.IH show ?case by (simp add: pg_http_task_def stdio_ok_message split: list.split prod.split)
next
  case (ipc_task reqs closed s)
  have "stdio_ok L input (s\<lparr>pg_ipc_taken := n\<rparr>)" "server_ok (s\<lparr>pg_ipc_taken := n\<rparr>)" for n
    using ipc_task.IH run_server_ok [OF ipc_task.hyps(1)] by (auto intro: stdio_ok_same server_ok_same)
  with ipc_task.IH show ?case by (simp add: pg_ipc_task_def stdio_ok_message split: prod.split)
next
  case (complete reqs closed s r)
  from run_server_ok [OF complete.hyps(1)] obtain calls where
    run: "server_run (received (pg_routes s)) calls (pg_server s)"
    and d: "pg_delivered s \<le> length (srv_sent (pg_server s))" by (auto simp: server_ok_def)
  have "stdio_answers (pg_complete r s) = stdio_answers s"
    using run_sent_grows(2) [OF run, of r] d by (auto simp: stdio_answers_def pg_complete_def)
  with complete.IH show ?case by (simp add: stdio_ok_def) (simp add: pg_complete_def routed_stdin_def)
next
  case (deliver reqs closed s os)
  obtain cb r where x: "srv_sent (pg_server s) ! pg_delivered s = (cb, r)" by fastforce
  have "pg_delivered s < length (srv_sent (pg_server s))"
    using run_server_ok [OF deliver.hyps(1)] deliver.hyps(2) by (simp add: server_ok_def pg_idle_def)
  with x have answers: "stdio_answers (pg_deliver L os s) =
      stdio_answers s @ (if snd (pg_routes s ! cb) = ToStdio then [(cb, r)] else [])"
    by (simp add: stdio_answers_def take_Suc_conv_app_nth)
  moreover have "pg_stdout (pg_deliver L os s) =
      (if snd (pg_routes s ! cb) = ToStdio then StdioSendResponse L r (pg_stdout s) else pg_stdout s)"
    using x by (simp add: pg_deliver_def Let_def split: route.split)
  moreover have "routed_stdin (pg_deliver L os s) = routed_stdin s" by (simp add: routed_stdin_def)
  ultimately show ?case using deliver.IH by (simp add: stdio_ok_def)
next
  case (http_reply reqs closed s)
  from http_reply.IH show ?case by (rule stdio_ok_same) simp_all
qed (simp_all add: stdio_ok_def stdio_answers_def routed_stdin_def SetController_def)

section \<open>How many answers an HTTP connection gets\<close>

text \<open>The messages of a connection that the server still owes an answer, or owes its delivery.\<close>

definition owed_calls :: "int \<Rightarrow> 'c program \<Rightarrow> nat set" where
  "owed_calls c s =
     {cb. cb < length (pg_routes s) \<and> snd (pg_routes s ! cb) = ToHttp c \<and>
          cb \<notin> fst ` set (take (pg_delivered s) (srv_sent (pg_server s)))}"

lemma owed_calls_finite [simp]: "finite (owed_calls c s)"
  by (rule finite_subset [of _ "{..< length (pg_routes s)}"]) (auto simp: owed_calls_def)

lemma owed_calls_simps [simp]:
  "owed_calls c (s\<lparr>pg_http := h\<rparr>) = owed_calls c s" "owed_calls c (s\<lparr>pg_replies := rs\<rparr>) = owed_calls c s"
  "owed_calls c (s\<lparr>pg_stdin := ts\<rparr>) = owed_calls c s" "owed_calls c (s\<lparr>pg_ipc_taken := n\<rparr>) = owed_calls c s"
  "owed_calls c (s\<lparr>pg_ipc := i\<rparr>) = owed_calls c s"
  by (simp_all add: owed_calls_def)

lemma pg_message_fields [simp]:
  "pg_http (pg_message m r s) = pg_http s" "pg_replies (pg_message m r s) = pg_replies s"
  "pg_stdin (pg_message m r s) = pg_stdin s" "pg_ipc (pg_message m r s) = pg_ipc s"
  "pg_ipc_taken (pg_message m r s) = pg_ipc_taken s" "pg_delivered (pg_message m r s) = pg_delivered s"
  by (simp_all add: pg_message_def)

lemma owed_calls_message:
  assumes "server_ok s"
  shows "card (owed_calls c (pg_message m r s)) = card (owed_calls c s) + of_bool (r = ToHttp c)"
proof -
  from assms obtain calls where run: "server_run (received (pg_routes s)) calls (pg_server s)"
    and d: "pg_delivered s \<le> length (srv_sent (pg_server s))" by (auto simp: server_ok_def)
  let ?n = "length (pg_routes s)"
  have taken: "take (pg_delivered s) (srv_sent (OnMessage m ?n (pg_server s))) = take (pg_delivered s) (srv_sent (pg_server s))"
    using run_sent_grows(1) [OF run, of m ?n] d by auto
  have "?n \<notin> fst ` set (take (pg_delivered s) (srv_sent (pg_server s)))"
    using run_sent_received(1) [OF run] by (fastforce simp: received_fst dest: in_set_takeD)
  then have "owed_calls c (pg_message m r s) = (if r = ToHttp c then insert ?n (owed_calls c s) else owed_calls c s)"
    using taken by (auto simp: owed_calls_def pg_message_def nth_append less_Suc_eq)
  moreover have "?n \<notin> owed_calls c s" by (simp add: owed_calls_def)
  ultimately show ?thesis by simp
qed

lemma owed_calls_deliver:
  assumes "server_ok s" "\<not> pg_idle s" "srv_sent (pg_server s) ! pg_delivered s = (cb, r)"
  shows "card (owed_calls c s) = card (owed_calls c (pg_deliver L os s)) + of_bool (snd (pg_routes s ! cb) = ToHttp c)"
proof -
  note now = next_answer [OF assms]
  have "pg_delivered s < length (srv_sent (pg_server s))" using assms(1,2) by (simp add: server_ok_def pg_idle_def)
  with assms(3) have "owed_calls c (pg_deliver L os s) = owed_calls c s - {cb}"
    by (auto simp: owed_calls_def take_Suc_conv_app_nth)
  moreover have "cb \<in> owed_calls c s \<longleftrightarrow> snd (pg_routes s ! cb) = ToHttp c" using now(1,3) by (simp add: owed_calls_def)
  moreover have "cb \<in> owed_calls c s \<Longrightarrow> card (owed_calls c s) > 0" by (metis card_gt_0_iff empty_iff owed_calls_finite)
  ultimately show ?thesis by (cases "cb \<in> owed_calls c s") simp_all
qed

abbreviation count_of :: "int \<Rightarrow> (int \<times> 'a) list \<Rightarrow> nat" where
  "count_of c xs \<equiv> count_list (map fst xs) c"

definition http_total :: "int \<Rightarrow> 'c program \<Rightarrow> nat" where
  "http_total c s =
     count_of c (http_sent (pg_http s)) + count_list (map snd (http_posted (pg_http s))) c +
     count_of c (pg_replies s) + card (owed_calls c s)"

definition http_counted :: "(int \<times> http_request) list \<Rightarrow> int set \<Rightarrow> 'c program \<Rightarrow> bool" where
  "http_counted reqs closed s \<longleftrightarrow>
     (\<forall>c. c \<notin> closed \<longrightarrow>
        (c \<in> fst ` set reqs \<longrightarrow> c \<in> http_open (pg_http s)) \<and> http_total c s = count_of c reqs)"

lemma http_counted_same:
  assumes "http_counted reqs closed s" "http_open (pg_http t) = http_open (pg_http s)"
    "\<And>c. c \<notin> closed \<Longrightarrow> http_total c t = http_total c s"
  shows "http_counted reqs closed t"
  using assms by (simp add: http_counted_def)

lemma SendMCPResponse_open:
  "c \<in> http_open h \<Longrightarrow> \<exists>r. SendMCPResponse L c resp h = h\<lparr>http_sent := http_sent h @ [(c, r)]\<rparr>"
  by (auto simp: SendMCPResponse_def SendTextResponse_def server_SendResponse_def split: option.split)

lemma OnHttpRequest_open:
  "c \<in> http_open h \<Longrightarrow>
     (\<exists>r. OnHttpRequest L c info h = h\<lparr>http_sent := http_sent h @ [(c, r)]\<rparr>) \<or>
     (\<exists>m. OnHttpRequest L c info h = h\<lparr>http_posted := http_posted h @ [(m, c)]\<rparr>)"
  by (auto simp: OnHttpRequest_def SendTextResponse_def server_SendResponse_def split: option.split)

lemma http_counted_request:
  assumes "http_counted reqs closed s" "c \<in> http_open (pg_http s)"
    and "(\<exists>r. h = (pg_http s)\<lparr>http_sent := http_sent (pg_http s) @ [(c, r)]\<rparr>) \<or>
         (\<exists>m. h = (pg_http s)\<lparr>http_posted := http_posted (pg_http s) @ [(m, c)]\<rparr>)"
  shows "http_counted (reqs @ [(c, info)]) closed (s\<lparr>pg_http := h\<rparr>)"
  using assms by (auto simp: http_counted_def http_total_def)

lemma http_counted_message:
  assumes "http_counted reqs closed s" "server_ok s" "r \<in> {ToStdio, ToIpc g}"
  shows "http_counted reqs closed (pg_message m r s)"
  by (rule http_counted_same [OF assms(1)])
    (use assms(3) owed_calls_message [OF assms(2), of _ m r] in \<open>auto simp: http_total_def\<close>)

lemma http_counted_reply:
  assumes "http_counted reqs closed s"
  shows "http_counted reqs closed (pg_http_reply L s)"
proof (cases "pg_replies s")
  case (Cons x replies)
  obtain c resp where x: "x = (c, resp)" by fastforce
  have sent: "d \<notin> closed \<Longrightarrow> count_of d (http_sent (SendMCPResponse L c resp (pg_http s))) =
      count_of d (http_sent (pg_http s)) + of_bool (d = c)" for d
  proof (cases "c \<in> closed")
    case True
    then show "d \<notin> closed \<Longrightarrow> ?thesis"
      using SendMCPResponse_once [of c "pg_http s" L resp] by (auto simp: answers_once_def)
  next
    case False
    with assms Cons x have "0 < count_of c reqs" by (fastforce simp: http_counted_def http_total_def)
    then have "c \<in> fst ` set reqs" by (metis count_notin image_set less_irrefl)
    with assms False have "c \<in> http_open (pg_http s)" by (simp add: http_counted_def)
    from SendMCPResponse_open [OF this, of L resp] show ?thesis by auto
  qed
  show ?thesis
    by (rule http_counted_same [OF assms]) (simp_all add: pg_http_reply_def Cons x http_total_def sent http_effects)
qed (use assms in \<open>simp add: pg_http_reply_def\<close>)

lemma http_counted_task:
  assumes "http_counted reqs closed s" "server_ok s"
  shows "http_counted reqs closed (pg_http_task s)"
proof (cases "http_posted (pg_http s)")
  case (Cons x tasks)
  obtain m c where x: "x = (m, c)" by fastforce
  let ?s = "s\<lparr>pg_http := (pg_http s)\<lparr>http_posted := tasks\<rparr>\<rparr>"
  have "server_ok ?s" using assms(2) by (rule server_ok_same) simp_all
  note owed_calls_message [OF this, of _ m "ToHttp c"]
  then show ?thesis
    by (intro http_counted_same [OF assms(1)]) (auto simp: pg_http_task_def Cons x http_total_def)
qed (use assms in \<open>simp add: pg_http_task_def\<close>)

lemma http_counted_deliver:
  assumes "http_counted reqs closed s" "server_ok s" "\<not> pg_idle s"
  shows "http_counted reqs closed (pg_deliver L os s)"
proof (rule http_counted_same [OF assms(1)])
  obtain cb r where x: "srv_sent (pg_server s) ! pg_delivered s = (cb, r)" by fastforce
  have "count_of c (pg_replies (pg_deliver L os s)) = count_of c (pg_replies s) + of_bool (snd (pg_routes s ! cb) = ToHttp c)" for c
    using x by (simp add: pg_deliver_def Let_def split: route.split)
  with owed_calls_deliver [OF assms(2,3) x, of _ L os] show "http_total c (pg_deliver L os s) = http_total c s" for c
    by (simp add: http_total_def)
qed simp

lemma run_http_counted: "program_run C L env line input reqs closed s \<Longrightarrow> http_counted reqs closed s"
proof (induction rule: program_run.induct)
  case (start tools E controller a)
  have "http_posted (app_http a) = [] \<and> http_sent (app_http a) = []"
  proof (cases "cl_has C line kMcpHttpPortSwitch")
    case True
    with AppStart_transports [OF start] obtain token where "http_run L token [] (app_http a)" by auto
    with run_owed show ?thesis by (fastforce simp: owed_def)
  qed (use AppStart_transports [OF start] in \<open>simp add: new_http_transport_def\<close>)
  then show ?case by (simp add: http_counted_def http_total_def program_of_def owed_calls_def)
next
  case (connect reqs closed s c)
  then show ?case by (auto simp: http_counted_def http_total_def OnConnect_def)
next
  case (close reqs closed s c)
  then show ?case by (auto simp: http_counted_def http_total_def OnClose_def)
next
  case (request reqs closed s c info)
  show ?case by (rule http_counted_request [OF request.IH request.hyps(3) OnHttpRequest_open [OF request.hyps(3)]])
next
  case (websocket reqs closed s c info)
  then show ?case
    by (intro http_counted_request)
      (auto simp: OnWebSocketRequest_def SendTextResponse_def server_SendResponse_def)
next
  case (http_reply reqs closed s)
  then show ?case by (simp add: http_counted_reply)
next
  case (stdin_task reqs closed s Shutdown)
  have ok: "http_counted reqs closed (s\<lparr>pg_stdin := ts\<rparr>)" "server_ok (s\<lparr>pg_stdin := ts\<rparr>)" for ts
    using stdin_task.IH run_server_ok [OF stdin_task.hyps(1)] by (simp_all add: server_ok_def http_counted_def http_total_def)
  have "http_counted reqs closed (s\<lparr>pg_stdin := ts, pg_server := OnTransportClosed Shutdown (pg_server s)\<rparr>)" for ts
    using stdin_task.IH by (simp add: http_counted_def http_total_def owed_calls_def)
  with ok stdin_task.IH show ?case
    by (auto simp: pg_stdin_task_def split: list.split main_task.split intro!: http_counted_message)
next
  case (http_task reqs closed s)
  then show ?case by (simp add: http_counted_task run_server_ok)
next
  case (ipc_task reqs closed s)
  have "http_counted reqs closed (s\<lparr>pg_ipc_taken := n\<rparr>)" "server_ok (s\<lparr>pg_ipc_taken := n\<rparr>)" for n
    using ipc_task.IH run_server_ok [OF ipc_task.hyps(1)] by (simp_all add: server_ok_def http_counted_def http_total_def)
  with ipc_task.IH show ?case
    by (auto simp: pg_ipc_task_def split: prod.split intro!: http_counted_message)
next
  case (complete reqs closed s r)
  from run_server_ok [OF complete.hyps(1)] obtain calls where
    run: "server_run (received (pg_routes s)) calls (pg_server s)"
    and d: "pg_delivered s \<le> length (srv_sent (pg_server s))" by (auto simp: server_ok_def)
  have "owed_calls c (pg_complete r s) = owed_calls c s" for c
    using run_sent_grows(2) [OF run, of r] d by (auto simp: owed_calls_def pg_complete_def)
  then show ?case by (intro http_counted_same [OF complete.IH]) (simp_all add: http_total_def, simp_all add: pg_complete_def)
next
  case (deliver reqs closed s os)
  then show ?case by (simp add: http_counted_deliver run_server_ok)
qed (simp_all add: http_counted_def http_total_def, simp_all add: owed_calls_def)

section \<open>A program at rest\<close>

text \<open>Nothing is left to do: no task, no tool call, no callback and no answer is pending.\<close>

definition pg_settled :: "'c program \<Rightarrow> bool" where
  "pg_settled s \<longleftrightarrow>
     pg_idle s \<and> waiting (pg_server s) = [] \<and> pg_replies s = [] \<and> pg_stdin s = [] \<and>
     http_posted (pg_http s) = [] \<and> length (ipc_posted (pg_ipc s)) \<le> pg_ipc_taken s"

lemma settled_sent:
  assumes "server_ok s" "pg_settled s"
  shows "mset (map fst (srv_sent (pg_server s))) = mset [0..<length (pg_routes s)]"
proof -
  from assms(1) obtain calls where run: "server_run (received (pg_routes s)) calls (pg_server s)" by (auto simp: server_ok_def)
  from run_accounted [OF run] assms(2) show ?thesis by (simp add: accounted_def pg_settled_def received_fst)
qed

lemma settled_owed: "server_ok s \<Longrightarrow> pg_settled s \<Longrightarrow> owed_calls c s = {}"
  using arg_cong [OF settled_sent [of s], of set_mset]
  by (auto simp: owed_calls_def pg_settled_def pg_idle_def)

text \<open>
  The steps that remain, weighed so that each of them makes the weight smaller: a task makes a message
  of the server, an answered message makes a callback, a callback may make an answer on the HTTP thread.
\<close>

definition pg_weight :: "'c program \<Rightarrow> nat" where
  "pg_weight s =
     4 * (length (pg_stdin s) + length (http_posted (pg_http s)) + (length (ipc_posted (pg_ipc s)) - pg_ipc_taken s)) +
     3 * length (waiting (pg_server s)) + 2 * (length (srv_sent (pg_server s)) - pg_delivered s) + length (pg_replies s)"

lemma pg_weight_message:
  assumes "server_ok s"
  shows "pg_weight (pg_message m r s) \<le> pg_weight s + 3"
proof -
  from assms obtain calls where run: "server_run (received (pg_routes s)) calls (pg_server s)"
    and d: "pg_delivered s \<le> length (srv_sent (pg_server s))" by (auto simp: server_ok_def)
  let ?n = "length (pg_routes s)"
  let ?s' = "OnMessage m ?n (pg_server s)"
  have "size (accounted ?s') = Suc (size (accounted (pg_server s)))"
    using run_accounted [OF server_run.message [OF run, of ?n m]] run_accounted [OF run] by simp
  then have "length (srv_sent ?s') + length (waiting ?s') = Suc (length (srv_sent (pg_server s)) + length (waiting (pg_server s)))"
    by (simp add: accounted_def)
  moreover obtain rs where "srv_sent ?s' = srv_sent (pg_server s) @ rs" using run_sent_grows(1) [OF run] by blast
  ultimately show ?thesis using d by (simp add: pg_weight_def) (simp add: pg_message_def)
qed

lemma pg_weight_complete:
  assumes "server_ok s" "srv_bound (pg_server s) \<noteq> []"
  shows "pg_weight (pg_complete r s) < pg_weight s"
proof -
  from assms obtain calls where run: "server_run (received (pg_routes s)) calls (pg_server s)"
    and d: "pg_delivered s \<le> length (srv_sent (pg_server s))" by (auto simp: server_ok_def)
  let ?s' = "run_bound_callback r (pg_server s)"
  have "size (accounted ?s') = size (accounted (pg_server s))"
    using run_accounted [OF server_run.complete [OF run assms(2), of r]] run_accounted [OF run] by simp
  then have "length (srv_sent ?s') + length (waiting ?s') = length (srv_sent (pg_server s)) + length (waiting (pg_server s))"
    by (simp add: accounted_def)
  moreover have "length (waiting ?s') < length (waiting (pg_server s))"
    using run_bound_callback_loop [OF loop_ok_run [OF run] assms(2)] by blast
  ultimately show ?thesis using d by (simp add: pg_weight_def pg_complete_def)
qed

lemma pg_weight_deliver:
  assumes "server_ok s" "\<not> pg_idle s"
  shows "pg_weight (pg_deliver L os s) < pg_weight s"
proof -
  have "pg_delivered s < length (srv_sent (pg_server s))" using assms by (simp add: server_ok_def pg_idle_def)
  moreover have "length (pg_replies (pg_deliver L os s)) \<le> Suc (length (pg_replies s))"
    "ipc_posted (pg_ipc (pg_deliver L os s)) = ipc_posted (pg_ipc s)"
    by (simp_all add: pg_deliver_def Let_def IpcSendResponse_posted split: prod.split route.split)
  ultimately show ?thesis by (simp add: pg_weight_def)
qed

lemma pg_weight_reply: "pg_replies s \<noteq> [] \<Longrightarrow> pg_weight (pg_http_reply L s) < pg_weight s"
  by (cases "pg_replies s") (auto simp: pg_http_reply_def pg_weight_def http_effects split: prod.split)

lemma server_ok_updates [simp]:
  "server_ok (s\<lparr>pg_stdin := ts\<rparr>) = server_ok s" "server_ok (s\<lparr>pg_http := h\<rparr>) = server_ok s"
  "server_ok (s\<lparr>pg_ipc_taken := n\<rparr>) = server_ok s"
  by (simp_all add: server_ok_def)

lemma pg_weight_tasks:
  assumes "server_ok s"
  shows "pg_stdin s \<noteq> [] \<Longrightarrow> pg_weight (pg_stdin_task Shutdown s) < pg_weight s"
    and "http_posted (pg_http s) \<noteq> [] \<Longrightarrow> pg_weight (pg_http_task s) < pg_weight s"
    and "pg_ipc_taken s < length (ipc_posted (pg_ipc s)) \<Longrightarrow> pg_weight (pg_ipc_task s) < pg_weight s"
proof -
  assume "pg_stdin s \<noteq> []"
  then obtain t ts where t: "pg_stdin s = t # ts" by (cases "pg_stdin s") auto
  show "pg_weight (pg_stdin_task Shutdown s) < pg_weight s"
  proof (cases t)
    case (MessageTask m)
    then show ?thesis
      using pg_weight_message [of "s\<lparr>pg_stdin := ts\<rparr>" m ToStdio] assms
      by (simp add: pg_stdin_task_def t) (simp add: pg_weight_def t)
  qed (simp add: pg_stdin_task_def t pg_weight_def)
next
  assume "http_posted (pg_http s) \<noteq> []"
  then obtain m c ts where t: "http_posted (pg_http s) = (m, c) # ts" by (cases "http_posted (pg_http s)") auto
  show "pg_weight (pg_http_task s) < pg_weight s"
    using pg_weight_message [of "s\<lparr>pg_http := (pg_http s)\<lparr>http_posted := ts\<rparr>\<rparr>" m "ToHttp c"] assms
    by (simp add: pg_http_task_def t) (simp add: pg_weight_def t)
next
  assume taken: "pg_ipc_taken s < length (ipc_posted (pg_ipc s))"
  obtain m g src where t: "ipc_posted (pg_ipc s) ! pg_ipc_taken s = (m, g, src)" by (metis prod.exhaust)
  show "pg_weight (pg_ipc_task s) < pg_weight s"
    using pg_weight_message [of "s\<lparr>pg_ipc_taken := Suc (pg_ipc_taken s)\<rparr>" m "ToIpc g"] assms taken
    by (simp add: pg_ipc_task_def t) (simp add: pg_weight_def)
qed

text \<open>
  A step that is pending in a state and needs no new input: the main thread delivers a callback that the server
  ran, runs a task that a transport posted, or a tool completes in any way; the HTTP thread sends an answer it was given.
\<close>

inductive pg_pending :: "base_lib \<Rightarrow> 'c program \<Rightarrow> 'c program \<Rightarrow> bool" for L where
  deliver: "\<not> pg_idle s \<Longrightarrow> pg_pending L s (pg_deliver L os s)"
| http_reply: "pg_replies s \<noteq> [] \<Longrightarrow> pg_pending L s (pg_http_reply L s)"
| complete: "pg_idle s \<Longrightarrow> srv_bound (pg_server s) \<noteq> [] \<Longrightarrow> pg_pending L s (pg_complete r s)"
| stdin_task: "pg_idle s \<Longrightarrow> pg_stdin s \<noteq> [] \<Longrightarrow> pg_pending L s (pg_stdin_task Shutdown s)"
| http_task: "pg_idle s \<Longrightarrow> http_posted (pg_http s) \<noteq> [] \<Longrightarrow> pg_pending L s (pg_http_task s)"
| ipc_task: "pg_idle s \<Longrightarrow> pg_ipc_taken s < length (ipc_posted (pg_ipc s)) \<Longrightarrow> pg_pending L s (pg_ipc_task s)"

lemma pending_runs:
  "pg_pending L s s' \<Longrightarrow> program_run C L env line input reqs closed s \<Longrightarrow> program_run C L env line input reqs closed s'"
  by (induction rule: pg_pending.induct) (auto intro: program_run.intros)

lemma pending_weight: "pg_pending L s s' \<Longrightarrow> server_ok s \<Longrightarrow> pg_weight s' < pg_weight s"
  by (induction rule: pg_pending.induct)
    (auto intro: pg_weight_deliver pg_weight_reply pg_weight_complete pg_weight_tasks)

text \<open>Where nothing is pending, all is done: the server waits for nothing that will not come.\<close>

lemma not_pending_settled:
  assumes "program_run C L env line input reqs closed s" "\<nexists>s'. pg_pending L s s'"
  shows "pg_settled s"
proof -
  from run_server_ok [OF assms(1)] obtain calls where "server_run (received (pg_routes s)) calls (pg_server s)"
    by (auto simp: server_ok_def)
  note busy = loop_ok_run [OF this]
  from assms(2) have idle: "pg_idle s" "pg_replies s = []" using pg_pending.deliver pg_pending.http_reply by blast+
  moreover from assms(2) idle have "srv_bound (pg_server s) = []" "pg_stdin s = []" "http_posted (pg_http s) = []"
    "\<not> pg_ipc_taken s < length (ipc_posted (pg_ipc s))"
    using pg_pending.complete pg_pending.stdin_task pg_pending.http_task pg_pending.ipc_task by blast+
  ultimately show ?thesis using busy by (fastforce simp: pg_settled_def loop_ok_def waiting_def)
qed

lemma pending_runs_end:
  "(pg_pending L ^^ n) s s' \<Longrightarrow> program_run C L env line input reqs closed s \<Longrightarrow>
     program_run C L env line input reqs closed s' \<and> n + pg_weight s' \<le> pg_weight s"
proof (induction n arbitrary: s')
  case (Suc n)
  then obtain t where t: "(pg_pending L ^^ n) s t" "pg_pending L t s'" by auto
  with Suc.IH [OF t(1) Suc.prems(2)] have "program_run C L env line input reqs closed t" "n + pg_weight t \<le> pg_weight s" by auto
  with pending_runs [OF t(2)] pending_weight [OF t(2) run_server_ok] show ?case by fastforce
qed simp

lemma pending_settles:
  "program_run C L env line input reqs closed s \<Longrightarrow> \<exists>s'. (pg_pending L)\<^sup>*\<^sup>* s s' \<and> (\<nexists>s''. pg_pending L s' s'')"
proof (induction "pg_weight s" arbitrary: s rule: less_induct)
  case less
  show ?case
  proof (cases "\<exists>t. pg_pending L s t")
    case True
    then obtain t where t: "pg_pending L s t" ..
    from less.hyps [OF pending_weight [OF t run_server_ok [OF less.prems]] pending_runs [OF t less.prems]] t
    show ?thesis by (meson converse_rtranclp_into_rtranclp)
  qed blast
qed

lemma settled_counts:
  assumes "program_run C L env line input reqs closed s" "pg_settled s" "c \<notin> closed"
  shows "count_of c (http_sent (pg_http s)) = count_of c reqs"
  using assms run_http_counted [OF assms(1)] settled_owed [OF run_server_ok [OF assms(1)] assms(2)]
  by (simp add: http_counted_def http_total_def pg_settled_def)

section \<open>A run for the witnesses\<close>

text \<open>A client of each transport sends a \<open>ping\<close>, and the three are answered.\<close>

definition program_lib :: base_lib where
  "program_lib = port_lib\<lparr>lib_json_read := (\<lambda>s. if s = ''ping'' then Some [(''method'', JString ''ping''), (''id'', JInt 7)] else None),
     lib_json_write := (\<lambda>v. Some ''pong'')\<rparr>"

definition ping_request :: http_request where
  "ping_request = (demo_http_request ''Bearer secret'')\<lparr>req_data := ''ping''\<rparr>"

definition ping_line :: string where
  "ping_line = ''ping'' @ [newline]"

definition ping_answers :: "os_answer list" where
  "ping_answers = butlast demo_answers @ [quiet\<lparr>os_recv := Some ping_line\<rparr>]"

definition demo_app :: "unit app" where
  "demo_app = the (AppStart list_cl program_lib (fold RegisterTool []) demo_start_env demo_vars demo_line () new_app)"

definition demo_p0 :: "unit program" where
  "demo_p0 = program_of program_lib ping_line demo_app"

definition demo_p1 :: "unit program" where
  "demo_p1 = demo_p0\<lparr>pg_http := OnConnect 1 (pg_http demo_p0)\<rparr>"

definition demo_p2 :: "unit program" where
  "demo_p2 = demo_p1\<lparr>pg_http := OnHttpRequest program_lib 1 ping_request (pg_http demo_p1)\<rparr>"

definition demo_p3 :: "unit program" where
  "demo_p3 = demo_p2\<lparr>pg_ipc := fold (loop_step program_lib) ping_answers (pg_ipc demo_p2)\<rparr>"

definition demo_p4 :: "unit program" where
  "demo_p4 = pg_deliver program_lib [] (pg_stdin_task id demo_p3)"

definition demo_p5 :: "unit program" where
  "demo_p5 = pg_http_reply program_lib (pg_deliver program_lib [] (pg_http_task demo_p4))"

definition demo_p6 :: "unit program" where
  "demo_p6 = pg_stdin_task id (pg_deliver program_lib [SendBytes 2, SendBytes 3] (pg_ipc_task demo_p5))"

abbreviation demo_program_run :: "(int \<times> http_request) list \<Rightarrow> unit program \<Rightarrow> bool" where
  "demo_program_run reqs \<equiv> program_run list_cl program_lib demo_vars demo_line ping_line reqs {}"

lemma program_loop_steps:
  "program_run C L env line input reqs closed s \<Longrightarrow> os_answers_ok L as (pg_ipc s) \<Longrightarrow>
   program_run C L env line input reqs closed (s\<lparr>pg_ipc := fold (loop_step L) as (pg_ipc s)\<rparr>)"
proof (induction as arbitrary: s)
  case (Cons a as)
  have "program_run C L env line input reqs closed (s\<lparr>pg_ipc := loop_step L a (pg_ipc s)\<rparr>)"
    using Cons.prems by (simp add: program_run.loop)
  from Cons.IH [OF this] Cons.prems show ?case by simp
qed simp

lemma demo_app_starts:
  "AppStart list_cl program_lib (fold RegisterTool []) demo_start_env demo_vars demo_line () new_app = Some demo_app"
proof -
  have "\<not> http_refused list_cl program_lib demo_start_env demo_vars demo_line"
    by (simp add: http_refused_def list_cl_def demo_line_def demo_vars_def demo_start_env_def port_lib_def program_lib_def
        IsAllowedHttpHost_def kMcpHttpHostSwitch_def kMcpHttpPortSwitch_def kMcpIpcPathSwitch_def)
  moreover have "\<not> ipc_refused list_cl demo_start_env demo_line" by code_simp
  ultimately have "AppStart list_cl program_lib (fold RegisterTool []) demo_start_env demo_vars demo_line () new_app \<noteq> None"
    by (simp add: AppStart_None)
  then show ?thesis unfolding demo_app_def by force
qed

lemma demo_p1_facts: "http_running (pg_http demo_p1)" "1 \<in> http_open (pg_http demo_p1)"
  by (code_simp, code_simp)

lemma demo_p2_facts: "os_answers_ok program_lib ping_answers (pg_ipc demo_p2)"
  by code_simp

lemma demo_p3_idle: "pg_idle demo_p3" "\<not> pg_idle (pg_stdin_task id demo_p3)"
  by (code_simp, code_simp)

lemma demo_p4_idle: "pg_idle demo_p4" "\<not> pg_idle (pg_http_task demo_p4)"
  by (code_simp, code_simp)

lemma demo_p5_idle: "pg_idle demo_p5" "\<not> pg_idle (pg_ipc_task demo_p5)"
  "pg_idle (pg_deliver program_lib [SendBytes 2, SendBytes 3] (pg_ipc_task demo_p5))"
  by (code_simp, code_simp, code_simp)

lemma demo_program_runs:
  "demo_program_run [(1, ping_request)] demo_p3" "demo_program_run [(1, ping_request)] demo_p6"
proof -
  have "demo_program_run [] demo_p0"
    unfolding demo_p0_def by (rule program_run.start [OF demo_app_starts])
  then have "demo_program_run [] demo_p1" unfolding demo_p1_def by (rule program_run.connect)
  from program_run.request [OF this demo_p1_facts] have "demo_program_run [(1, ping_request)] demo_p2"
    by (simp add: demo_p2_def)
  then show 3: "demo_program_run [(1, ping_request)] demo_p3"
    unfolding demo_p3_def using demo_p2_facts by (rule program_loop_steps)
  have "demo_program_run [(1, ping_request)] demo_p4"
    unfolding demo_p4_def by (intro program_run.deliver program_run.stdin_task 3 demo_p3_idle)
  then have "demo_program_run [(1, ping_request)] demo_p5"
    unfolding demo_p5_def by (intro program_run.http_reply program_run.deliver program_run.http_task demo_p4_idle)
  then show "demo_program_run [(1, ping_request)] demo_p6"
    unfolding demo_p6_def by (intro program_run.stdin_task program_run.deliver program_run.ipc_task demo_p5_idle)
qed

section \<open>Properties\<close>

text \<open>
  C2: an answer with a JSON body leaves the program over HTTP only on a connection that sent, itself,
  an accepted request (to \<open>/mcp\<close>, with the token of the environment, from a loopback origin or none), and it
  is the server's answer to that request: it bears its id. This holds for every order of the threads' steps, whatever the
  other transports carry and whatever the tools do.
\<close>

theorem http_answers_are_authorised:
  assumes "program_run C L env line input reqs closed s"
    and "(c, r) \<in> set (http_sent (pg_http s))" "resp_status r = 200"
  shows "\<exists>token info m resp. env kMcpHttpTokenEnv = Some token \<and> token \<noteq> [] \<and>
    (c, info) \<in> set reqs \<and> http_accepts L token info m \<and>
    answer_ok m (Some resp) \<and> lib_json_write L (JDict resp) = Some (resp_body r)"
proof -
  from run_replies_ok [OF assms(1)] assms(2,3) obtain m resp where
    "(m, ToHttp c) \<in> set (pg_routes s)" "answer_ok m (Some resp)" "lib_json_write L (JDict resp) = Some (resp_body r)"
    by (fastforce simp: replies_ok_def sent_ok_def answers_connection_def)
  moreover from run_http_ok [OF assms(1)] this(1) have
    "http_running (pg_http s)" "http_origin_ok L (http_token (pg_http s)) reqs m c"
    by (auto simp: http_ok_def)
  ultimately show ?thesis
    using run_http_ok [OF assms(1)] by (fastforce simp: http_ok_def http_origin_ok_def)
qed

theorem http_answers_are_authorised_witness:
  "\<exists>token info m resp. demo_vars kMcpHttpTokenEnv = Some token \<and> token \<noteq> [] \<and>
    (1, info) \<in> set [(1, ping_request)] \<and> http_accepts program_lib token info m \<and>
    answer_ok m (Some resp) \<and> lib_json_write program_lib (JDict resp) = Some ''pong''"
proof -
  let ?r = "\<lparr>resp_status = 200, resp_headers = [(''Cache-Control'', ''no-store'')], resp_body = ''pong'',
     resp_content_type = ''application/json''\<rparr>"
  have "(1, ?r) \<in> set (http_sent (pg_http demo_p6))" by code_simp
  from http_answers_are_authorised [OF demo_program_runs(2) this] show ?thesis by simp
qed

text \<open>
  C7: what is written to a socket connection is the beginning of the serialised answer to a message that this
  very connection sent, whole lines of other clients or transports never appear on it.
\<close>

theorem socket_answers_are_own:
  assumes "program_run C L env line input reqs closed s" "ipc_conn (pg_ipc s) < 2 ^ 64"
    and "(g, n, bytes) \<in> set (ipc_written (pg_ipc s))"
  shows "\<exists>m src resp rest. (m, g, src) \<in> set (ipc_posted (pg_ipc s)) \<and> set src \<subseteq> {n} \<and>
    answer_ok m (Some resp) \<and> SerializeMCPTransportMessage L resp = Some (bytes @ rest)"
proof -
  note ok = run_ipc_ok [OF assms(1)]
  from ok assms(3) obtain m resp rest src where *: "(m, g, src) \<in> set (ipc_posted (pg_ipc s))"
    "answer_ok m (Some resp)" "SerializeMCPTransportMessage L resp = Some (bytes @ rest)"
    unfolding ipc_ok_def write_ok_def by fast
  have "pg_ipc s \<noteq> new_ipc_transport" using assms(3) by (auto simp: new_ipc_transport_def)
  with ok have "generations_ok (pg_ipc s)" using ipc_run_invariants by (auto simp: ipc_ok_def)
  then have "set src \<subseteq> {n}" using gens_home [OF _ assms(2) *(1) _ assms(3)] by (auto simp: generations_ok_def)
  with * show ?thesis by blast
qed

theorem socket_answers_are_own_witness:
  "\<exists>m src resp rest. (m, 1, src) \<in> set (ipc_posted (pg_ipc demo_p6)) \<and> set src \<subseteq> {1} \<and>
    answer_ok m (Some resp) \<and> SerializeMCPTransportMessage program_lib resp = Some ((''pong'' @ [newline]) @ rest)"
proof (rule socket_answers_are_own [OF demo_program_runs(2)])
  have "ipc_conn (pg_ipc demo_p6) = 1" by code_simp
  then show "ipc_conn (pg_ipc demo_p6) < 2 ^ 64" by simp
  show "(1, 1, ''pong'' @ [newline]) \<in> set (ipc_written (pg_ipc demo_p6))" by code_simp
qed

text \<open>
  C6: at rest, the standard output holds exactly one answer to each message of the standard input and
  nothing else: the answers, in an order of their own, fit the messages one to one.
\<close>

theorem stdio_session_complete:
  assumes "program_run C L env line input reqs closed s" "pg_settled s"
  shows "\<exists>answers fitting. pg_stdout s = fold (StdioSendResponse L) answers [] \<and> mset fitting = mset answers \<and>
    list_all2 answer_ok (List.map_filter (ParseMCPTransportLine L) (getlines [] input)) fitting"
proof -
  let ?sent = "srv_sent (pg_server s)" and ?n = "length (pg_routes s)"
  let ?P = "\<lambda>cb. snd (pg_routes s ! cb) = ToStdio"
  let ?answer = "\<lambda>cb. the (map_of ?sent cb)"
  note ok = run_server_ok [OF assms(1)] and io = run_stdio_ok [OF assms(1)]
  note sent = settled_sent [OF ok assms(2)]
  have "distinct (map fst ?sent)" using mset_eq_imp_distinct_iff [OF sent] by simp
  then have answers: "map snd (stdio_answers s) = map ?answer (filter ?P (map fst ?sent))"
    using assms(2)
    by (auto simp: stdio_answers_def pg_settled_def pg_idle_def filter_map o_def case_prod_unfold intro!: map_cong)
  have "mset (map ?answer (filter ?P [0..<?n])) = mset (map snd (stdio_answers s))"
    unfolding answers by (simp only: mset_map mset_filter sent [unfolded mset_map])
  moreover have "list_all2 answer_ok (routed_stdin s) (map ?answer (filter ?P [0..<?n]))"
  proof -
    have "routed_stdin s = map (\<lambda>cb. fst (pg_routes s ! cb)) (filter ?P [0..<?n])"
      unfolding routed_stdin_def by (subst filter_nth) (simp add: case_prod_unfold)
    moreover from ok obtain calls where "server_run (received (pg_routes s)) calls (pg_server s)" by (auto simp: server_ok_def)
    then have log: "log_ok (received (pg_routes s)) (pg_server s)" by (rule run_log_ok)
    have "answer_ok (fst (pg_routes s ! cb)) (?answer cb)" if "cb < ?n" for cb
    proof -
      have "cb \<in> set (map fst ?sent)" using arg_cong [OF sent, of set_mset] that by simp
      with \<open>distinct (map fst ?sent)\<close> obtain r where "(cb, r) \<in> set ?sent" "?answer cb = r" by force
      with log show ?thesis by (auto simp: log_ok_def received_iff)
    qed
    ultimately show ?thesis by (auto simp: list_all2_map1 list_all2_map2 list_all2_same)
  qed
  moreover have "routed_stdin s = List.map_filter (ParseMCPTransportLine L) (getlines [] input)"
  proof -
    from io assms(2) have "routed_stdin s = stdin_messages (ReadLoop L True input)" by (simp add: stdio_ok_def pg_settled_def)
    then show ?thesis by (simp add: stdin_messages_def ReadLoop_def o_def)
  qed
  moreover from io have "pg_stdout s = fold (StdioSendResponse L) (map snd (stdio_answers s)) []"
    by (simp add: stdio_ok_def)
  ultimately show ?thesis by metis
qed

theorem stdio_session_complete_witness:
  "\<exists>answers fitting. pg_stdout demo_p6 = fold (StdioSendResponse program_lib) answers [] \<and> mset fitting = mset answers \<and>
    list_all2 answer_ok (List.map_filter (ParseMCPTransportLine program_lib) (getlines [] ping_line)) fitting"
  by (rule stdio_session_complete [OF demo_program_runs(2)]) code_simp

text \<open>
  C4: no request starves. From every state the program can reach, the steps that are pending there, taken in any
  order and with tools that complete in any way, come to an end after at most \<open>pg_weight\<close> many, and they can
  only end where all is done: nothing is queued, posted or undelivered, and every HTTP connection that was
  not closed has got exactly as many responses as it sent requests.
\<close>

theorem requests_are_all_answered:
  fixes s :: "'c program"
  assumes "program_run C L env line input reqs closed s"
  shows "(\<exists>s'. (pg_pending L)\<^sup>*\<^sup>* s s' \<and> (\<nexists>s''. pg_pending L s' s'')) \<and>
    (\<forall>n s'. (pg_pending L ^^ n) s s' \<longrightarrow> n \<le> pg_weight s \<and>
       ((\<exists>s''. pg_pending L s' s'') \<or>
        pg_settled s' \<and> (\<forall>c. c \<notin> closed \<longrightarrow> count_of c (http_sent (pg_http s')) = count_of c reqs)))"
proof (intro conjI allI impI)
  show "\<exists>s'. (pg_pending L)\<^sup>*\<^sup>* s s' \<and> (\<nexists>s''. pg_pending L s' s'')" by (rule pending_settles [OF assms])
  fix n and s' :: "'c program" assume n: "(pg_pending L ^^ n) s s'"
  note run = pending_runs_end [OF n assms]
  then show "n \<le> pg_weight s" by linarith
  show "(\<exists>s''. pg_pending L s' s'') \<or>
      pg_settled s' \<and> (\<forall>c. c \<notin> closed \<longrightarrow> count_of c (http_sent (pg_http s')) = count_of c reqs)"
    using not_pending_settled [OF conjunct1 [OF run]] settled_counts [OF conjunct1 [OF run]] by blast
qed

theorem requests_are_all_answered_witness:
  "\<exists>s'. (pg_pending program_lib)\<^sup>*\<^sup>* demo_p3 s' \<and> pg_settled s' \<and> count_of 1 (http_sent (pg_http s')) = 1"
proof -
  note all = requests_are_all_answered [OF demo_program_runs(1)]
  from conjunct1 [OF all] obtain s' where s': "(pg_pending program_lib)\<^sup>*\<^sup>* demo_p3 s'" "\<nexists>s''. pg_pending program_lib s' s''" by blast
  then obtain n where "(pg_pending program_lib ^^ n) demo_p3 s'" by (auto simp: rtranclp_power)
  with conjunct2 [OF all] s' show ?thesis by fastforce
qed

end
