(* ===== verification/Behavior.thy ===== *)
theory Behavior
  imports Input
begin

section \<open>The simulated mouse (\<open>BehaviorSimulator\<close> in \<open>core/browser_controller.cc\<close>)\<close>

text \<open>
  While a session runs, the mouse of the active page drifts: a timer moves it a little and forwards the
  move to the page. The drift needs more of \<open>double\<close> than the paths of the input operations:
  \<open>f64_drift\<close> adds the comparison, the trigonometric functions and the conversion from \<open>int\<close>. What the
  theorem relies on is that integers which a \<open>double\<close> represents exactly compare as they should
  (\<open>literal_order_law\<close>). A
  \<open>sim_input\<close> is what a tick asks of the outside: two random numbers of [0, 1), one of 0 to 80, and
  whether the page has a widget and is not being destroyed.
\<close>

record f64_drift = f64_ops +
  f_less :: "f64 \<Rightarrow> f64 \<Rightarrow> bool"
  f_sin :: "f64 \<Rightarrow> f64"
  f_cos :: "f64 \<Rightarrow> f64"
  f_of_int :: "c_int \<Rightarrow> f64"

definition literal_order_law :: "f64_drift \<Rightarrow> bool" where
  "literal_order_law F \<longleftrightarrow> 
     (\<forall>a b. \<bar>a\<bar> \<le> 2 ^ 53 \<longrightarrow> \<bar>b\<bar> \<le> 2 ^ 53 \<longrightarrow> (f_less F (f_lit F a 1) (f_lit F b 1) \<longleftrightarrow> a < b))"

record behavior_simulator =
  bs_web_contents :: "web_contents option"
  bs_mouse_x :: f64
  bs_mouse_y :: f64
  bs_mouse_vx :: f64
  bs_mouse_vy :: f64
  bs_tick :: c_int
  bs_timer :: "int option"           \<comment> \<open>the milliseconds the timer is set to\<close>

record sim_input =
  si_x :: f64
  si_y :: f64
  si_next :: int
  si_widget :: bool
  si_being_destroyed :: bool

definition new_simulator :: "f64_drift \<Rightarrow> behavior_simulator" where
  "new_simulator F =
     \<lparr>bs_web_contents = None, bs_mouse_x = f_lit F 0 1, bs_mouse_y = f_lit F 0 1, bs_mouse_vx = f_lit F 0 1,
      bs_mouse_vy = f_lit F 0 1, bs_tick = 0, bs_timer = None\<rparr>"

definition ScheduleNext :: "int \<Rightarrow> behavior_simulator \<Rightarrow> behavior_simulator" where
  "ScheduleNext r s = s\<lparr>bs_timer := Some (70 + r)\<rparr>"

definition SimStart :: "f64_drift \<Rightarrow> sim_input \<Rightarrow> behavior_simulator \<Rightarrow> behavior_simulator" where
  "SimStart F i s =
     ScheduleNext (si_next i)
       (s\<lparr>bs_mouse_x := f_add F (f_lit F 400 1) (f_mul F (si_x i) (f_lit F 200 1)),
          bs_mouse_y := f_add F (f_lit F 300 1) (f_mul F (si_y i) (f_lit F 200 1))\<rparr>)"

definition UpdateWebContents :: "web_contents option \<Rightarrow> behavior_simulator \<Rightarrow> behavior_simulator" where
  "UpdateWebContents wc s = s\<lparr>bs_web_contents := wc\<rparr>"

definition SimWebContentsDestroyed :: "behavior_simulator \<Rightarrow> behavior_simulator" where
  "SimWebContentsDestroyed s = s\<lparr>bs_web_contents := None\<rparr>"

text \<open>\<open>std::clamp\<close>.\<close>

definition f_clamp :: "f64_drift \<Rightarrow> f64 \<Rightarrow> f64 \<Rightarrow> f64 \<Rightarrow> f64" where
  "f_clamp F v lo hi = (if f_less F v lo then lo else if f_less F hi v then hi else v)"

text \<open>One coordinate: its new speed and place. \<open>p/q\<close> are the literals of the source.\<close>

definition drift_speed :: "f64_drift \<Rightarrow> f64 \<Rightarrow> f64 \<Rightarrow> f64 \<Rightarrow> f64" where
  "drift_speed F v drift r =
     (let jitter = f_mul F (f_sub F r (f_lit F 1 2)) (f_lit F 3 1)
      in f_add F (f_mul F v (f_lit F 85 100)) (f_mul F (f_add F drift jitter) (f_lit F 15 100)))"

text \<open>
  \<open>None\<close>: the tick counter would overflow. The event has the coordinates before \<open>static_cast<float>\<close>, which
  rounds them; the bounds of the area are small integers, which it keeps.
\<close>

definition DispatchMouseMove ::
  "f64_drift \<Rightarrow> sim_input \<Rightarrow> behavior_simulator \<Rightarrow> (effect list \<times> behavior_simulator) option" where
  "DispatchMouseMove F i s =
     (if sint (bs_tick s) = 2 ^ 31 - 1 then None
      else
        let tick = bs_tick s + 1;
            drift_x = f_mul F (f_sin F (f_mul F (f_of_int F tick) (f_lit F 20 1000))) (f_lit F 8 10);
            drift_y = f_mul F (f_cos F (f_mul F (f_of_int F tick) (f_lit F 17 1000))) (f_lit F 6 10);
            vx = drift_speed F (bs_mouse_vx s) drift_x (si_x i);
            vy = drift_speed F (bs_mouse_vy s) drift_y (si_y i);
            x = f_clamp F (f_add F (bs_mouse_x s) vx) (f_lit F 10 1) (f_lit F 1910 1);
            y = f_clamp F (f_add F (bs_mouse_y s) vy) (f_lit F 10 1) (f_lit F 1070 1);
            events =
              (case bs_web_contents s of
                 None \<Rightarrow> []
               | Some wc \<Rightarrow>
                   if si_being_destroyed i \<or> \<not> si_widget i then []
                   else [MouseEvent wc kMouseMove \<lparr>pt_x = x, pt_y = y\<rparr>])
        in Some (events, ScheduleNext (si_next i)
             (s\<lparr>bs_tick := tick, bs_mouse_vx := vx, bs_mouse_vy := vy, bs_mouse_x := x, bs_mouse_y := y\<rparr>)))"

subsection \<open>A session\<close>

datatype sim_event = SimTick sim_input | SimObserve "web_contents option" | SimPageDestroyed

fun sim_run :: "f64_drift \<Rightarrow> sim_event list \<Rightarrow> behavior_simulator \<Rightarrow> (effect list \<times> behavior_simulator) option" where
  "sim_run F [] s = Some ([], s)"
| "sim_run F (SimTick i # es) s =
     (case DispatchMouseMove F i s of
        None \<Rightarrow> None
      | Some (out, s1) \<Rightarrow> map_option (\<lambda>(out', s2). (out @ out', s2)) (sim_run F es s1))"
| "sim_run F (SimObserve wc # es) s = sim_run F es (UpdateWebContents wc s)"
| "sim_run F (SimPageDestroyed # es) s = sim_run F es (SimWebContentsDestroyed s)"

definition on_screen :: "f64_drift \<Rightarrow> point \<Rightarrow> bool" where
  "on_screen F p \<longleftrightarrow>
     \<not> f_less F (pt_x p) (f_lit F 10 1) \<and> \<not> f_less F (f_lit F 1910 1) (pt_x p) \<and>
     \<not> f_less F (pt_y p) (f_lit F 10 1) \<and> \<not> f_less F (f_lit F 1070 1) (pt_y p)"

fun ticks :: "sim_event list \<Rightarrow> nat" where
  "ticks [] = 0"
| "ticks (SimTick i # es) = Suc (ticks es)"
| "ticks (e # es) = ticks es"

text \<open>The page that is observed at some moment of the session.\<close>

fun observed :: "sim_event list \<Rightarrow> web_contents option \<Rightarrow> web_contents set" where
  "observed [] wc = set_option wc"
| "observed (SimObserve wc' # es) wc = set_option wc \<union> observed es wc'"
| "observed (SimPageDestroyed # es) wc = set_option wc \<union> observed es None"
| "observed (SimTick i # es) wc = observed es wc"

lemma clamp_bounds:
  assumes "literal_order_law F" "a \<le> b" "\<bar>a\<bar> \<le> 2 ^ 53" "\<bar>b\<bar> \<le> 2 ^ 53"
  shows "\<not> f_less F (f_clamp F v (f_lit F a 1) (f_lit F b 1)) (f_lit F a 1) \<and>
    \<not> f_less F (f_lit F b 1) (f_clamp F v (f_lit F a 1) (f_lit F b 1))"
  using assms by (simp add: f_clamp_def literal_order_law_def)

lemma DispatchMouseMove_cases:
  assumes "literal_order_law F" "DispatchMouseMove F i s = Some (out, s')"
  shows "bs_web_contents s' = bs_web_contents s" "sint (bs_tick s') = sint (bs_tick s) + 1"
    "bs_timer s' = Some (70 + si_next i)"
    "out = [] \<or> (\<exists>wc p. bs_web_contents s = Some wc \<and> out = [MouseEvent wc kMouseMove p] \<and> on_screen F p)"
proof -
  from assms(2) have no: "sint (bs_tick s) \<noteq> 2 ^ 31 - 1" by (auto simp: DispatchMouseMove_def)
  have "sint (bs_tick s) < 2 ^ 31" using sint_lt [of "bs_tick s"] by simp
  with no have "sint (bs_tick s) < 2 ^ 31 - 1" by linarith
  moreover have "- (2 ^ 31) \<le> sint (bs_tick s)" using sint_ge [of "bs_tick s"] by simp
  ultimately have next_tick: "sint (bs_tick s + 1) = sint (bs_tick s) + 1"
    by (simp add: sint_word_ariths signed_take_bit_int_eq_self)
  from assms(2) show "bs_web_contents s' = bs_web_contents s" "sint (bs_tick s') = sint (bs_tick s) + 1"
    "bs_timer s' = Some (70 + si_next i)"
    using next_tick by (auto simp: DispatchMouseMove_def Let_def ScheduleNext_def split: if_splits)
  show "out = [] \<or> (\<exists>wc p. bs_web_contents s = Some wc \<and> out = [MouseEvent wc kMouseMove p] \<and> on_screen F p)"
    using assms(2) clamp_bounds [OF assms(1)]
    by (auto simp: DispatchMouseMove_def Let_def on_screen_def split: if_splits option.splits)
qed

lemma observed_now: "set_option wc \<subseteq> observed es wc"
  by (induction es wc rule: observed.induct) auto

lemma no_tick_no_timer: "sim_run F es s = Some (out, s') \<Longrightarrow> ticks es = 0 \<Longrightarrow> bs_timer s' = bs_timer s"
  by (induction F es s arbitrary: out rule: sim_run.induct)
    (simp_all add: UpdateWebContents_def SimWebContentsDestroyed_def)

section \<open>Properties\<close>

text \<open>
  C39: for as long as the tick counter lasts (2147483647 ticks, more than four years) the simulator goes on: at
  most one move per tick, each to a page that it was told to observe, none to a place outside the
  area of 10 to 1910 by 10 to 1070, whatever the random numbers and the arithmetic give, and the
  timer is set again after every tick.
\<close>

theorem simulated_mouse_stays_on_screen:
  assumes "literal_order_law F" and "sint (bs_tick s) + int (ticks es) \<le> 2 ^ 31 - 1"
  shows "\<exists>out s'. sim_run F es s = Some (out, s') \<and> length out \<le> ticks es \<and>
    (\<forall>e \<in> set out. \<exists>wc p. e = MouseEvent wc kMouseMove p \<and> wc \<in> observed es (bs_web_contents s) \<and> on_screen F p) \<and>
    (ticks es > 0 \<longrightarrow> bs_timer s' \<noteq> None)"
  using assms(2)
proof (induction es arbitrary: s)
  case (Cons e es)
  show ?case
  proof (cases e)
    case (SimTick i)
    with Cons.prems have "sint (bs_tick s) \<noteq> 2 ^ 31 - 1" by simp
    then obtain out s1 where d: "DispatchMouseMove F i s = Some (out, s1)"
      by (simp add: DispatchMouseMove_def Let_def)
    note step = DispatchMouseMove_cases [OF assms(1) d]
    from Cons.prems SimTick step(2) have "sint (bs_tick s1) + int (ticks es) \<le> 2 ^ 31 - 1" by simp
    from Cons.IH [OF this] obtain out' s' where r: "sim_run F es s1 = Some (out', s')" "length out' \<le> ticks es"
      "\<forall>e \<in> set out'. \<exists>wc p. e = MouseEvent wc kMouseMove p \<and> wc \<in> observed es (bs_web_contents s1) \<and> on_screen F p"
      "ticks es > 0 \<longrightarrow> bs_timer s' \<noteq> None" by (elim exE conjE) (rule that)
    have "bs_timer s' \<noteq> None" using r(4) step(3) no_tick_no_timer [OF r(1)] by (cases "ticks es = 0") simp_all
    moreover have "set_option (bs_web_contents s) \<subseteq> observed es (bs_web_contents s)" by (rule observed_now)
    ultimately show ?thesis using step(1,4) r(1-3) d SimTick
      by (intro exI [of _ "out @ out'"] exI [of _ s']) auto
  next
    case (SimObserve wc)
    with Cons.prems Cons.IH [of "UpdateWebContents wc s"] show ?thesis
      by (fastforce simp: UpdateWebContents_def)
  next
    case SimPageDestroyed
    with Cons.prems Cons.IH [of "SimWebContentsDestroyed s"] show ?thesis
      by (fastforce simp: SimWebContentsDestroyed_def)
  qed
qed simp

text \<open>For the witness: doubles that are integers.\<close>

definition int_drift :: f64_drift where
  "int_drift =
     \<lparr>f_add = (+), f_sub = (-), f_mul = (*), f_div = (\<lambda>a b. a), f_neg = uminus, f_sqrt = id,
      f_positive = (\<lambda>a. True), f_lit = (\<lambda>p q. word_of_int (p div q)), f_to_int = (\<lambda>a. Some (ucast a)),
      f_less = (\<lambda>a b. sint a < sint b), f_sin = id, f_cos = id, f_of_int = ucast\<rparr>"

lemma int_drift_law: "literal_order_law int_drift"
proof -
  have "sint (word_of_int a :: 64 word) = a" if "\<bar>a\<bar> \<le> 2 ^ 53" for a :: int
    using that by (simp add: sint_sbintrunc' signed_take_bit_int_eq_self)
  then show ?thesis by (simp add: literal_order_law_def int_drift_def)
qed

definition demo_tick :: sim_input where
  "demo_tick = \<lparr>si_x = 5, si_y = 1, si_next = 80, si_widget = True, si_being_destroyed = False\<rparr>"

theorem simulated_mouse_stays_on_screen_witness:
  "\<exists>out s'. sim_run int_drift [SimObserve (Some 3), SimTick demo_tick, SimPageDestroyed, SimTick demo_tick] (new_simulator int_drift) = Some (out, s') \<and>
     length out \<le> 2 \<and> (\<forall>e \<in> set out. \<exists>p. e = MouseEvent 3 kMouseMove p \<and> on_screen int_drift p) \<and> bs_timer s' \<noteq> None"
proof -
  let ?es = "[SimObserve (Some 3), SimTick demo_tick, SimPageDestroyed, SimTick demo_tick]"
  have "sint (bs_tick (new_simulator int_drift)) + int (ticks ?es) \<le> 2 ^ 31 - 1" by (simp add: new_simulator_def)
  from simulated_mouse_stays_on_screen [OF int_drift_law this] show ?thesis
    by (fastforce simp: new_simulator_def)
qed

end
