(* ===== verification/User_Data_Dir.thy ===== *)
theory User_Data_Dir
  imports Switches
begin

section \<open>The user data directory (\<open>user_data_dir.cc\<close>)\<close>

text \<open>
  Where the browser keeps its profile: the directory the command line names, or a default one, which
  is a new temporary directory for the headless browser. The file system is a parameter: the record
  \<open>dir_ops\<close> has the calls of Chromium's \<open>base\<close> that the source makes, \<open>directory_law\<close> is what their
  documentation promises, and \<open>listed_dirs\<close> is an instance whose state is the list of the directories
  there are. A path is a string, and an out parameter is returned whether the call succeeds or not.
  The Linux build is the one modelled.
\<close>

record 'f dir_ops =
  dir_exists :: "'f \<Rightarrow> string \<Rightarrow> bool"                      \<comment> \<open>\<open>DirectoryExists\<close>\<close>
  dir_create :: "string \<Rightarrow> 'f \<Rightarrow> bool \<times> 'f"                  \<comment> \<open>\<open>CreateDirectory\<close>\<close>
  dir_is_absolute :: "string \<Rightarrow> bool"                       \<comment> \<open>\<open>FilePath::IsAbsolute\<close>\<close>
  dir_make_absolute :: "'f \<Rightarrow> string \<Rightarrow> string"              \<comment> \<open>\<open>MakeAbsoluteFilePath\<close>, empty when it fails\<close>
  dir_new_temp :: "string \<Rightarrow> 'f \<Rightarrow> string option \<times> 'f"       \<comment> \<open>\<open>CreateNewTempDirectory\<close>\<close>
  dir_xdg_config :: "environment \<Rightarrow> string"                 \<comment> \<open>\<open>GetXDGDirectory\<close> for \<open>XDG_CONFIG_HOME\<close> and \<open>.config\<close>\<close>
  dir_append :: "string \<Rightarrow> string \<Rightarrow> string"                \<comment> \<open>\<open>FilePath::Append\<close>\<close>

definition directory_law :: "'f dir_ops \<Rightarrow> bool" where
  "directory_law D \<longleftrightarrow>
     (\<forall>p f. fst (dir_create D p f) \<longrightarrow> dir_exists D (snd (dir_create D p f)) p) \<and>
     (\<forall>p f. dir_make_absolute D f p \<noteq> [] \<longrightarrow> dir_is_absolute D (dir_make_absolute D f p)) \<and>
     (\<forall>p f. dir_make_absolute D f p \<noteq> [] \<longrightarrow> dir_exists D f p \<longrightarrow> dir_exists D f (dir_make_absolute D f p)) \<and>
     (\<forall>prefix f p. fst (dir_new_temp D prefix f) = Some p \<longrightarrow>
        p \<noteq> [] \<and> \<not> dir_exists D f p \<and> dir_exists D (snd (dir_new_temp D prefix f)) p)"

definition EnsureDirectory :: "'f dir_ops \<Rightarrow> string \<Rightarrow> 'f \<Rightarrow> bool \<times> string \<times> 'f" where
  "EnsureDirectory D path f =
     (if path = [] then (False, path, f)
      else
        let (there, f1) = (if dir_exists D f path then (True, f) else dir_create D path f)
        in if \<not> there then (False, path, f1)
           else
             let path1 = (if \<not> dir_is_absolute D path then dir_make_absolute D f1 path else path)
             in (path1 \<noteq> [], path1, f1))"

text \<open>Answers whether it went well and whether the switch is there.\<close>

definition GetCommandLineUserDataDir ::
  "'l cl_ops \<Rightarrow> 'f dir_ops \<Rightarrow> 'l \<Rightarrow> string \<Rightarrow> 'f \<Rightarrow> bool \<times> bool \<times> string \<times> 'f" where
  "GetCommandLineUserDataDir C D command_line path f =
     (if \<not> cl_has C command_line kUserDataDir then (True, False, path, f)
      else
        let path1 = cl_value C command_line kUserDataDir
        in if path1 = [] then (False, True, path1, f)
           else let (ok, path2, f1) = EnsureDirectory D path1 f in (ok, True, path2, f1))"

definition GetDefaultGuiUserDataDir :: "'f dir_ops \<Rightarrow> environment \<Rightarrow> 'f \<Rightarrow> bool \<times> string \<times> 'f" where
  "GetDefaultGuiUserDataDir D env f = EnsureDirectory D (dir_append D (dir_xdg_config D env) ''browserd'') f"

definition GetGuiUserDataDir ::
  "'l cl_ops \<Rightarrow> 'f dir_ops \<Rightarrow> environment \<Rightarrow> 'l \<Rightarrow> string \<Rightarrow> 'f \<Rightarrow> bool \<times> string \<times> 'f" where
  "GetGuiUserDataDir C D env command_line path f =
     (case GetCommandLineUserDataDir C D command_line path f of
        (ok, has_switch, path1, f1) \<Rightarrow>
          if \<not> ok then (False, path1, f1)
          else if has_switch then (True, path1, f1)
          else GetDefaultGuiUserDataDir D env f1)"

definition GetHeadlessUserDataDir ::
  "'l cl_ops \<Rightarrow> 'f dir_ops \<Rightarrow> 'l \<Rightarrow> string \<Rightarrow> 'f \<Rightarrow> bool \<times> string \<times> 'f" where
  "GetHeadlessUserDataDir C D command_line path f =
     (case GetCommandLineUserDataDir C D command_line path f of
        (ok, has_switch, path1, f1) \<Rightarrow>
          if \<not> ok then (False, path1, f1)
          else if has_switch then (True, path1, f1)
          else
            (case dir_new_temp D ''browserd'' f1 of
               (None, f2) \<Rightarrow> (False, path1, f2)
             | (Some temp, f2) \<Rightarrow> (True, temp, f2)))"

lemma EnsureDirectory_ok:
  assumes "directory_law D" "EnsureDirectory D path f = (True, path', f')"
  shows "path \<noteq> [] \<and> path' \<noteq> [] \<and> dir_is_absolute D path' \<and> dir_exists D f' path' \<and>
    (path' = path \<or> path' = dir_make_absolute D f' path) \<and> (f' = f \<or> f' = snd (dir_create D path f))"
proof -
  let ?made = "if dir_exists D f path then (True, f) else dir_create D path f"
  obtain there f1 where made: "?made = (there, f1)" by fastforce
  with assms(2) have "path \<noteq> []" "there" "f' = f1" "path' \<noteq> []"
    and path': "path' = (if \<not> dir_is_absolute D path then dir_make_absolute D f1 path else path)"
    by (auto simp: EnsureDirectory_def Let_def split: if_splits)
  moreover have "dir_exists D f1 path" "f1 = f \<or> f1 = snd (dir_create D path f)"
    using made \<open>there\<close> assms(1) by (auto simp: directory_law_def split: if_splits) (metis fst_conv snd_conv)
  ultimately show ?thesis
    using assms(1) unfolding directory_law_def by (cases "dir_is_absolute D path") auto
qed

definition listed_dirs :: "string list dir_ops" where
  "listed_dirs =
     (let absolute = (\<lambda>p. p \<noteq> [] \<and> hd p = CHR ''/''); full = (\<lambda>p. if absolute p then p else ''/home/'' @ p)
      in \<lparr>dir_exists = (\<lambda>f p. full p \<in> set f), dir_create = (\<lambda>p f. (True, full p # f)), dir_is_absolute = absolute,
          dir_make_absolute = (\<lambda>f p. if full p \<in> set f then full p else []),
          dir_new_temp = (\<lambda>prefix f. let p = ''/tmp/'' @ prefix in if p \<in> set f then (None, f) else (Some p, p # f)),
          dir_xdg_config = (\<lambda>env. case env ''XDG_CONFIG_HOME'' of Some d \<Rightarrow> d | None \<Rightarrow> ''/home/.config''),
          dir_append = (\<lambda>a b. a @ ''/'' @ b)\<rparr>)"

lemma listed_dirs_law: "directory_law listed_dirs"
  by (auto simp: directory_law_def listed_dirs_def Let_def)

section \<open>Properties\<close>

text \<open>
  The directory the GUI is handed out exists and is absolute: it is the one the command line names, which is
  not empty, or else the default one.
\<close>

lemma gui_user_data_dir:
  assumes "directory_law D" "GetGuiUserDataDir C D env line path f = (True, dir, f')"
  shows "dir_exists D f' dir \<and> dir \<noteq> [] \<and> dir_is_absolute D dir \<and>
    (let wanted = (if cl_has C line kUserDataDir then cl_value C line kUserDataDir
                   else dir_append D (dir_xdg_config D env) ''browserd'')
     in wanted \<noteq> [] \<and> (dir = wanted \<or> dir = dir_make_absolute D f' wanted))"
proof -
  let ?wanted = "if cl_has C line kUserDataDir then cl_value C line kUserDataDir
                 else dir_append D (dir_xdg_config D env) ''browserd''"
  from assms(2) have "EnsureDirectory D ?wanted f = (True, dir, f')"
    by (auto simp: GetGuiUserDataDir_def GetCommandLineUserDataDir_def GetDefaultGuiUserDataDir_def Let_def
        split: if_splits prod.splits)
  from EnsureDirectory_ok [OF assms(1) this] show ?thesis by (auto simp: Let_def)
qed

lemma gui_user_data_dir_witness:
  "\<exists>dir f'. GetGuiUserDataDir list_cl listed_dirs Map.empty [] [] [] = (True, dir, f') \<and> dir_exists listed_dirs f' dir"
proof -
  have "fst (GetGuiUserDataDir list_cl listed_dirs Map.empty [] [] []) = True" by code_simp
  then obtain dir f' where r: "GetGuiUserDataDir list_cl listed_dirs Map.empty [] [] [] = (True, dir, f')"
    by (metis prod.collapse)
  from gui_user_data_dir [OF listed_dirs_law r] r show ?thesis by blast
qed

text \<open>
  C38: a headless browser gets the directory that the command line names, made absolute, which must not be
  empty; without one it gets a directory that did not exist before, so two browsers never share a profile
  by accident. Either exists afterwards. A switch without a path fails and never falls back to a default.
\<close>

theorem headless_user_data_dir:
  assumes "directory_law D" "GetHeadlessUserDataDir C D line path f = (True, dir, f')"
  shows "dir_exists D f' dir \<and> dir \<noteq> [] \<and>
    (if cl_has C line kUserDataDir
     then cl_value C line kUserDataDir \<noteq> [] \<and> dir_is_absolute D dir \<and>
       (dir = cl_value C line kUserDataDir \<or> dir = dir_make_absolute D f' (cl_value C line kUserDataDir))
     else \<not> dir_exists D f dir)"
proof (cases "cl_has C line kUserDataDir")
  case True
  let ?path = "cl_value C line kUserDataDir"
  from True assms(2) have "?path \<noteq> []" "EnsureDirectory D ?path f = (True, dir, f')"
    by (auto simp: GetHeadlessUserDataDir_def GetCommandLineUserDataDir_def Let_def split: if_splits prod.splits)
  with EnsureDirectory_ok [OF assms(1) this(2)] True show ?thesis by auto
next
  case False
  with assms(2) have temp: "dir_new_temp D ''browserd'' f = (Some dir, f')"
    by (auto simp: GetHeadlessUserDataDir_def GetCommandLineUserDataDir_def split: prod.splits option.splits)
  from assms(1) have "fst (dir_new_temp D ''browserd'' f) = Some dir \<Longrightarrow>
      dir \<noteq> [] \<and> \<not> dir_exists D f dir \<and> dir_exists D (snd (dir_new_temp D ''browserd'' f)) dir"
    unfolding directory_law_def by blast
  with temp False show ?thesis by simp
qed

theorem headless_user_data_dir_witness:
  "\<exists>dir f'. GetHeadlessUserDataDir list_cl listed_dirs [] [] [''/tmp''] = (True, dir, f') \<and>
     dir_exists listed_dirs f' dir \<and> \<not> dir_exists listed_dirs [''/tmp''] dir"
proof -
  have "fst (GetHeadlessUserDataDir list_cl listed_dirs [] [] [''/tmp'']) = True" by code_simp
  then obtain dir f' where r: "GetHeadlessUserDataDir list_cl listed_dirs [] [] [''/tmp''] = (True, dir, f')"
    by (metis prod.collapse)
  have "\<not> cl_has list_cl [] kUserDataDir" by (simp add: list_cl_def)
  with headless_user_data_dir [OF listed_dirs_law r] r show ?thesis by auto
qed

end
