(* ===== verification/Gui_Shell.thy ===== *)
theory Gui_Shell
  imports Gui_Runtime User_Data_Dir
begin

section \<open>What stands around the GUI runtime\<close>

text \<open>
  \<open>gui/browser_main_parts.cc\<close> starts the runtime and ends the main loop, \<open>gui/content_browser_client.cc\<close>
  answers Chromium's questions, \<open>gui/gui_window_aura.cc\<close> is the window of a tab on Linux and Windows,
  and \<open>gui/aura_context.cc\<close> and \<open>gui/fill_layout.cc\<close> are what the windows share.
\<close>

subsection \<open>The main loop (\<open>BrowserMainParts\<close>)\<close>

text \<open>
  Callbacks that are run once are flags; \<open>mp_runtime\<close> is the runtime that was handed out and
  \<open>mp_quits\<close> counts the runs of the quit closure.
\<close>

record main_parts =
  mp_runtime_ready_callback :: bool
  mp_create_initial_tab :: bool
  mp_shutdown_on_zero_tabs :: bool
  mp_quit_closure :: bool
  mp_quit_requested :: bool
  mp_runtime :: "gui_runtime option"
  mp_quits :: nat

definition new_main_parts :: "bool \<Rightarrow> bool \<Rightarrow> main_parts" where
  "new_main_parts create_initial_tab shutdown_on_zero_tabs =
     \<lparr>mp_runtime_ready_callback = True, mp_create_initial_tab = create_initial_tab,
      mp_shutdown_on_zero_tabs = shutdown_on_zero_tabs, mp_quit_closure = False, mp_quit_requested = False,
      mp_runtime = None, mp_quits = 0\<rparr>"

text \<open>The exit code, 0 for success; \<open>None\<close> is a failed \<open>CHECK\<close>.\<close>

definition PreMainMessageLoopRun ::
  "'l cl_ops \<Rightarrow> 'f dir_ops \<Rightarrow> environment \<Rightarrow> 'l \<Rightarrow> base_lib \<Rightarrow> page_info \<Rightarrow> gui_env \<Rightarrow> 'f \<Rightarrow> main_parts \<Rightarrow>
     (int \<times> main_parts) option" where
  "PreMainMessageLoopRun C D env command_line L page e f s =
     (case GetGuiUserDataDir C D env command_line [] f of
        (ok, user_data_dir, f') \<Rightarrow>
          if \<not> ok then Some (1, s)
          else
            let (initialized, runtime) =
                  GuiInitialize L page e (new_gui_runtime (mp_create_initial_tab s) (mp_shutdown_on_zero_tabs s))
            in if \<not> initialized then Some (1, s)
               else if \<not> mp_runtime_ready_callback s then None
               else Some (0, s\<lparr>mp_runtime_ready_callback := False, mp_runtime := Some runtime\<rparr>))"

definition RequestQuit :: "main_parts \<Rightarrow> main_parts" where
  "RequestQuit s =
     (if mp_quit_requested s then s
      else
        let s1 = s\<lparr>mp_quit_requested := True\<rparr>
        in if mp_quit_closure s1 then s1\<lparr>mp_quit_closure := False, mp_quits := Suc (mp_quits s1)\<rparr> else s1)"

definition WillRunMainMessageLoop :: "main_parts \<Rightarrow> main_parts" where
  "WillRunMainMessageLoop s =
     (let s1 = s\<lparr>mp_quit_closure := True\<rparr>
      in if mp_quit_requested s1 then RequestQuit s1 else s1)"

datatype parts_event = QuitRequested | LoopStarts

fun parts_step :: "parts_event \<Rightarrow> main_parts \<Rightarrow> main_parts" where
  "parts_step QuitRequested s = RequestQuit s"
| "parts_step LoopStarts s = WillRunMainMessageLoop s"

subsection \<open>Chromium's questions (\<open>ContentBrowserClient\<close>)\<close>

text \<open>\<open>std_find sub s\<close> is \<open>s.find(sub)\<close> with \<open>None\<close> for \<open>npos\<close>.\<close>

fun std_find :: "string \<Rightarrow> string \<Rightarrow> nat option" where
  "std_find sub [] = (if sub = [] then Some 0 else None)"
| "std_find sub (c # cs) = (if take (length sub) (c # cs) = sub then Some 0 else map_option Suc (std_find sub cs))"

definition GetUserAgent :: "string \<Rightarrow> string \<Rightarrow> string" where
  "GetUserAgent product user_agent =
     (case std_find ''Chrome/'' user_agent of
        None \<Rightarrow> user_agent
      | Some product_start \<Rightarrow>
          let product_end =
                (case find_char CHR '' '' (drop product_start user_agent) of
                   None \<Rightarrow> length user_agent
                 | Some n \<Rightarrow> product_start + n)
          in take product_start user_agent @ product @ drop product_end user_agent)"

definition GetAcceptLangs :: "'l cl_ops \<Rightarrow> switch_names \<Rightarrow> 'l \<Rightarrow> string" where
  "GetAcceptLangs C N command_line =
     (let accept_lang = cl_value C command_line (kAcceptLang N)
      in if accept_lang = [] then ''en-US,en'' else accept_lang)"

definition AppendExtraCommandLineSwitches ::
  "'l cl_ops \<Rightarrow> switch_names \<Rightarrow> base_lib \<Rightarrow> policy \<Rightarrow> 'l \<Rightarrow> 'l option" where
  "AppendExtraCommandLineSwitches C N L policy command_line =
     AppendEmbedderSwitchesForChild C N L policy (Some (cl_set C kGui [] command_line))"

text \<open>
  The front of the native Chrome build (\<open>chrome/*.cc\<close>): \<open>chrome_extra\<close> is what Chrome itself appends, and the
  runtime is handed out once the browser has started.
\<close>

definition ChromeAppendExtraCommandLineSwitches ::
  "'l cl_ops \<Rightarrow> switch_names \<Rightarrow> base_lib \<Rightarrow> policy \<Rightarrow> ('l \<Rightarrow> 'l) \<Rightarrow> 'l \<Rightarrow> 'l option" where
  "ChromeAppendExtraCommandLineSwitches C N L policy chrome_extra command_line =
     AppendEmbedderSwitchesForChild C N L policy (Some (cl_set C kGui [] (chrome_extra command_line)))"

record extra_parts =
  ep_ready_callback :: bool
  ep_runtimes :: nat          \<comment> \<open>the runtimes handed out\<close>

definition PostBrowserStart :: "extra_parts \<Rightarrow> extra_parts" where
  "PostBrowserStart s =
     (if \<not> ep_ready_callback s then s
      else s\<lparr>ep_ready_callback := False, ep_runtimes := Suc (ep_runtimes s)\<rparr>)"

definition RunChromeBrowserMain ::
  "bool \<Rightarrow> (int \<times> string list \<Rightarrow> int) \<Rightarrow> int \<Rightarrow> string list option \<Rightarrow> string list \<Rightarrow> int" where
  "RunChromeBrowserMain platform_ok content_main argc argv own_argv =
     (if \<not> platform_ok then 1 else content_main (SetContentMainArgv argc argv own_argv))"

subsection \<open>The window of a tab (\<open>AuraGuiWindow\<close>)\<close>

text \<open>
  \<open>aw_events\<close> is what the page was told of its visibility, \<open>aw_observers\<close> the close observers that the
  host knows, \<open>aw_view_sizes\<close> the sizes given to the view; \<open>has_view\<close> is whether the page has a view.
\<close>

datatype visibility = WasShown | WasHidden

record aura_window =
  aw_shown :: bool
  aw_close_callback :: bool
  aw_close_observer :: bool
  aw_observers :: nat
  aw_host_size :: "int \<times> int"
  aw_view_sizes :: "(int \<times> int) list"
  aw_focuses :: nat                       \<comment> \<open>how often the view was shown and focused\<close>
  aw_events :: "visibility list"
  aw_closes :: nat

definition ResizeWebContents :: "bool \<Rightarrow> int \<times> int \<Rightarrow> aura_window \<Rightarrow> aura_window" where
  "ResizeWebContents has_view extent s =
     (if has_view then s\<lparr>aw_view_sizes := aw_view_sizes s @ [extent]\<rparr> else s)"

definition new_aura_window :: "bool \<Rightarrow> int \<times> int \<Rightarrow> aura_window" where
  "new_aura_window has_view initial_extent =
     ResizeWebContents has_view initial_extent
       \<lparr>aw_shown = False, aw_close_callback = False, aw_close_observer = False, aw_observers = 0,
        aw_host_size = initial_extent, aw_view_sizes = [], aw_focuses = 0, aw_events = [], aw_closes = 0\<rparr>"

definition AwShow :: "bool \<Rightarrow> aura_window \<Rightarrow> aura_window" where
  "AwShow has_view s0 =
     (let s1 = ResizeWebContents has_view (aw_host_size s0) s0;
          s = (if has_view then s1\<lparr>aw_focuses := Suc (aw_focuses s1)\<rparr> else s1)
      in if \<not> aw_shown s then s\<lparr>aw_events := aw_events s @ [WasShown], aw_shown := True\<rparr> else s)"

definition AwResize :: "bool \<Rightarrow> int \<times> int \<Rightarrow> aura_window \<Rightarrow> aura_window" where
  "AwResize has_view extent s = ResizeWebContents has_view extent (s\<lparr>aw_host_size := extent\<rparr>)"

definition AwClose :: "aura_window \<Rightarrow> aura_window" where
  "AwClose s0 =
     (let s = s0\<lparr>aw_close_callback := False\<rparr>
      in if aw_shown s then s\<lparr>aw_events := aw_events s @ [WasHidden], aw_shown := False\<rparr> else s)"

definition AwSetCloseCallback :: "aura_window \<Rightarrow> aura_window" where
  "AwSetCloseCallback s =
     s\<lparr>aw_close_callback := True, aw_close_observer := True, aw_observers := Suc (aw_observers s)\<rparr>"

definition AwOnCloseRequested :: "aura_window \<Rightarrow> aura_window" where
  "AwOnCloseRequested s =
     (if aw_close_callback s then s\<lparr>aw_close_callback := False, aw_closes := Suc (aw_closes s)\<rparr> else s)"

text \<open>The host asks its observers to close.\<close>

definition AwHostCloseRequested :: "aura_window \<Rightarrow> aura_window" where
  "AwHostCloseRequested s = (AwOnCloseRequested ^^ aw_observers s) s"

definition AwDestroy :: "aura_window \<Rightarrow> aura_window" where
  "AwDestroy s0 =
     (let s = (if aw_shown s0 then s0\<lparr>aw_events := aw_events s0 @ [WasHidden]\<rparr> else s0)
      in if aw_close_observer s then s\<lparr>aw_observers := aw_observers s - 1\<rparr> else s)"

datatype window_op =
    OpShow bool
  | OpResize bool "int \<times> int"
  | OpClose
  | OpSetCloseCallback
  | OpHostClose

fun window_step :: "window_op \<Rightarrow> aura_window \<Rightarrow> aura_window" where
  "window_step (OpShow has_view) s = AwShow has_view s"
| "window_step (OpResize has_view extent) s = AwResize has_view extent s"
| "window_step OpClose s = AwClose s"
| "window_step OpSetCloseCallback s = AwSetCloseCallback s"
| "window_step OpHostClose s = AwHostCloseRequested s"

subsection \<open>Hosts and the cursor (\<open>AuraContext\<close>)\<close>

text \<open>
  A host is a number and a cursor too; \<open>platform\<close> is \<open>SetPlatformCursor\<close>. The delegate is the cursor
  manager of Chromium, whose committed values are \<open>ac_cursor\<close>, \<open>ac_visible\<close> and \<open>ac_mouse_enabled\<close>.
\<close>

record host_state =
  hs_cursor :: "nat option"
  hs_cursor_visible :: "bool option"
  hs_mouse_enabled :: "bool option"

text \<open>
  What a host's window is connected to: the fields are set once the context's focus controller or cursor
  manager was registered there, \<open>hw_pre_target\<close> counts the registrations of the focus controller as the handler
  that sees events first, and \<open>hw_platform\<close> is what the platform's window was asked to do.
\<close>

datatype platform_call = PrepareForShutdown | Hide

record host_window =
  hw_initialized :: bool
  hw_focus_client :: bool
  hw_activation_client :: bool
  hw_pre_target :: nat
  hw_layout :: bool
  hw_cursor_client :: bool
  hw_platform :: "platform_call list"

record aura_context =
  ac_screen :: bool                    \<comment> \<open>the context owns the screen\<close>
  ac_window :: "nat \<Rightarrow> host_window"
  ac_hosts :: "nat list"
  ac_cursor :: nat
  ac_visible :: bool
  ac_mouse_enabled :: bool
  ac_host :: "nat \<Rightarrow> host_state"
  ac_retired :: "nat list"
  ac_created :: nat

definition new_host :: host_state where
  "new_host = \<lparr>hs_cursor = None, hs_cursor_visible = None, hs_mouse_enabled = None\<rparr>"

definition new_window :: host_window where
  "new_window =
     \<lparr>hw_initialized = False, hw_focus_client = False, hw_activation_client = False, hw_pre_target = 0,
      hw_layout = False, hw_cursor_client = False, hw_platform = []\<rparr>"

definition new_aura_context :: "bool \<Rightarrow> aura_context" where
  "new_aura_context has_screen =
     \<lparr>ac_screen = (\<not> has_screen), ac_window = (\<lambda>h. new_window), ac_hosts = [], ac_cursor = 0, ac_visible = True, ac_mouse_enabled = True, ac_host = (\<lambda>h. new_host),
      ac_retired = [], ac_created = 0\<rparr>"

definition for_hosts :: "(host_state \<Rightarrow> host_state) \<Rightarrow> aura_context \<Rightarrow> aura_context" where
  "for_hosts change s = s\<lparr>ac_host := (\<lambda>h. if h \<in> set (ac_hosts s) then change (ac_host s h) else ac_host s h)\<rparr>"

definition SetCursor :: "(nat \<Rightarrow> nat) \<Rightarrow> nat \<Rightarrow> aura_context \<Rightarrow> aura_context" where
  "SetCursor platform cursor s0 =
     (let new_cursor = platform cursor; s = s0\<lparr>ac_cursor := new_cursor\<rparr>
      in if ac_visible s then for_hosts (\<lambda>h. h\<lparr>hs_cursor := Some new_cursor\<rparr>) s else s)"

definition SetVisibility :: "(nat \<Rightarrow> nat) \<Rightarrow> nat \<Rightarrow> bool \<Rightarrow> aura_context \<Rightarrow> aura_context" where
  "SetVisibility platform kNone visible s0 =
     (let s = s0\<lparr>ac_visible := visible\<rparr>;
          s1 = (if visible then SetCursor platform (ac_cursor s) s
                else for_hosts (\<lambda>h. h\<lparr>hs_cursor := Some (platform kNone)\<rparr>) s)
      in for_hosts (\<lambda>h. h\<lparr>hs_cursor_visible := Some visible\<rparr>) s1)"

definition SetMouseEventsEnabled :: "(nat \<Rightarrow> nat) \<Rightarrow> nat \<Rightarrow> bool \<Rightarrow> aura_context \<Rightarrow> aura_context" where
  "SetMouseEventsEnabled platform kNone enabled s0 =
     (let s = s0\<lparr>ac_mouse_enabled := enabled\<rparr>
      in for_hosts (\<lambda>h. h\<lparr>hs_mouse_enabled := Some enabled\<rparr>) (SetVisibility platform kNone (ac_visible s) s))"

definition SetDisplay :: "(nat \<Rightarrow> nat) \<Rightarrow> bool \<Rightarrow> aura_context \<Rightarrow> aura_context" where
  "SetDisplay platform changed s = (if changed then SetCursor platform (ac_cursor s) s else s)"

definition InitializeHost :: "nat \<Rightarrow> aura_context \<Rightarrow> aura_context" where
  "InitializeHost h s0 =
     (let change = (\<lambda>f s. s\<lparr>ac_window := (ac_window s)(h := f (ac_window s h))\<rparr>);
          s1 = change (\<lambda>w. w\<lparr>hw_initialized := True\<rparr>) s0;
          s2 = change (\<lambda>w. w\<lparr>hw_focus_client := True\<rparr>) s1;
          s3 = change (\<lambda>w. w\<lparr>hw_activation_client := True\<rparr>) s2;
          s4 = change (\<lambda>w. w\<lparr>hw_pre_target := Suc (hw_pre_target w)\<rparr>) s3;
          s5 = change (\<lambda>w. w\<lparr>hw_layout := True\<rparr>) s4;
          s6 = s5\<lparr>ac_hosts := List.insert h (ac_hosts s5)\<rparr>
      in change (\<lambda>w. w\<lparr>hw_cursor_client := True\<rparr>) s6)"

definition UninitializeHost :: "nat \<Rightarrow> aura_context \<Rightarrow> aura_context" where
  "UninitializeHost h s0 =
     (let s = s0\<lparr>ac_hosts := filter (\<lambda>k. k \<noteq> h) (ac_hosts s0)\<rparr>
      in s\<lparr>ac_window := (ac_window s)(h := (ac_window s h)\<lparr>hw_pre_target := hw_pre_target (ac_window s h) - 1\<rparr>)\<rparr>)"

definition CreateHost :: "aura_context \<Rightarrow> aura_context" where
  "CreateHost s = InitializeHost (ac_created s) (s\<lparr>ac_created := Suc (ac_created s)\<rparr>)"

text \<open>A destroyed host is hidden, when it has a window of the platform, and kept until the process ends.\<close>

definition DestroyHost :: "bool \<Rightarrow> nat \<Rightarrow> aura_context \<Rightarrow> aura_context" where
  "DestroyHost has_platform_window h s0 =
     (let w = ac_window s0 h;
          s1 = (if has_platform_window
                then s0\<lparr>ac_window := (ac_window s0)(h := w\<lparr>hw_platform := hw_platform w @ [PrepareForShutdown, Hide]\<rparr>)\<rparr>
                else s0);
          s2 = UninitializeHost h s1
      in s2\<lparr>ac_retired := ac_retired s2 @ [h]\<rparr>)"

text \<open>What happens to a context; a host object is destroyed once, so only while it is registered.\<close>

datatype aura_op =
    OpCreate
  | OpDestroy bool nat
  | OpCursor nat
  | OpVisibility bool
  | OpMouseEvents bool
  | OpDisplay bool

fun aura_step :: "(nat \<Rightarrow> nat) \<Rightarrow> nat \<Rightarrow> aura_op \<Rightarrow> aura_context \<Rightarrow> aura_context" where
  "aura_step platform kNone OpCreate s = CreateHost s"
| "aura_step platform kNone (OpDestroy has_platform_window h) s =
     (if h \<in> set (ac_hosts s) then DestroyHost has_platform_window h s else s)"
| "aura_step platform kNone (OpCursor cursor) s = SetCursor platform cursor s"
| "aura_step platform kNone (OpVisibility visible) s = SetVisibility platform kNone visible s"
| "aura_step platform kNone (OpMouseEvents enabled) s = SetMouseEventsEnabled platform kNone enabled s"
| "aura_step platform kNone (OpDisplay changed) s = SetDisplay platform changed s"

subsection \<open>The layout of a host's window (\<open>FillLayout\<close>)\<close>

text \<open>A rectangle is its origin and its size; the children are the list of their bounds.\<close>

type_synonym rect = "(int \<times> int) \<times> (int \<times> int)"

definition OnWindowResized :: "rect \<Rightarrow> rect list \<Rightarrow> rect list" where
  "OnWindowResized bounds children =
     (if fst (snd bounds) \<le> 0 \<or> snd (snd bounds) \<le> 0 then children else map (\<lambda>child. ((0, 0), snd bounds)) children)"

definition SetChildBounds :: "nat \<Rightarrow> rect \<Rightarrow> rect list \<Rightarrow> rect list" where
  "SetChildBounds i requested_bounds children = children[i := requested_bounds]"

definition OnWindowAddedToLayout :: "rect \<Rightarrow> rect \<Rightarrow> rect list \<Rightarrow> rect list" where
  "OnWindowAddedToLayout bounds child children =
     SetChildBounds (length children) bounds (children @ [child])"

section \<open>Invariants\<close>

lemma parts_after_quit:
  "mp_quit_requested s \<Longrightarrow> mp_quits (fold parts_step es s) = mp_quits s \<and> mp_quit_requested (fold parts_step es s)"
proof (induction es arbitrary: s)
  case (Cons e es)
  from Cons.prems have "mp_quit_requested (parts_step e s)" "mp_quits (parts_step e s) = mp_quits s"
    by (cases e; simp add: RequestQuit_def WillRunMainMessageLoop_def Let_def)+
  with Cons.IH show ?case by simp
qed simp

lemma parts_no_quit:
  "QuitRequested \<notin> set es \<Longrightarrow> \<not> mp_quit_requested s \<Longrightarrow>
     mp_quits (fold parts_step es s) = mp_quits s \<and> \<not> mp_quit_requested (fold parts_step es s) \<and>
     mp_quit_closure (fold parts_step es s) = (mp_quit_closure s \<or> LoopStarts \<in> set es)"
proof (induction es arbitrary: s)
  case (Cons e es)
  from Cons.prems have "e = LoopStarts" by (cases e) auto
  with Cons show ?case by (simp add: WillRunMainMessageLoop_def Let_def)
qed simp

text \<open>The page hears of its visibility in turns.\<close>

fun in_turns :: "visibility \<Rightarrow> visibility list \<Rightarrow> bool" where
  "in_turns v [] = True"
| "in_turns v (e # es) = (e = v \<and> in_turns (case v of WasShown \<Rightarrow> WasHidden | WasHidden \<Rightarrow> WasShown) es)"

lemma visibility_other: "(v \<noteq> WasShown) = (v = WasHidden)" "(v \<noteq> WasHidden) = (v = WasShown)"
  by (cases v; simp)+

lemma in_turns_snoc:
  "in_turns v (es @ [e]) \<longleftrightarrow> in_turns v es \<and> (if es = [] then e = v else e \<noteq> last es)"
  by (induction es arbitrary: v) (auto simp: visibility_other split: visibility.split)

definition window_ok :: "aura_window \<Rightarrow> bool" where
  "window_ok s \<longleftrightarrow> in_turns WasShown (aw_events s) \<and>
     (aw_shown s \<longleftrightarrow> aw_events s \<noteq> [] \<and> last (aw_events s) = WasShown) \<and>
     (aw_close_observer s \<longleftrightarrow> aw_observers s \<noteq> 0) \<and> (aw_close_callback s \<longrightarrow> aw_close_observer s)"

lemma close_requested_again: "AwOnCloseRequested (AwOnCloseRequested s) = AwOnCloseRequested s"
  by (simp add: AwOnCloseRequested_def)

lemma AwHostCloseRequested_once:
  "AwHostCloseRequested s = (if aw_observers s = 0 then s else AwOnCloseRequested s)"
proof -
  have "(AwOnCloseRequested ^^ Suc n) s = AwOnCloseRequested s" for n
    by (induction n) (simp_all add: close_requested_again)
  then show ?thesis by (cases "aw_observers s") (simp_all only: AwHostCloseRequested_def, simp_all)
qed

lemma window_ok_new: "window_ok (new_aura_window has_view extent)"
  by (simp add: window_ok_def new_aura_window_def ResizeWebContents_def)

lemma window_ok_step:
  assumes "window_ok s" shows "window_ok (window_step op s)"
  using assms visibility_other
  by (cases op) (auto simp: window_ok_def AwShow_def AwResize_def AwClose_def AwSetCloseCallback_def Let_def
      AwHostCloseRequested_once AwOnCloseRequested_def ResizeWebContents_def in_turns_snoc)

lemma window_ok_steps: "window_ok s \<Longrightarrow> window_ok (fold window_step ops s)"
  by (induction ops arbitrary: s) (simp_all add: window_ok_step)

lemma closes_steps:
  "aw_closes (fold window_step ops s) + of_bool (aw_close_callback (fold window_step ops s)) \<le>
     aw_closes s + of_bool (aw_close_callback s) + length (filter (\<lambda>op. op = OpSetCloseCallback) ops)"
proof (induction ops arbitrary: s)
  case (Cons op ops)
  have "aw_closes (window_step op s) + of_bool (aw_close_callback (window_step op s)) \<le>
      aw_closes s + of_bool (aw_close_callback s) + of_bool (op = OpSetCloseCallback)"
    by (cases op) (auto simp: AwShow_def AwResize_def AwClose_def AwSetCloseCallback_def Let_def
        AwHostCloseRequested_once AwOnCloseRequested_def ResizeWebContents_def)
  moreover have "length (filter (\<lambda>op. op = OpSetCloseCallback) (op # ops)) =
      of_bool (op = OpSetCloseCallback) + length (filter (\<lambda>op. op = OpSetCloseCallback) ops)" by simp
  ultimately show ?case using Cons.IH [of "window_step op s"] by (simp only: fold.simps o_def)
qed simp

lemma std_find_iff: "std_find sub s = Some i \<Longrightarrow> take (length sub) (drop i s) = sub \<and> i \<le> length s"
  by (induction sub s arbitrary: i rule: std_find.induct) (auto split: if_splits)

text \<open>No operation touches a host that is not registered.\<close>

lemma unregistered_untouched:
  assumes "h \<notin> set (ac_hosts s)"
  shows "ac_host (SetCursor platform c s) h = ac_host s h" "ac_host (SetVisibility platform kNone v s) h = ac_host s h"
    "ac_host (SetMouseEventsEnabled platform kNone m s) h = ac_host s h" "ac_host (SetDisplay platform d s) h = ac_host s h"
  using assms
  by (simp_all add: SetCursor_def SetVisibility_def SetMouseEventsEnabled_def SetDisplay_def for_hosts_def Let_def)

text \<open>Every registered host agrees with what was committed last.\<close>

lemma hosts_follow_visibility:
  assumes "h \<in> set (ac_hosts s)"
  shows "ac_visible (SetVisibility platform kNone v s) = v \<and>
    hs_cursor_visible (ac_host (SetVisibility platform kNone v s) h) = Some v \<and>
    hs_cursor (ac_host (SetVisibility platform kNone v s) h) =
      Some (if v then ac_cursor (SetVisibility platform kNone v s) else platform kNone)"
  using assms by (simp add: SetVisibility_def SetCursor_def for_hosts_def Let_def)

text \<open>
  Every host created is registered or retired, and not both. A registered one is connected to the context, the
  focus controller once; of a retired one the focus controller sees no event, though its window still points to
  the controllers of the context.
\<close>

definition connected :: "nat \<Rightarrow> host_window \<Rightarrow> bool" where
  "connected n w \<longleftrightarrow> hw_initialized w \<and> hw_focus_client w \<and> hw_activation_client w \<and> hw_layout w \<and>
     hw_cursor_client w \<and> hw_pre_target w = n"

definition aura_ok :: "aura_context \<Rightarrow> bool" where
  "aura_ok s \<longleftrightarrow>
     set (ac_hosts s) \<inter> set (ac_retired s) = {} \<and> distinct (ac_hosts s) \<and> distinct (ac_retired s) \<and>
     set (ac_hosts s) \<union> set (ac_retired s) = {..<ac_created s} \<and>
     (\<forall>h \<in> set (ac_hosts s). connected 1 (ac_window s h)) \<and>
     (\<forall>h \<in> set (ac_retired s). connected 0 (ac_window s h)) \<and>
     (\<forall>h \<ge> ac_created s. ac_window s h = new_window)"

lemmas cursor_defs = SetCursor_def SetVisibility_def SetMouseEventsEnabled_def SetDisplay_def for_hosts_def Let_def

lemma cursor_keeps_hosts:
  assumes "op = OpCursor c \<or> op = OpVisibility v \<or> op = OpMouseEvents v \<or> op = OpDisplay v"
  shows "ac_window (aura_step platform kNone op s) = ac_window s" "ac_hosts (aura_step platform kNone op s) = ac_hosts s"
    "ac_retired (aura_step platform kNone op s) = ac_retired s" "ac_created (aura_step platform kNone op s) = ac_created s"
  using assms by (auto simp: cursor_defs)

lemma aura_ok_new: "aura_ok (new_aura_context has_screen)"
  by (simp add: aura_ok_def new_aura_context_def)

lemma aura_ok_create: assumes "aura_ok s" shows "aura_ok (CreateHost s)"
proof -
  have fresh: "ac_created s \<notin> set (ac_hosts s)" "ac_created s \<notin> set (ac_retired s)"
    using assms unfolding aura_ok_def by (metis UnI1 UnI2 lessThan_iff less_irrefl)+
  have w: "ac_window (CreateHost s) = (ac_window s)(ac_created s := ac_window (CreateHost s) (ac_created s))"
    by (simp add: CreateHost_def InitializeHost_def Let_def)
  have "connected 1 (ac_window (CreateHost s) (ac_created s))"
    using assms by (simp add: aura_ok_def CreateHost_def InitializeHost_def Let_def connected_def new_window_def)
  then show ?thesis
    using assms fresh unfolding aura_ok_def
    by (subst (1 2 3) w) (auto simp: CreateHost_def InitializeHost_def Let_def lessThan_Suc)
qed

lemma aura_ok_destroy:
  assumes "aura_ok s" "h \<in> set (ac_hosts s)"
  shows "aura_ok (DestroyHost p h s)"
proof -
  from assms have c: "connected 1 (ac_window s h)" "h < ac_created s" "h \<notin> set (ac_retired s)" by (auto simp: aura_ok_def)
  then have "connected 0 (ac_window (DestroyHost p h s) h)"
    by (simp add: DestroyHost_def UninitializeHost_def Let_def connected_def)
  then obtain w where w: "ac_window (DestroyHost p h s) = (ac_window s)(h := w)" "connected 0 w"
    by (cases p) (fastforce simp: DestroyHost_def UninitializeHost_def Let_def)+
  have "ac_hosts (DestroyHost p h s) = filter (\<lambda>k. k \<noteq> h) (ac_hosts s)"
    "ac_retired (DestroyHost p h s) = ac_retired s @ [h]" "ac_created (DestroyHost p h s) = ac_created s"
    by (simp_all add: DestroyHost_def UninitializeHost_def Let_def)
  with assms c w show ?thesis by (auto simp: aura_ok_def)
qed

lemma aura_ok_step: "aura_ok s \<Longrightarrow> aura_ok (aura_step platform kNone op s)"
proof (cases op)
  case (OpDestroy p h)
  then show "aura_ok s \<Longrightarrow> aura_ok (aura_step platform kNone op s)" by (simp add: aura_ok_destroy)
next
  case OpCreate
  then show "aura_ok s \<Longrightarrow> aura_ok (aura_step platform kNone op s)" by (simp add: aura_ok_create)
qed (simp_all add: aura_ok_def cursor_defs)

lemma retired_frozen:
  assumes "aura_ok s" "h \<in> set (ac_retired s)"
  shows "h \<in> set (ac_retired (aura_step platform kNone op s)) \<and>
    ac_host (aura_step platform kNone op s) h = ac_host s h \<and> ac_window (aura_step platform kNone op s) h = ac_window s h"
proof -
  from assms have h: "h \<notin> set (ac_hosts s)" "h < ac_created s" by (auto simp: aura_ok_def)
  show ?thesis
  proof (cases op)
    case OpCreate
    with assms h show ?thesis by (simp add: CreateHost_def InitializeHost_def Let_def)
  next
    case (OpDestroy p k)
    with assms h show ?thesis by (auto simp: DestroyHost_def UninitializeHost_def Let_def)
  qed (use assms h in \<open>simp_all add: cursor_defs\<close>)
qed

text \<open>
  Whatever is created, destroyed and set, the hosts stay accounted for, and a retired host is never touched
  again: neither its cursor nor what its window is connected to changes.
\<close>

lemma hosts_accounted:
  shows "aura_ok (fold (aura_step platform kNone) ops (new_aura_context has_screen))"
    and "aura_ok s \<Longrightarrow> h \<in> set (ac_retired s) \<Longrightarrow>
      ac_host (fold (aura_step platform kNone) ops s) h = ac_host s h \<and>
      ac_window (fold (aura_step platform kNone) ops s) h = ac_window s h"
proof -
  have all: "aura_ok s \<Longrightarrow> aura_ok (fold (aura_step platform kNone) ops s)" for s
    by (induction ops arbitrary: s) (simp_all add: aura_ok_step)
  show "aura_ok (fold (aura_step platform kNone) ops (new_aura_context has_screen))" by (rule all [OF aura_ok_new])
  show "aura_ok s \<Longrightarrow> h \<in> set (ac_retired s) \<Longrightarrow>
      ac_host (fold (aura_step platform kNone) ops s) h = ac_host s h \<and>
      ac_window (fold (aura_step platform kNone) ops s) h = ac_window s h"
    by (induction ops arbitrary: s) (simp_all add: aura_ok_step retired_frozen)
qed

text \<open>
  The children fill a window that is resized to some extent, and a child added later fills it too when the
  window is at the origin.
\<close>

lemma children_fill:
  assumes "0 < fst (snd bounds)" "0 < snd (snd bounds)"
  shows "set (OnWindowResized bounds children) \<subseteq> {((0, 0), snd bounds)}"
    and "fst bounds = (0, 0) \<Longrightarrow>
      set (OnWindowAddedToLayout bounds child (OnWindowResized bounds children)) = {((0, 0), snd bounds)}"
proof -
  show all: "set (OnWindowResized bounds children) \<subseteq> {((0, 0), snd bounds)}"
    using assms by (auto simp: OnWindowResized_def)
  assume "fst bounds = (0, 0)"
  then have "bounds = ((0, 0), snd bounds)" by (metis prod.collapse)
  moreover have "OnWindowAddedToLayout bounds child cs = cs @ [bounds]" for cs
    by (simp add: OnWindowAddedToLayout_def SetChildBounds_def)
  ultimately show "set (OnWindowAddedToLayout bounds child (OnWindowResized bounds children)) = {((0, 0), snd bounds)}"
    using all by auto
qed

section \<open>Properties\<close>

text \<open>
  C37: the main loop ends at most once, and only when it is asked to after it started: a quit that
  is requested before is lost, since the flag that remembers it also stops the repeated request, and no later
  request helps. The program then runs for ever.
\<close>

theorem quit_before_the_loop_is_lost:
  assumes "LoopStarts \<notin> set before" "LoopStarts \<notin> set later"
  shows "mp_quits (fold parts_step (before @ LoopStarts # later) (new_main_parts b z)) =
    (if QuitRequested \<in> set before then 0 else if QuitRequested \<in> set later then 1 else 0)"
proof (cases "QuitRequested \<in> set before")
  case True
  then obtain a c where split: "before = a @ QuitRequested # c" "QuitRequested \<notin> set a" by (metis split_list_first)
  let ?s = "fold parts_step a (new_main_parts b z)"
  from split assms(1) have "a = []" by (cases a; cases "hd a") auto
  then have "mp_quit_requested (RequestQuit ?s)" "mp_quits (RequestQuit ?s) = 0"
    by (simp_all add: new_main_parts_def RequestQuit_def)
  with parts_after_quit [of "RequestQuit ?s" "c @ LoopStarts # later"] True split(1) show ?thesis by simp
next
  case False
  let ?s = "fold parts_step (before @ [LoopStarts]) (new_main_parts b z)"
  from parts_no_quit [of "before @ [LoopStarts]" "new_main_parts b z"] False have
    s: "mp_quits ?s = 0" "\<not> mp_quit_requested ?s" "mp_quit_closure ?s" by (simp_all add: new_main_parts_def)
  have "fold parts_step (before @ LoopStarts # later) (new_main_parts b z) = fold parts_step later ?s" by simp
  moreover have "mp_quits (fold parts_step later ?s) = (if QuitRequested \<in> set later then 1 else 0)"
  proof (cases later)
    case (Cons e es)
    with assms(2) have "e = QuitRequested" by (cases e) auto
    with s parts_after_quit [of "RequestQuit ?s" es] Cons show ?thesis by (simp add: RequestQuit_def Let_def)
  qed (use s in simp)
  ultimately show ?thesis using False by simp
qed

theorem quit_before_the_loop_is_lost_witness:
  "mp_quits (fold parts_step ([QuitRequested] @ LoopStarts # [QuitRequested, QuitRequested]) (new_main_parts True True)) = 0"
  using quit_before_the_loop_is_lost [of "[QuitRequested]" "[QuitRequested, QuitRequested]" True True] by simp

text \<open>
  Whatever is done with a window, its page hears that it is shown and that it is hidden in turns and, once
  the window is destroyed, that it is hidden last; the close callback runs at most once for each
  time it was set.
\<close>

lemma window_visibility_balanced:
  "let s = fold window_step ops (new_aura_window has_view extent)
   in in_turns WasShown (aw_events (AwDestroy s)) \<and>
      (aw_events (AwDestroy s) \<noteq> [] \<longrightarrow> last (aw_events (AwDestroy s)) = WasHidden) \<and>
      aw_closes s \<le> length (filter (\<lambda>op. op = OpSetCloseCallback) ops)"
proof -
  let ?s = "fold window_step ops (new_aura_window has_view extent)"
  have "window_ok ?s" by (rule window_ok_steps [OF window_ok_new])
  moreover have "aw_closes ?s \<le> length (filter (\<lambda>op. op = OpSetCloseCallback) ops)"
    using closes_steps [of ops "new_aura_window has_view extent"]
    by (simp add: new_aura_window_def ResizeWebContents_def split: if_splits)
  ultimately show ?thesis
    by (auto simp: Let_def AwDestroy_def window_ok_def in_turns_snoc visibility_other)
qed

lemma window_visibility_balanced_witness:
  "let s = fold window_step [OpSetCloseCallback, OpShow True, OpHostClose, OpHostClose, OpClose, OpShow False] (new_aura_window True (8, 6))
   in last (aw_events (AwDestroy s)) = WasHidden \<and> aw_closes s \<le> 1"
  using window_visibility_balanced [of "[OpSetCloseCallback, OpShow True, OpHostClose, OpHostClose, OpClose, OpShow False]" True "(8, 6)"]
  by (simp add: Let_def AwDestroy_def AwShow_def AwClose_def AwSetCloseCallback_def AwHostCloseRequested_once
      AwOnCloseRequested_def ResizeWebContents_def new_aura_window_def)

text \<open>Every child process is told that the GUI runs, whichever front starts it.\<close>

lemma children_know_the_gui:
  assumes "command_line_law C" "names_distinct N"
  shows "\<exists>c'. AppendExtraCommandLineSwitches C N L policy c = Some c' \<and> cl_has C c' kGui"
    and "\<exists>c'. ChromeAppendExtraCommandLineSwitches C N L policy chrome_extra c = Some c' \<and> cl_has C c' kGui"
proof -
  have "\<exists>c'. AppendEmbedderSwitchesForChild C N L policy (Some (cl_set C kGui [] d)) = Some c' \<and> cl_has C c' kGui" for d
    using child_switches [OF assms, of "cl_set C kGui [] d" L policy]
    by (auto simp: Let_def command_line_simps [OF assms(1)])
  then show "\<exists>c'. AppendExtraCommandLineSwitches C N L policy c = Some c' \<and> cl_has C c' kGui"
    "\<exists>c'. ChromeAppendExtraCommandLineSwitches C N L policy chrome_extra c = Some c' \<and> cl_has C c' kGui"
    by (simp_all add: AppendExtraCommandLineSwitches_def ChromeAppendExtraCommandLineSwitches_def)
qed

text \<open>
  The user agent is Chromium's with its first product \<open>Chrome/...\<close> replaced; what stands before and
  after it stays.
\<close>

lemma user_agent_product:
  assumes "std_find ''Chrome/'' (a @ ''Chrome/'' @ version @ rest) = Some (length a)"
    and "CHR '' '' \<notin> set version" "rest = [] \<or> hd rest = CHR '' ''"
  shows "GetUserAgent product (a @ ''Chrome/'' @ version @ rest) = a @ product @ rest"
proof -
  let ?v = "''Chrome/'' @ version"
  have "CHR '' '' \<notin> set ?v" using assms(2) by simp
  then have "find_char CHR '' '' (?v @ rest) = (if rest = [] then None else Some (length ?v))"
    using assms(3) find_char_at [of "CHR '' ''" ?v "tl rest"]
    by (cases rest) (simp_all add: find_char_None)
  moreover have "GetUserAgent product (a @ v @ rest) = a @ product @ rest"
    if "std_find ''Chrome/'' (a @ v @ rest) = Some (length a)"
      "find_char CHR '' '' (v @ rest) = (if rest = [] then None else Some (length v))" for v
    using that by (simp add: GetUserAgent_def Let_def)
  ultimately show ?thesis using assms(1) by (metis append.assoc)
qed

lemma user_agent_product_witness:
  "GetUserAgent ''HeadlessChrome/9'' ''A (X) Chrome/1.2 S'' = ''A (X) HeadlessChrome/9 S''"
  using user_agent_product [of "''A (X) ''" "''1.2''" "'' S''" "''HeadlessChrome/9''"] by simp

end
