(* ===== verification/Content_Main.thy ===== *)
theory Content_Main
  imports Gui_Shell
begin

section \<open>From the entry of the process to the runtime\<close>

text \<open>
  Chromium's \<open>ContentMain\<close> asks the delegate it is given for a browser client, the client for the parts of the
  main loop, and starts those; the callback that wants the runtime is moved along. The delegates are
  \<open>gui/main_delegate.cc\<close> and \<open>chrome/browserd_chrome_main_delegate.cc\<close>, the clients
  \<open>gui/content_browser_client.cc\<close> and \<open>chrome/content_browser_client.cc\<close>; the profile is
  \<open>gui/browser_context.cc\<close>, and the calls of \<open>ContentMain\<close> are at the end of \<open>startup/browserd_main.cc\<close>.
  A callback that is run once is a flag, whether it is still there. In which order and how often Chromium asks
  is not fixed: a run is any list of what it asks.
\<close>

subsection \<open>A callback that is handed on\<close>

text \<open>
  \<open>held s\<close> is how many callbacks stand somewhere in the chain and \<open>given s\<close> how many were run; no step makes
  one, so over any run no more are run than there were. \<open>None\<close> is a failed \<open>CHECK\<close>.
\<close>

locale hand_over =
  fixes step :: "'e \<Rightarrow> 's \<Rightarrow> 's option" and held :: "'s \<Rightarrow> nat" and given :: "'s \<Rightarrow> nat"
  assumes step_keeps: "step e s = Some s' \<Longrightarrow> held s' + given s' \<le> held s + given s"
    and step_given: "step e s = Some s' \<Longrightarrow> given s \<le> given s'"
begin

fun steps :: "'e list \<Rightarrow> 's \<Rightarrow> 's option" where
  "steps [] s = Some s"
| "steps (e # es) s = Option.bind (step e s) (steps es)"

lemma steps_keep: "steps es s = Some s' \<Longrightarrow> held s' + given s' \<le> held s + given s \<and> given s \<le> given s'"
proof (induction es arbitrary: s)
  case (Cons e es)
  from Cons.prems obtain s1 where s1: "step e s = Some s1" "steps es s1 = Some s'" by (auto simp: bind_eq_Some_conv)
  with Cons.IH [of s1] step_keeps [of e s s1] step_given [of e s s1] show ?case by linarith
qed simp

lemma steps_append: "steps (es @ fs) s = Option.bind (steps es s) (steps fs)"
  by (induction es arbitrary: s) (auto split: bind_split)

lemma given_once: "held s + given s \<le> 1 \<Longrightarrow> steps es s = Some s' \<Longrightarrow> given s' \<le> 1"
  using steps_keep [of es s s'] by linarith

text \<open>Once one was run, no other is, and none is left to be run.\<close>

lemma given_stays:
  assumes "held s + given s \<le> 1" "steps es s = Some s1" "given s1 = 1" "steps fs s1 = Some s2"
  shows "given s2 = 1 \<and> held s2 = 0"
  using steps_keep [OF assms(2)] steps_keep [OF assms(4)] assms(1,3) by linarith

end

subsection \<open>The content layer (\<open>gui::MainDelegate\<close>)\<close>

text \<open>
  What the strings and images come from: the packs of the headless library beside the program, or the locale;
  in a build with embedded resources, the buffers. \<open>assets\<close> is what \<open>PathService\<close> answers, \<open>exists\<close> is
  \<open>base::PathExists\<close> and \<open>kLang\<close> Chromium's switch.
\<close>

datatype resource_bundle =
    EmbeddedBuffers
  | Packs string string
  | LocaleResources string

definition InitializeResourceBundle ::
  "bool \<Rightarrow> 'l cl_ops \<Rightarrow> 'f dir_ops \<Rightarrow> (string \<Rightarrow> bool) \<Rightarrow> string \<Rightarrow> string option \<Rightarrow> 'l \<Rightarrow> resource_bundle option" where
  "InitializeResourceBundle embedded C D exists kLang assets command_line =
     (if embedded then Some EmbeddedBuffers
      else
        case assets of
          None \<Rightarrow> None
        | Some resource_dir \<Rightarrow>
            let string_pack = dir_append D resource_dir ''headless_lib_strings.pak'';
                data_pack = dir_append D resource_dir ''headless_lib_data.pak''
            in if exists string_pack \<and> exists data_pack then Some (Packs string_pack data_pack)
               else
                 let locale = cl_value C command_line kLang
                 in Some (LocaleResources (if locale = [] then ''en-US'' else locale)))"

record gui_client =
  gc_create_initial_tab :: bool
  gc_shutdown_on_zero_tabs :: bool
  gc_ready_callback :: bool

text \<open>
  The delegate with the parts that its clients made, which Chromium owns: \<open>gd_options\<close> are the fields of
  \<open>RuntimeOptions\<close>.
\<close>

record gui_delegate =
  gd_content_client :: bool
  gd_browser_client :: "gui_client option"
  gd_renderer_client :: bool
  gd_options :: "bool \<times> bool"
  gd_ready_callback :: bool
  gd_bundle :: "resource_bundle option"
  gd_parts :: "main_parts list"

definition new_gui_delegate :: "bool \<times> bool \<Rightarrow> gui_delegate" where
  "new_gui_delegate options =
     \<lparr>gd_content_client = False, gd_browser_client = None, gd_renderer_client = False, gd_options = options,
      gd_ready_callback = True, gd_bundle = None, gd_parts = []\<rparr>"

text \<open>Chromium goes on when the answer has no exit code: the inner \<open>None\<close>.\<close>

definition BasicStartupComplete :: "bool \<Rightarrow> gui_delegate \<Rightarrow> (int option \<times> gui_delegate) option" where
  "BasicStartupComplete logging_ok s =
     (if logging_ok then Some (None, s\<lparr>gd_content_client := True\<rparr>) else None)"

definition PreSandboxStartup :: "resource_bundle option \<Rightarrow> gui_delegate \<Rightarrow> gui_delegate option" where
  "PreSandboxStartup initialized s = map_option (\<lambda>b. s\<lparr>gd_bundle := Some b\<rparr>) initialized"

definition CreateContentBrowserClient :: "gui_delegate \<Rightarrow> gui_delegate" where
  "CreateContentBrowserClient s =
     s\<lparr>gd_browser_client := Some
         \<lparr>gc_create_initial_tab = fst (gd_options s), gc_shutdown_on_zero_tabs = snd (gd_options s),
          gc_ready_callback = gd_ready_callback s\<rparr>,
       gd_ready_callback := False\<rparr>"

definition CreateContentRendererClient :: "gui_delegate \<Rightarrow> gui_delegate" where
  "CreateContentRendererClient s = s\<lparr>gd_renderer_client := True\<rparr>"

definition CreateBrowserMainParts :: "gui_client \<Rightarrow> main_parts \<times> gui_client" where
  "CreateBrowserMainParts c =
     ((new_main_parts (gc_create_initial_tab c) (gc_shutdown_on_zero_tabs c))
        \<lparr>mp_runtime_ready_callback := gc_ready_callback c\<rparr>,
      c\<lparr>gc_ready_callback := False\<rparr>)"

text \<open>
  What the process finds when Chromium asks: the command line, the environment, the files, the page it would
  open and the windows. Each question comes with its own, since they may change in between.
\<close>

record ('l, 'f) content_env =
  ce_line_ops :: "'l cl_ops"
  ce_dir_ops :: "'f dir_ops"
  ce_lib :: base_lib
  ce_embedded :: bool                       \<comment> \<open>the build embeds the resources\<close>
  ce_lang :: string                         \<comment> \<open>\<open>switches::kLang\<close>\<close>
  ce_logging_ok :: bool
  ce_assets :: "string option"
  ce_exists :: "string \<Rightarrow> bool"
  ce_command_line :: 'l
  ce_environment :: environment
  ce_files :: 'f
  ce_page :: page_info
  ce_windows :: gui_env

datatype gui_ask =
    AsksStartup
  | AsksResources
  | AsksBrowserClient
  | AsksRendererClient
  | AsksParts
  | PartsStart nat
  | PartsLoop nat parts_event

fun gui_step :: "('l, 'f) content_env \<times> gui_ask \<Rightarrow> gui_delegate \<Rightarrow> gui_delegate option" where
  "gui_step (E, AsksStartup) s = map_option snd (BasicStartupComplete (ce_logging_ok E) s)"
| "gui_step (E, AsksResources) s =
     PreSandboxStartup (InitializeResourceBundle (ce_embedded E) (ce_line_ops E) (ce_dir_ops E) (ce_exists E)
       (ce_lang E) (ce_assets E) (ce_command_line E)) s"
| "gui_step (E, AsksBrowserClient) s = Some (CreateContentBrowserClient s)"
| "gui_step (E, AsksRendererClient) s = Some (CreateContentRendererClient s)"
| "gui_step (E, AsksParts) s =
     (case gd_browser_client s of
        None \<Rightarrow> Some s
      | Some c \<Rightarrow>
          let (parts, c') = CreateBrowserMainParts c
          in Some (s\<lparr>gd_browser_client := Some c', gd_parts := gd_parts s @ [parts]\<rparr>))"
| "gui_step (E, PartsStart i) s =
     (if i < length (gd_parts s)
      then map_option (\<lambda>(code, p). s\<lparr>gd_parts := (gd_parts s)[i := p]\<rparr>)
        (PreMainMessageLoopRun (ce_line_ops E) (ce_dir_ops E) (ce_environment E) (ce_command_line E) (ce_lib E)
          (ce_page E) (ce_windows E) (ce_files E) (gd_parts s ! i))
      else Some s)"
| "gui_step (E, PartsLoop i e) s =
     (if i < length (gd_parts s) then Some (s\<lparr>gd_parts := (gd_parts s)[i := parts_step e (gd_parts s ! i)]\<rparr>) else Some s)"

text \<open>Where the callback is, and the runtimes it was run with.\<close>

definition part_held :: "main_parts \<Rightarrow> nat" where
  "part_held p = of_bool (mp_runtime_ready_callback p)"

definition part_given :: "main_parts \<Rightarrow> nat" where
  "part_given p = of_bool (mp_runtime p \<noteq> None)"

definition gui_held :: "gui_delegate \<Rightarrow> nat" where
  "gui_held s =
     of_bool (gd_ready_callback s) +
     (case gd_browser_client s of None \<Rightarrow> 0 | Some c \<Rightarrow> of_bool (gc_ready_callback c)) +
     sum_list (map part_held (gd_parts s))"

definition gui_given :: "gui_delegate \<Rightarrow> nat" where
  "gui_given s = sum_list (map part_given (gd_parts s))"

subsection \<open>The content layer of native Chrome (\<open>BrowserdChromeMainDelegate\<close>)\<close>

text \<open>
  The parts are Chrome's own, with one of the program's added when the client still has the callback:
  \<open>None\<close> when nothing was added.
\<close>

record chrome_delegate =
  cd_ready_callback :: bool
  cd_browser_client :: "bool option"        \<comment> \<open>whether the client has the callback\<close>
  cd_parts :: "extra_parts option list"

definition new_chrome_delegate :: chrome_delegate where
  "new_chrome_delegate = \<lparr>cd_ready_callback = True, cd_browser_client = None, cd_parts = []\<rparr>"

definition ChromeCreateContentBrowserClient :: "chrome_delegate \<Rightarrow> chrome_delegate" where
  "ChromeCreateContentBrowserClient s =
     s\<lparr>cd_browser_client := Some (cd_ready_callback s), cd_ready_callback := False\<rparr>"

definition ChromeCreateBrowserMainParts :: "bool \<Rightarrow> extra_parts option \<times> bool" where
  "ChromeCreateBrowserMainParts ready_callback =
     (if ready_callback then (Some \<lparr>ep_ready_callback = True, ep_runtimes = 0\<rparr>, False) else (None, ready_callback))"

datatype chrome_ask =
    ChromeAsksBrowserClient
  | ChromeAsksParts
  | ChromeBrowserStarted nat

fun chrome_step :: "chrome_ask \<Rightarrow> chrome_delegate \<Rightarrow> chrome_delegate option" where
  "chrome_step ChromeAsksBrowserClient s = Some (ChromeCreateContentBrowserClient s)"
| "chrome_step ChromeAsksParts s =
     (case cd_browser_client s of
        None \<Rightarrow> Some s
      | Some ready_callback \<Rightarrow>
          let (parts, c') = ChromeCreateBrowserMainParts ready_callback
          in Some (s\<lparr>cd_browser_client := Some c', cd_parts := cd_parts s @ [parts]\<rparr>))"
| "chrome_step (ChromeBrowserStarted i) s =
     Some (if i < length (cd_parts s) then s\<lparr>cd_parts := (cd_parts s)[i := map_option PostBrowserStart (cd_parts s ! i)]\<rparr>
           else s)"

fun extra_held :: "extra_parts option \<Rightarrow> nat" where
  "extra_held None = 0"
| "extra_held (Some x) = of_bool (ep_ready_callback x)"

fun extra_given :: "extra_parts option \<Rightarrow> nat" where
  "extra_given None = 0"
| "extra_given (Some x) = ep_runtimes x"

definition chrome_held :: "chrome_delegate \<Rightarrow> nat" where
  "chrome_held s =
     of_bool (cd_ready_callback s) + of_bool (cd_browser_client s = Some True) +
     sum_list (map extra_held (cd_parts s))"

definition chrome_given :: "chrome_delegate \<Rightarrow> nat" where
  "chrome_given s = sum_list (map extra_given (cd_parts s))"

definition SetUpChromePlatform :: "int \<Rightarrow> string list option \<Rightarrow> bool" where
  "SetUpChromePlatform argc argv = True"

subsection \<open>The calls of \<open>ContentMain\<close>\<close>

text \<open>\<open>content_main\<close> is \<open>content::ContentMain\<close> on a delegate and the arguments of the process.\<close>

definition RunGuiContentMain ::
  "(gui_delegate \<Rightarrow> int \<times> string list \<Rightarrow> int) \<Rightarrow> int \<Rightarrow> string list option \<Rightarrow> string list \<Rightarrow> bool \<times> bool \<Rightarrow> int" where
  "RunGuiContentMain content_main argc argv own_argv options =
     content_main (new_gui_delegate options) (SetContentMainArgv argc argv own_argv)"

text \<open>For the headless browser the delegate is Chromium's, made from the callback that wants the browser.\<close>

definition RunHeadlessContentMain ::
  "('d \<Rightarrow> int \<times> string list \<Rightarrow> int) \<Rightarrow> ('k \<Rightarrow> 'd) \<Rightarrow> int \<Rightarrow> string list option \<Rightarrow> string list \<Rightarrow> 'k \<Rightarrow> int" where
  "RunHeadlessContentMain content_main headless_delegate argc argv own_argv on_start_callback =
     content_main (headless_delegate on_start_callback) (SetContentMainArgv argc argv own_argv)"

subsection \<open>The profile (\<open>gui::BrowserContext\<close>)\<close>

datatype delegate_kind =
    ZoomLevelDelegate | DownloadManagerDelegate | BrowserPluginGuestManager | SpecialStoragePolicy
  | PlatformNotificationService | PushMessagingService | StorageNotificationService | SSLHostStateDelegate
  | PermissionControllerDelegate | ReduceAcceptLanguageControllerDelegate | ClientHintsControllerDelegate
  | BackgroundFetchDelegate | BackgroundSyncController | BrowsingDataRemoverDelegate

datatype context_call = NotifyWillBeDestroyed | ShutdownStoragePartitions

record browser_context =
  bc_path :: string
  bc_calls :: "context_call list"

definition new_browser_context :: "string \<Rightarrow> browser_context" where
  "new_browser_context path = \<lparr>bc_path = path, bc_calls = []\<rparr>"

definition GetPath :: "browser_context \<Rightarrow> string" where
  "GetPath s = bc_path s"

definition IsOffTheRecord :: "browser_context \<Rightarrow> bool" where
  "IsOffTheRecord s = False"

definition GetDelegate :: "delegate_kind \<Rightarrow> browser_context \<Rightarrow> nat option" where
  "GetDelegate kind s = None"

definition BrowserContextDestroy :: "browser_context \<Rightarrow> browser_context" where
  "BrowserContextDestroy s = s\<lparr>bc_calls := bc_calls s @ [NotifyWillBeDestroyed, ShutdownStoragePartitions]\<rparr>"

text \<open>The profile of the GUI, made where the runtime is, before it is initialized.\<close>

definition gui_profile :: "'l cl_ops \<Rightarrow> 'f dir_ops \<Rightarrow> environment \<Rightarrow> 'l \<Rightarrow> 'f \<Rightarrow> (browser_context \<times> 'f) option" where
  "gui_profile C D env command_line f =
     (case GetGuiUserDataDir C D env command_line [] f of
        (ok, user_data_dir, f') \<Rightarrow> if ok then Some (new_browser_context user_data_dir, f') else None)"

section \<open>The callback runs at most once\<close>

lemma sum_list_change:
  "i < length xs \<Longrightarrow> sum_list (map (f :: _ \<Rightarrow> nat) (xs[i := y])) + f (xs ! i) = sum_list (map f xs) + f y"
  by (induction xs arbitrary: i) (auto split: nat.split simp: nth_Cons algebra_simps)

lemma parts_started:
  assumes "PreMainMessageLoopRun C D env l L page e f p = Some (code, p')"
  shows "part_held p' + part_given p' \<le> part_held p + part_given p" "part_given p \<le> part_given p'"
  using assms
  by (auto simp: part_held_def part_given_def PreMainMessageLoopRun_def Let_def split: prod.splits if_splits)

lemma parts_looped: "part_held (parts_step e p) = part_held p" "part_given (parts_step e p) = part_given p"
  by (cases e; simp add: part_held_def part_given_def RequestQuit_def WillRunMainMessageLoop_def Let_def)+

lemma gui_parts_change:
  assumes "i < length (gd_parts s)" "s' = s\<lparr>gd_parts := (gd_parts s)[i := p]\<rparr>"
    and "part_held p + part_given p \<le> part_held (gd_parts s ! i) + part_given (gd_parts s ! i)"
    and "part_given (gd_parts s ! i) \<le> part_given p"
  shows "gui_held s' + gui_given s' \<le> gui_held s + gui_given s \<and> gui_given s \<le> gui_given s'"
  using assms(2-) sum_list_change [OF assms(1), of part_held p] sum_list_change [OF assms(1), of part_given p]
  by (simp add: gui_held_def gui_given_def)

interpretation gui_chain: hand_over gui_step gui_held gui_given
proof
  fix e :: "('l, 'f) content_env \<times> gui_ask" and s s'
  assume step: "gui_step e s = Some s'"
  obtain E a where e: "e = (E, a)" by fastforce
  have "gui_held s' + gui_given s' \<le> gui_held s + gui_given s \<and> gui_given s \<le> gui_given s'"
  proof (cases a)
    case (PartsStart i)
    with step e gui_parts_change [of i s] show ?thesis by (auto split: if_splits dest: parts_started)
  next
    case (PartsLoop i ev)
    with step e gui_parts_change [of i s] show ?thesis by (auto simp: parts_looped split: if_splits)
  qed (use step e in \<open>auto simp: BasicStartupComplete_def PreSandboxStartup_def CreateContentBrowserClient_def
      CreateContentRendererClient_def CreateBrowserMainParts_def new_main_parts_def gui_held_def gui_given_def
      part_held_def part_given_def split: if_splits option.splits\<close>)
  then show "gui_held s' + gui_given s' \<le> gui_held s + gui_given s" "gui_given s \<le> gui_given s'" by simp_all
qed

interpretation chrome_chain: hand_over chrome_step chrome_held chrome_given
proof
  fix e s s'
  assume step: "chrome_step e s = Some s'"
  have "chrome_held s' + chrome_given s' \<le> chrome_held s + chrome_given s \<and> chrome_given s \<le> chrome_given s'"
  proof (cases e)
    case (ChromeBrowserStarted i)
    let ?p = "map_option PostBrowserStart (cd_parts s ! i)"
    have "extra_held ?p + extra_given ?p = extra_held (cd_parts s ! i) + extra_given (cd_parts s ! i)"
      "extra_given (cd_parts s ! i) \<le> extra_given ?p"
      by (cases "cd_parts s ! i"; simp add: PostBrowserStart_def)+
    moreover from step ChromeBrowserStarted have
      "s' = (if i < length (cd_parts s) then s\<lparr>cd_parts := (cd_parts s)[i := ?p]\<rparr> else s)" by simp
    ultimately show ?thesis
      using sum_list_change [of i "cd_parts s" extra_held ?p] sum_list_change [of i "cd_parts s" extra_given ?p]
      by (cases "i < length (cd_parts s)") (simp_all add: chrome_held_def chrome_given_def)
  qed (use step in \<open>auto simp: ChromeCreateContentBrowserClient_def ChromeCreateBrowserMainParts_def chrome_held_def
      chrome_given_def split: option.splits if_splits\<close>)
  then show "chrome_held s' + chrome_given s' \<le> chrome_held s + chrome_given s" "chrome_given s \<le> chrome_given s'" by simp_all
qed

text \<open>
  However often and in whatever order Chromium asks for clients and parts and starts them, the program is handed
  at most one runtime, by either front; once it has been, no other is made.
\<close>

lemma runtime_is_handed_out_once:
  shows "gui_chain.steps es (new_gui_delegate options) = Some s \<Longrightarrow> gui_given s \<le> 1"
    and "chrome_chain.steps cs new_chrome_delegate = Some t \<Longrightarrow> chrome_given t \<le> 1"
proof -
  have "gui_held (new_gui_delegate options) + gui_given (new_gui_delegate options) \<le> 1"
    by (simp add: new_gui_delegate_def gui_held_def gui_given_def)
  then show "gui_chain.steps es (new_gui_delegate options) = Some s \<Longrightarrow> gui_given s \<le> 1" by (rule gui_chain.given_once)
  have "chrome_held new_chrome_delegate + chrome_given new_chrome_delegate \<le> 1"
    by (simp add: new_chrome_delegate_def chrome_held_def chrome_given_def)
  then show "chrome_chain.steps cs new_chrome_delegate = Some t \<Longrightarrow> chrome_given t \<le> 1" by (rule chrome_chain.given_once)
qed

text \<open>The front of Chrome looks before it runs the callback, so it stops at nothing.\<close>

lemma chrome_front_never_fails: "chrome_chain.steps cs s \<noteq> None"
proof (induction cs arbitrary: s)
  case (Cons c cs)
  have "chrome_step c s \<noteq> None" by (cases c) (simp_all add: Let_def split: option.split prod.split)
  with Cons show ?case by auto
qed simp

subsection \<open>The content front\<close>

text \<open>
  Parts that start well hand out the runtime that their options describe, on a profile whose directory exists and
  is absolute; parts that start without the callback stop the process, unless the start fails before that.
\<close>

lemma parts_start:
  assumes "directory_law D" "PreMainMessageLoopRun C D env l L page e f p = Some (0, p')"
  shows "\<exists>profile f' runtime. gui_profile C D env l f = Some (profile, f') \<and> dir_exists D f' (GetPath profile) \<and>
      dir_is_absolute D (GetPath profile) \<and> \<not> IsOffTheRecord profile \<and>
      GuiInitialize L page e (new_gui_runtime (mp_create_initial_tab p) (mp_shutdown_on_zero_tabs p)) = (True, runtime) \<and>
      p' = p\<lparr>mp_runtime_ready_callback := False, mp_runtime := Some runtime\<rparr>"
proof -
  obtain ok dir f' where d: "GetGuiUserDataDir C D env l [] f = (ok, dir, f')" by (metis prod.collapse)
  with assms(2) have ok: "ok" by (cases ok) (simp_all add: PreMainMessageLoopRun_def)
  with d gui_user_data_dir [OF assms(1), of C env l "[]" f dir f'] have "dir_exists D f' dir" "dir_is_absolute D dir" by simp_all
  moreover have "gui_profile C D env l f = Some (new_browser_context dir, f')" by (simp add: gui_profile_def d ok)
  ultimately show ?thesis
    using assms(2) d ok
    by (auto simp: PreMainMessageLoopRun_def GetPath_def IsOffTheRecord_def new_browser_context_def Let_def
        split: prod.splits if_splits)
qed

lemma parts_start_fails:
  assumes "PreMainMessageLoopRun C D env l L page e f p = None"
  shows "\<not> mp_runtime_ready_callback p"
  using assms by (auto simp: PreMainMessageLoopRun_def Let_def split: prod.splits if_splits)

text \<open>
  Started in the usual order the front stops at nothing once logging and resources are there, and the runtime
  is handed out exactly when the parts start well. A second client is left without the callback, so the parts it
  makes stop the process where the first would have run.
\<close>

definition usual_start :: "('l, 'f) content_env \<Rightarrow> (('l, 'f) content_env \<times> gui_ask) list" where
  "usual_start E = map (\<lambda>a. (E, a)) [AsksStartup, AsksBrowserClient, AsksResources, AsksParts, PartsStart 0]"

definition starts_well :: "('l, 'f) content_env \<Rightarrow> bool \<times> bool \<Rightarrow> bool" where
  "starts_well E options \<longleftrightarrow>
     fst (GetGuiUserDataDir (ce_line_ops E) (ce_dir_ops E) (ce_environment E) (ce_command_line E) [] (ce_files E)) \<and>
     fst (GuiInitialize (ce_lib E) (ce_page E) (ce_windows E) (new_gui_runtime (fst options) (snd options)))"

lemmas front_defs = BasicStartupComplete_def PreSandboxStartup_def CreateContentBrowserClient_def
  CreateBrowserMainParts_def new_main_parts_def new_gui_delegate_def PreMainMessageLoopRun_def starts_well_def

lemma usual_start_works:
  assumes "ce_logging_ok E" "ce_embedded E \<or> ce_assets E \<noteq> None"
  shows "\<exists>s. gui_chain.steps (usual_start E) (new_gui_delegate options) = Some s \<and>
    gui_given s = of_bool (starts_well E options)"
proof -
  have "InitializeResourceBundle (ce_embedded E) (ce_line_ops E) (ce_dir_ops E) (ce_exists E)
       (ce_lang E) (ce_assets E) (ce_command_line E) \<noteq> None"
    using assms(2) by (cases "ce_assets E") (simp_all add: InitializeResourceBundle_def Let_def)
  with assms(1) show ?thesis
    by (auto simp: usual_start_def front_defs gui_given_def part_given_def Let_def split: prod.splits)
qed

lemma second_client_stops_the_process:
  assumes "gui_chain.steps (usual_start E) (new_gui_delegate options) = Some s" "starts_well E options"
  shows "gui_chain.steps [(E, AsksBrowserClient), (E, AsksParts), (E, PartsStart 1)] s = None"
proof -
  obtain dir f' where "GetGuiUserDataDir (ce_line_ops E) (ce_dir_ops E) (ce_environment E) (ce_command_line E) [] (ce_files E) =
      (True, dir, f')"
    using assms(2) by (metis prod.collapse starts_well_def)
  moreover obtain runtime where
    "GuiInitialize (ce_lib E) (ce_page E) (ce_windows E) (new_gui_runtime (fst options) (snd options)) = (True, runtime)"
    using assms(2) by (metis prod.collapse starts_well_def)
  moreover have "ce_logging_ok E" using assms(1) by (auto simp: usual_start_def BasicStartupComplete_def split: if_splits)
  ultimately show ?thesis
    using assms(1) by (auto simp: usual_start_def front_defs Let_def bind_eq_Some_conv)
qed

text \<open>The packs are used only when both are there, and the locale is never empty.\<close>

lemma resources_there:
  assumes "InitializeResourceBundle embedded C D exists kLang assets command_line = Some bundle"
  shows "case bundle of EmbeddedBuffers \<Rightarrow> embedded | Packs a b \<Rightarrow> exists a \<and> exists b | LocaleResources l \<Rightarrow> l \<noteq> []"
  using assms by (auto simp: InitializeResourceBundle_def Let_def split: option.splits if_splits)

text \<open>Every front runs \<open>ContentMain\<close> with arguments: the host's, or those of the command line.\<close>

lemma content_main_arguments:
  "\<exists>argc' argv'. SetContentMainArgv argc argv own_argv = (argc', argv') \<and>
     RunGuiContentMain m argc argv own_argv options = m (new_gui_delegate options) (argc', argv') \<and>
     RunHeadlessContentMain h d argc argv own_argv k = h (d k) (argc', argv') \<and>
     RunChromeBrowserMain (SetUpChromePlatform argc argv) c argc argv own_argv = c (argc', argv') \<and>
     (if 0 < argc \<and> argv \<noteq> None then argc' = argc \<and> Some argv' = argv else argc' = int (length own_argv) \<and> argv' = own_argv)"
  by (auto simp: RunGuiContentMain_def RunHeadlessContentMain_def RunChromeBrowserMain_def SetUpChromePlatform_def
      SetContentMainArgv_def split: option.split)

end
