(* ===== verification/Switches_Test.thy ===== *)
theory Switches_Test
  imports Gui_Shell
begin

section \<open>The repository's test of the embedder's switches\<close>

text \<open>
  \<open>embedder_switches_test.cc\<close>, test by test, over the model of \<open>embedder_switches.cc\<close> and of
  \<open>gui/content_browser_client.cc\<close>. A test reads and leaves the process-wide policy; \<open>none\<close> is a command line
  without a program. The messages on the error stream are left out. The tests pass for every command line, every
  set of Chromium's names and every splitting that keeps the documented laws.
\<close>

definition ExpectEqual :: "string \<Rightarrow> string \<Rightarrow> bool" where
  "ExpectEqual actual expected \<longleftrightarrow> actual = expected"

definition ExpectHasSwitch :: "'c cl_ops \<Rightarrow> 'c \<Rightarrow> string \<Rightarrow> bool" where
  "ExpectHasSwitch C command_line name \<longleftrightarrow> cl_has C command_line name"

definition ExpectNoSwitch :: "'c cl_ops \<Rightarrow> 'c \<Rightarrow> string \<Rightarrow> bool" where
  "ExpectNoSwitch C command_line name \<longleftrightarrow> \<not> cl_has C command_line name"

text \<open>A test looks at the command line that was not a null pointer.\<close>

definition on_line :: "'c option \<Rightarrow> ('c \<Rightarrow> bool) \<Rightarrow> bool" where
  "on_line child ok = (case child of None \<Rightarrow> False | Some c \<Rightarrow> ok c)"

definition all_child :: EmbedderSwitch where
  "all_child = \<lparr>es_name = ''all-child'', es_value = None, es_scope = kSwitchScopeAllChildren\<rparr>"

definition gpu_only :: EmbedderSwitch where
  "gpu_only = \<lparr>es_name = ''gpu-only'', es_value = None, es_scope = kSwitchScopeGpuChild\<rparr>"

definition no_fallback :: "switch_names \<Rightarrow> EmbedderSwitch" where
  "no_fallback N =
     \<lparr>es_name = kDisableFeatures N, es_value = Some ''FallbackToSWIfGLES3NotSupported'', es_scope = kSwitchScopeGpuChild\<rparr>"

definition TestUnknownChildReceivesAllChildrenSwitch ::
  "'c cl_ops \<Rightarrow> switch_names \<Rightarrow> base_lib \<Rightarrow> 'c \<Rightarrow> policy \<Rightarrow> bool \<times> policy" where
  "TestUnknownChildReceivesAllChildrenSwitch C N L none policy0 =
     (let policy = SetEmbedderSwitches [all_child] policy0;
          child = AppendEmbedderSwitchesForChild C N L policy (Some none);
          ok = on_line child (\<lambda>c. ExpectHasSwitch C c ''all-child'')
      in (ok, ClearEmbedderSwitches policy))"

definition TestUnknownChildDoesNotReceiveGpuOnlySwitch ::
  "'c cl_ops \<Rightarrow> switch_names \<Rightarrow> base_lib \<Rightarrow> 'c \<Rightarrow> policy \<Rightarrow> bool \<times> policy" where
  "TestUnknownChildDoesNotReceiveGpuOnlySwitch C N L none policy0 =
     (let policy = SetEmbedderSwitches [gpu_only] policy0;
          child = AppendEmbedderSwitchesForChild C N L policy (Some none);
          ok = on_line child (\<lambda>c. ExpectNoSwitch C c ''gpu-only'')
      in (ok, ClearEmbedderSwitches policy))"

definition TestContentBrowserClientForwardsGpuChildSwitch ::
  "'c cl_ops \<Rightarrow> switch_names \<Rightarrow> base_lib \<Rightarrow> 'c \<Rightarrow> policy \<Rightarrow> bool \<times> policy" where
  "TestContentBrowserClientForwardsGpuChildSwitch C N L none policy0 =
     (let policy = SetEmbedderSwitches [all_child, no_fallback N] policy0;
          child = AppendExtraCommandLineSwitches C N L policy (cl_set C (kProcessType N) (kGpuProcess N) none);
          ok = on_line child (\<lambda>c. ExpectEqual (cl_value C c (kDisableFeatures N)) ''FallbackToSWIfGLES3NotSupported'');
          ok = (if on_line child (\<lambda>c. \<not> cl_has C c kGui) then False else ok);
          ok = (on_line child (\<lambda>c. ExpectHasSwitch C c ''all-child'') \<and> ok)
      in (ok, ClearEmbedderSwitches policy))"

definition TestGpuChildReceivesDefaultFallbackSwitch ::
  "'c cl_ops \<Rightarrow> switch_names \<Rightarrow> base_lib \<Rightarrow> 'c \<Rightarrow> policy \<Rightarrow> bool \<times> policy" where
  "TestGpuChildReceivesDefaultFallbackSwitch C N L none policy0 =
     (let policy = SetEmbedderSwitches [] policy0;
          child = AppendEmbedderSwitchesForChild C N L policy (Some (cl_set C (kProcessType N) (kGpuProcess N) none));
          ok = on_line child (\<lambda>c. ExpectEqual (cl_value C c (kDisableFeatures N)) ''FallbackToSWIfGLES3NotSupported'');
          ok = (on_line child (\<lambda>c. ExpectHasSwitch C c ''disable-wayland-gbm-surfaceless'') \<and> ok);
          ok = (on_line child (\<lambda>c. ExpectHasSwitch C c ''browserd-force-gles2-context'') \<and> ok)
      in (ok, ClearEmbedderSwitches policy))"

definition TestRendererReceivesAllChildrenButNotGpuOnlySwitch ::
  "'c cl_ops \<Rightarrow> switch_names \<Rightarrow> base_lib \<Rightarrow> 'c \<Rightarrow> policy \<Rightarrow> bool \<times> policy" where
  "TestRendererReceivesAllChildrenButNotGpuOnlySwitch C N L none policy0 =
     (let policy = SetEmbedderSwitches [all_child, no_fallback N] policy0;
          child = AppendEmbedderSwitchesForChild C N L policy (Some (cl_set C (kProcessType N) (kRendererProcess N) none));
          ok = on_line child (\<lambda>c. ExpectEqual (cl_value C c (kDisableFeatures N)) []);
          ok = (on_line child (\<lambda>c. ExpectHasSwitch C c ''all-child'') \<and> ok)
      in (ok, ClearEmbedderSwitches policy))"

definition TestAllChildrenAndFeatureMerging ::
  "'c cl_ops \<Rightarrow> switch_names \<Rightarrow> base_lib \<Rightarrow> 'c \<Rightarrow> policy \<Rightarrow> bool \<times> policy" where
  "TestAllChildrenAndFeatureMerging C N L none policy0 =
     (let policy = SetEmbedderSwitches
            [\<lparr>es_name = kDisableFeatures N, es_value = Some ''FallbackToSWIfGLES3NotSupported,DefaultANGLEVulkan'',
              es_scope = kSwitchScopeAllChildren\<rparr>] policy0;
          child = AppendEmbedderSwitchesForChild C N L policy
            (Some (cl_set C (kDisableFeatures N) ''Vulkan'' (cl_set C (kProcessType N) (kGpuProcess N) none)));
          ok = on_line child (\<lambda>c. ExpectEqual (cl_value C c (kDisableFeatures N))
            ''Vulkan,FallbackToSWIfGLES3NotSupported,DefaultANGLEVulkan'')
      in (ok, ClearEmbedderSwitches policy))"

definition TestBrowserScope ::
  "'c cl_ops \<Rightarrow> switch_names \<Rightarrow> base_lib \<Rightarrow> 'c \<Rightarrow> policy \<Rightarrow> bool \<times> policy" where
  "TestBrowserScope C N L none policy0 =
     (let policy = SetEmbedderSwitches
            [\<lparr>es_name = ''browser-only'', es_value = None, es_scope = kSwitchScopeBrowser\<rparr>] policy0;
          browser = AppendEmbedderSwitchesForBrowser C N L policy (Some none);
          ok = on_line browser (\<lambda>c. cl_has C c ''browser-only'')
      in (ok, ClearEmbedderSwitches policy))"

text \<open>The exit code: the first test that fails ends the program.\<close>

fun run_tests :: "(policy \<Rightarrow> bool \<times> policy) list \<Rightarrow> policy \<Rightarrow> int" where
  "run_tests [] policy = 0"
| "run_tests (t # ts) policy = (let (ok, policy') = t policy in if \<not> ok then 1 else run_tests ts policy')"

definition switches_test_main :: "'c cl_ops \<Rightarrow> switch_names \<Rightarrow> base_lib \<Rightarrow> 'c \<Rightarrow> policy \<Rightarrow> int" where
  "switches_test_main C N L none policy =
     run_tests
       [TestUnknownChildReceivesAllChildrenSwitch C N L none,
        TestUnknownChildDoesNotReceiveGpuOnlySwitch C N L none,
        TestContentBrowserClientForwardsGpuChildSwitch C N L none,
        TestGpuChildReceivesDefaultFallbackSwitch C N L none,
        TestRendererReceivesAllChildrenButNotGpuOnlySwitch C N L none,
        TestAllChildrenAndFeatureMerging C N L none,
        TestBrowserScope C N L none] policy"

section \<open>The tests pass\<close>

text \<open>What the tests take for granted of Chromium's names, and of a fresh command line.\<close>

definition test_names :: "switch_names \<Rightarrow> bool" where
  "test_names N \<longleftrightarrow> names_distinct N \<and>
     distinct [kProcessType N, kDisableFeatures N, kEnableFeatures N, ''all-child'', ''gpu-only'', kGui,
       kDisableWaylandGbmSurfaceless, kBrowserdForceGles2Context] \<and>
     kGpuProcess N \<noteq> [] \<and> kRendererProcess N \<noteq> [] \<and> kGpuProcess N \<noteq> kRendererProcess N"

definition fresh_line :: "'c cl_ops \<Rightarrow> 'c \<Rightarrow> bool" where
  "fresh_line C c \<longleftrightarrow> (\<forall>n. \<not> cl_has C c n)"

lemma test_names_ref_names: "test_names ref_names"
  by code_simp

text \<open>The splittings that the tests meet.\<close>

lemma test_splits:
  assumes "split_law L"
  shows "lib_split L [] = []"
    "lib_split L ''Vulkan'' = [''Vulkan'']"
    "lib_split L ''FallbackToSWIfGLES3NotSupported'' = [''FallbackToSWIfGLES3NotSupported'']"
    "lib_split L ''FallbackToSWIfGLES3NotSupported,DefaultANGLEVulkan'' =
       [''FallbackToSWIfGLES3NotSupported'', ''DefaultANGLEVulkan'']"
    "lib_split L ''Vulkan,FallbackToSWIfGLES3NotSupported,DefaultANGLEVulkan'' =
       [''Vulkan'', ''FallbackToSWIfGLES3NotSupported'', ''DefaultANGLEVulkan'']"
proof -
  have plain: "plain_piece s \<Longrightarrow> lib_split L s = [s]" for s using assms by (simp add: split_law_def)
  have comma: "lib_split L (a @ CHR '','' # b) = lib_split L a @ lib_split L b" for a b
    using assms by (simp add: split_law_def)
  show "lib_split L [] = []" using assms by (simp add: split_law_def)
  show v: "lib_split L ''Vulkan'' = [''Vulkan'']" by (rule plain) code_simp
  show f: "lib_split L ''FallbackToSWIfGLES3NotSupported'' = [''FallbackToSWIfGLES3NotSupported'']" by (rule plain) code_simp
  have d: "lib_split L ''DefaultANGLEVulkan'' = [''DefaultANGLEVulkan'']" by (rule plain) code_simp
  show fd: "lib_split L ''FallbackToSWIfGLES3NotSupported,DefaultANGLEVulkan'' =
       [''FallbackToSWIfGLES3NotSupported'', ''DefaultANGLEVulkan'']"
    using comma [of "''FallbackToSWIfGLES3NotSupported''" "''DefaultANGLEVulkan''"] f d by simp
  show "lib_split L ''Vulkan,FallbackToSWIfGLES3NotSupported,DefaultANGLEVulkan'' =
       [''Vulkan'', ''FallbackToSWIfGLES3NotSupported'', ''DefaultANGLEVulkan'']"
    using comma [of "''Vulkan''" "''FallbackToSWIfGLES3NotSupported,DefaultANGLEVulkan''"] v fd by simp
qed

lemma test_merges:
  assumes "split_law L"
  shows "MergeCommaSeparatedValues L [] v = v"
    "MergeCommaSeparatedValues L ''FallbackToSWIfGLES3NotSupported'' ''FallbackToSWIfGLES3NotSupported'' =
       ''FallbackToSWIfGLES3NotSupported''"
    "MergeCommaSeparatedValues L ''Vulkan'' ''FallbackToSWIfGLES3NotSupported,DefaultANGLEVulkan'' =
       ''Vulkan,FallbackToSWIfGLES3NotSupported,DefaultANGLEVulkan''"
    "MergeCommaSeparatedValues L ''Vulkan,FallbackToSWIfGLES3NotSupported,DefaultANGLEVulkan''
       ''FallbackToSWIfGLES3NotSupported'' = ''Vulkan,FallbackToSWIfGLES3NotSupported,DefaultANGLEVulkan''"
  by (simp_all add: MergeCommaSeparatedValues_def test_splits [OF assms])

lemmas test_defs = SetEmbedderSwitches_def ClearEmbedderSwitches_def all_child_def gpu_only_def no_fallback_def
  on_line_def ExpectEqual_def ExpectHasSwitch_def ExpectNoSwitch_def

lemmas scope_defs = kSwitchScopeAllChildren_def kSwitchScopeGpuChild_def kSwitchScopeRendererChild_def
  kSwitchScopeBrowser_def

lemmas switch_defs = AppendEmbedderSwitchesForChild_def AppendEmbedderSwitchesForBrowser_def AppendSwitchesForScope_def
  AppendDefaultGpuChildSwitches_def AppendSwitch_def HasCommaSeparatedValue_def IsCommaMergedSwitch_def
  AppendExtraCommandLineSwitches_def ScopeForChildProcess_def

text \<open>
  Each test passes and leaves the policy empty, whatever command line and names Chromium has, as long
  as they keep their documented laws.
\<close>

lemma switches_tests:
  assumes "command_line_law C" "split_law L" "test_names N" "fresh_line C none"
  shows "TestUnknownChildReceivesAllChildrenSwitch C N L none p = (True, [])"
    "TestUnknownChildDoesNotReceiveGpuOnlySwitch C N L none p = (True, [])"
    "TestContentBrowserClientForwardsGpuChildSwitch C N L none p = (True, [])"
    "TestGpuChildReceivesDefaultFallbackSwitch C N L none p = (True, [])"
    "TestRendererReceivesAllChildrenButNotGpuOnlySwitch C N L none p = (True, [])"
    "TestAllChildrenAndFeatureMerging C N L none p = (True, [])"
    "TestBrowserScope C N L none p = (True, [])"
proof -
  note line = command_line_simps [OF assms(1)]
  note splits = test_splits [OF assms(2)] and merges = test_merges [OF assms(2)]
  have fresh: "\<not> cl_has C none n" "cl_value C none n = []" for n
    using assms(4) line(5) by (simp_all add: fresh_line_def)
  have names: "kProcessType N \<noteq> kDisableFeatures N" "kProcessType N \<noteq> kEnableFeatures N" "kProcessType N \<noteq> ''all-child''"
    "kProcessType N \<noteq> ''gpu-only''" "kProcessType N \<noteq> ''gui''" "kProcessType N \<noteq> ''disable-wayland-gbm-surfaceless''"
    "kProcessType N \<noteq> ''browserd-force-gles2-context''" "kDisableFeatures N \<noteq> kEnableFeatures N"
    "kDisableFeatures N \<noteq> ''all-child''" "kDisableFeatures N \<noteq> ''gpu-only''" "kDisableFeatures N \<noteq> ''gui''"
    "kDisableFeatures N \<noteq> ''disable-wayland-gbm-surfaceless''" "kDisableFeatures N \<noteq> ''browserd-force-gles2-context''"
    "kEnableFeatures N \<noteq> ''all-child''" "kEnableFeatures N \<noteq> ''gpu-only''" "kEnableFeatures N \<noteq> ''gui''"
    "kEnableFeatures N \<noteq> ''disable-wayland-gbm-surfaceless''" "kEnableFeatures N \<noteq> ''browserd-force-gles2-context''"
    "kDisableFeatures N \<noteq> []" "kGpuProcess N \<noteq> []" "kRendererProcess N \<noteq> []" "kGpuProcess N \<noteq> kRendererProcess N"
    using assms(3) unfolding test_names_def names_distinct_def kGui_def kDisableWaylandGbmSurfaceless_def
      kBrowserdForceGles2Context_def by auto
  note names = names names [symmetric]
  note constants = kGui_def kDisableWaylandGbmSurfaceless_def kBrowserdForceGles2Context_def kFallbackToSWIfGLES3NotSupported_def
  show "TestUnknownChildReceivesAllChildrenSwitch C N L none p = (True, [])"
    by (simp add: TestUnknownChildReceivesAllChildrenSwitch_def test_defs scope_defs switch_defs Let_def fresh line names)
  show "TestUnknownChildDoesNotReceiveGpuOnlySwitch C N L none p = (True, [])"
    by (simp add: TestUnknownChildDoesNotReceiveGpuOnlySwitch_def test_defs scope_defs switch_defs Let_def fresh line names)
  show "TestContentBrowserClientForwardsGpuChildSwitch C N L none p = (True, [])"
    by (simp add: TestContentBrowserClientForwardsGpuChildSwitch_def test_defs scope_defs switch_defs Let_def fresh line names
        splits merges constants)
  show "TestGpuChildReceivesDefaultFallbackSwitch C N L none p = (True, [])"
    by (simp add: TestGpuChildReceivesDefaultFallbackSwitch_def test_defs scope_defs switch_defs Let_def fresh line names
        splits merges constants)
  show "TestRendererReceivesAllChildrenButNotGpuOnlySwitch C N L none p = (True, [])"
    by (simp add: TestRendererReceivesAllChildrenButNotGpuOnlySwitch_def test_defs scope_defs switch_defs Let_def fresh line
        names splits merges constants)
  show "TestAllChildrenAndFeatureMerging C N L none p = (True, [])"
    by (simp add: TestAllChildrenAndFeatureMerging_def test_defs scope_defs switch_defs Let_def fresh line names splits merges
        constants)
  show "TestBrowserScope C N L none p = (True, [])"
    by (simp add: TestBrowserScope_def test_defs scope_defs switch_defs Let_def fresh line names)
qed

text \<open>The test program ends with success.\<close>

lemma switches_test_passes:
  assumes "command_line_law C" "split_law L" "test_names N" "fresh_line C none"
  shows "switches_test_main C N L none policy = 0"
  by (simp add: switches_test_main_def switches_tests [OF assms])

lemma switches_test_passes_witness: "switches_test_main list_cl ref_names ref_lib [] [all_child] = 0"
  by (rule switches_test_passes [OF list_cl_law split_law_ref_lib test_names_ref_names])
    (simp add: fresh_line_def list_cl_def)

end
