(* ===== verification/Page_Snapshot.thy ===== *)
theory Page_Snapshot
  imports Input
begin

section \<open>The snapshot script (\<open>core/browser_controller.cc\<close>)\<close>

text \<open>
  \<open>kDomSnapshotScript\<close> is run in a page and returns the text that the client sees: one line for
  each element it may act on, with a reference that later scripts look up in
  \<open>window.__browserdDomRefs\<close>. It is translated here statement by statement. The page is what
  the script reads of it: the elements by identity, those of the document in tree order, the body
  and the root, and the properties of an element. A page that replaces the functions of the
  language itself is not modelled.
\<close>

subsection \<open>JavaScript strings and values\<close>

text \<open>A string is a list of UTF-16 code units; \<open>js\<close> is a literal.\<close>

type_synonym js_string = "16 word list"

definition js :: "string \<Rightarrow> js_string" where
  "js s = map of_char s"

datatype js_value =
    JsUndefined
  | JsNull
  | JsString js_string
  | JsOther bool js_string   \<comment> \<open>another value: whether it is truthy, and what \<open>String\<close> gives\<close>

fun truthy :: "js_value \<Rightarrow> bool" where
  "truthy JsUndefined = False"
| "truthy JsNull = False"
| "truthy (JsString s) = (s \<noteq> [])"
| "truthy (JsOther b s) = b"

fun js_text :: "js_value \<Rightarrow> js_string" where
  "js_text JsUndefined = js ''undefined''"
| "js_text JsNull = js ''null''"
| "js_text (JsString s) = s"
| "js_text (JsOther b s) = s"

definition js_or :: "js_value \<Rightarrow> js_value \<Rightarrow> js_value" where
  "js_or a b = (if truthy a then a else b)"

text \<open>The white space of \<open>\s\<close> and of \<open>trim\<close>.\<close>

definition js_blank :: "16 word \<Rightarrow> bool" where
  "js_blank c \<longleftrightarrow>
     c \<in> {0x09, 0x0A, 0x0B, 0x0C, 0x0D, 0x20, 0xA0, 0x1680, 0x2028, 0x2029, 0x202F, 0x205F, 0x3000, 0xFEFF} \<or>
     0x2000 \<le> c \<and> c \<le> 0x200A"

text \<open>
  \<open>toLowerCase\<close>, as far as comparisons with ASCII words can tell: the Kelvin sign is the only
  other unit whose lower case is an ASCII letter.
\<close>

definition js_lower :: "js_string \<Rightarrow> js_string" where
  "js_lower = map (\<lambda>c. if 0x41 \<le> c \<and> c \<le> 0x5A then c + 0x20 else if c = 0x212A then 0x6B else c)"

text \<open>\<open>replace(/\s+/g, ' ')\<close>; the flag says that the unit before was white space.\<close>

fun collapse :: "bool \<Rightarrow> js_string \<Rightarrow> js_string" where
  "collapse after [] = []"
| "collapse after (c # cs) =
     (if js_blank c then (if after then collapse True cs else 0x20 # collapse True cs)
      else c # collapse False cs)"

definition js_trim :: "js_string \<Rightarrow> js_string" where
  "js_trim s = rev (dropWhile js_blank (rev (dropWhile js_blank s)))"

definition clean :: "js_value \<Rightarrow> js_string" where
  "clean v = take 160 (js_trim (collapse False (js_text (js_or v (JsString [])))))"

definition js_escape :: "js_string \<Rightarrow> js_string" where
  "js_escape s = concat (map (\<lambda>c. if c = 0x5C \<or> c = 0x22 then [0x5C, c] else [c]) s)"

definition quoted :: "js_string \<Rightarrow> js_string" where
  "quoted v = js_escape (clean (JsString v))"

subsection \<open>Elements\<close>

record element =
  el_is_element :: bool              \<comment> \<open>\<open>nodeType === Node.ELEMENT_NODE\<close>\<close>
  el_tag_name :: js_string
  el_attributes :: "(js_string \<times> js_string) list"
  el_display :: js_string            \<comment> \<open>of the computed style\<close>
  el_visibility :: js_string
  el_left :: f64                     \<comment> \<open>of \<open>getBoundingClientRect()\<close>\<close>
  el_top :: f64
  el_width :: f64
  el_height :: f64
  el_is_content_editable :: bool
  el_value :: js_value
  el_inner_text :: js_value
  el_text_content :: js_value
  el_href :: js_value
  el_id :: js_value
  el_name :: js_value
  el_is_connected :: bool
  el_has_focus :: bool               \<comment> \<open>there is a method \<open>focus\<close>\<close>
  el_has_range_text :: bool          \<comment> \<open>\<open>setRangeText\<close> is a function\<close>
  el_selection :: "(nat \<times> nat) option" \<comment> \<open>\<open>selectionStart\<close> and \<open>selectionEnd\<close>, or null\<close>
  el_options :: "(js_string \<times> bool) list" \<comment> \<open>\<open>value\<close> and \<open>selected\<close> of the options of a select\<close>

definition getAttribute :: "element \<Rightarrow> string \<Rightarrow> js_value" where
  "getAttribute el n = (case map_of (el_attributes el) (js n) of None \<Rightarrow> JsNull | Some v \<Rightarrow> JsString v)"

definition isVisible :: "f64_ops \<Rightarrow> element \<Rightarrow> bool" where
  "isVisible F el =
     (if \<not> el_is_element el then False
      else if el_display el = js ''none'' \<or> el_visibility el = js ''hidden'' then False
      else f_positive F (el_width el) \<and> f_positive F (el_height el))"

definition is_heading :: "js_string \<Rightarrow> bool" where
  "is_heading tag = (case tag of [h, d] \<Rightarrow> h = 0x68 \<and> 0x31 \<le> d \<and> d \<le> 0x36 | _ \<Rightarrow> False)"

definition roleFor :: "element \<Rightarrow> js_string" where
  "roleFor el =
     (let explicit = getAttribute el ''role'';
          tag = js_lower (el_tag_name el);
          type = js_lower (js_text (js_or (getAttribute el ''type'') (JsString (js ''text''))))
      in if truthy explicit then js_text explicit
         else if tag = js ''a'' then js ''link''
         else if tag = js ''button'' then js ''button''
         else if tag = js ''select'' then js ''combobox''
         else if tag = js ''textarea'' then js ''textbox''
         else if tag = js ''input'' then
           (if type = js ''checkbox'' then js ''checkbox''
            else if type = js ''radio'' then js ''radio''
            else if type \<in> {js ''button'', js ''submit'', js ''reset''} then js ''button''
            else js ''textbox'')
         else if is_heading tag then js ''heading''
         else if tag = js ''img'' then js ''img''
         else if tag = js ''summary'' then js ''button''
         else if el_is_content_editable el then js ''textbox''
         else js ''generic'')"

definition nameFor :: "element \<Rightarrow> js_string" where
  "nameFor el =
     clean (js_or (getAttribute el ''aria-label'') (js_or (getAttribute el ''alt'')
       (js_or (getAttribute el ''title'') (js_or (getAttribute el ''placeholder'')
       (js_or (el_value el) (js_or (el_inner_text el) (js_or (el_text_content el)
       (js_or (el_href el) (js_or (el_id el) (js_or (el_name el) (JsString [])))))))))))"

text \<open>
  The selector list. A type selector compares the tag without case, an attribute selector looks at
  the attribute as it is written.
\<close>

definition selector_matches :: "element \<Rightarrow> bool" where
  "selector_matches el =
     (let tag = js_lower (el_tag_name el);
          has = (\<lambda>n. getAttribute el n \<noteq> JsNull)
      in tag = js ''a'' \<and> has ''href'' \<or>
         tag \<in> {js ''button'', js ''input'', js ''textarea'', js ''select'', js ''summary'', js ''img'',
           js ''h1'', js ''h2'', js ''h3'', js ''h4'', js ''h5'', js ''h6''} \<or>
         has ''role'' \<or>
         getAttribute el ''contenteditable'' \<in> {JsString [], JsString (js ''true'')} \<or>
         has ''tabindex'' \<and> getAttribute el ''tabindex'' \<noteq> JsString (js ''-1''))"

subsection \<open>The page and the script\<close>

datatype page_action =
    ScrollIntoView nat
  | FocusElement nat
  | DispatchMouse nat string f64 f64
  | DispatchInput nat js_string
  | DispatchPlain nat string
  | DispatchDrag nat string f64 f64
  | SetValue nat js_string
  | SetRangeText nat js_string nat nat
  | SetTextContent nat js_string
  | InsertTextCommand js_string
  | SetSelected nat nat bool

record page =
  doc_element :: "nat \<Rightarrow> element"
  doc_order :: "nat list"            \<comment> \<open>the elements of the document, in tree order\<close>
  doc_body :: "nat option"
  doc_root :: "nat option"
  doc_refs :: "nat list option"      \<comment> \<open>\<open>window.__browserdDomRefs\<close>\<close>
  doc_actions :: "page_action list"  \<comment> \<open>what scripts did to the page, in order\<close>

definition entry_line :: "page \<Rightarrow> nat \<Rightarrow> js_value \<Rightarrow> nat \<Rightarrow> js_string" where
  "entry_line D ref roleOverride el =
     (let role = js_text (js_or roleOverride (JsString (roleFor (doc_element D el))));
          name = nameFor (doc_element D el)
      in role @ (if name \<noteq> [] then js '' '' @ [0x22] @ quoted name @ [0x22] else []) @
         js '' [ref=dom:'' @ js (show_nat ref) @ js '']'')"

definition add :: "page \<Rightarrow> nat option \<Rightarrow> js_value \<Rightarrow> nat list \<times> js_string list \<Rightarrow> nat list \<times> js_string list" where
  "add D el roleOverride st =
     (case el of
        None \<Rightarrow> st
      | Some e \<Rightarrow>
          if e \<in> set (fst st) then st
          else (fst st @ [e], snd st @ [entry_line D (length (fst st)) roleOverride e]))"

definition query_selector_all :: "page \<Rightarrow> nat list" where
  "query_selector_all D = filter (\<lambda>e. selector_matches (doc_element D e)) (doc_order D)"

fun collect :: "f64_ops \<Rightarrow> page \<Rightarrow> nat list \<Rightarrow> nat list \<times> js_string list \<Rightarrow> nat list \<times> js_string list" where
  "collect F D [] st = st"
| "collect F D (e # es) st =
     (if length (fst st) \<ge> 500 then st
      else if \<not> isVisible F (doc_element D e) then collect F D es st
      else collect F D es (add D (Some e) JsUndefined st))"

fun js_join :: "js_string \<Rightarrow> js_string list \<Rightarrow> js_string" where
  "js_join sep [] = []"
| "js_join sep [l] = l"
| "js_join sep (l # ls) = l @ sep @ js_join sep ls"

definition first_node :: "page \<Rightarrow> nat option" where
  "first_node D = (case doc_body D of Some b \<Rightarrow> Some b | None \<Rightarrow> doc_root D)"

definition DomSnapshot :: "f64_ops \<Rightarrow> page \<Rightarrow> js_string \<times> page" where
  "DomSnapshot F D =
     (let (refs, lines) =
        collect F D (query_selector_all D) (add D (first_node D) (JsString (js ''document'')) ([], []))
      in (js_join [0x0A] lines @ [0x0A], D\<lparr>doc_refs := Some refs\<rparr>))"

subsection \<open>Which elements are listed\<close>

text \<open>
  The reference: the first node, then the visible elements that match, in document order, up to
  500 in all.
\<close>

definition listed_elements :: "f64_ops \<Rightarrow> page \<Rightarrow> nat list" where
  "listed_elements F D =
     take 500 ((case first_node D of None \<Rightarrow> [] | Some b \<Rightarrow> [b]) @
       filter (\<lambda>e. first_node D \<noteq> Some e \<and> isVisible F (doc_element D e)) (query_selector_all D))"

definition line_of :: "page \<Rightarrow> nat list \<Rightarrow> nat \<Rightarrow> js_string" where
  "line_of D refs k =
     entry_line D k (if k = 0 \<and> first_node D \<noteq> None then JsString (js ''document'') else JsUndefined) (refs ! k)"

definition listed_lines :: "page \<Rightarrow> nat list \<Rightarrow> js_string list" where
  "listed_lines D refs = map (line_of D refs) [0..<length refs]"

lemma add_simps:
  "add D None r st = st"
  "e \<in> set (fst st) \<Longrightarrow> add D (Some e) r st = st"
  "e \<notin> set (fst st) \<Longrightarrow> fst (add D (Some e) r st) = fst st @ [e]"
  "e \<notin> set (fst st) \<Longrightarrow> snd (add D (Some e) r st) = snd st @ [entry_line D (length (fst st)) r e]"
  by (simp_all add: add_def)

lemma collect_refs:
  "distinct es \<Longrightarrow> length (fst st) \<le> 500 \<Longrightarrow>
     fst (collect F D es st) =
     take 500 (fst st @ filter (\<lambda>e. e \<notin> set (fst st) \<and> isVisible F (doc_element D e)) es)"
proof (induction es arbitrary: st)
  case (Cons e es)
  show ?case
  proof (cases "length (fst st) \<ge> 500")
    case True
    with Cons.prems show ?thesis by simp
  next
    case less: False
    show ?thesis
    proof (cases "isVisible F (doc_element D e) \<and> e \<notin> set (fst st)")
      case True
      have "500 - length (fst st) = Suc (499 - length (fst st))" using less by simp
      with True Cons less have "fst (collect F D (e # es) st) =
          take 500 (fst st @ [e] @ filter (\<lambda>x. x \<notin> set (fst st @ [e]) \<and> isVisible F (doc_element D x)) es)"
        by (simp add: add_simps)
      also have "filter (\<lambda>x. x \<notin> set (fst st @ [e]) \<and> isVisible F (doc_element D x)) es =
          filter (\<lambda>x. x \<notin> set (fst st) \<and> isVisible F (doc_element D x)) es"
        using Cons.prems(1) by (intro filter_cong) auto
      finally show ?thesis using True by simp
    next
      case False
      with Cons less show ?thesis by (cases "isVisible F (doc_element D e)") (simp_all add: add_simps)
    qed
  qed
qed simp

lemma collect_append: "\<exists>more. fst (collect F D es st) = fst st @ more"
proof (induction es arbitrary: st)
  case (Cons e es)
  have "\<exists>more. fst (add D (Some e) JsUndefined st) = fst st @ more"
    by (cases "e \<in> set (fst st)") (simp_all add: add_simps)
  with Cons [of "add D (Some e) JsUndefined st"] Cons [of st] show ?case by auto
qed simp

lemma line_of_append: "k < length a \<Longrightarrow> line_of D (a @ b) k = line_of D a k"
  by (simp add: line_of_def nth_append)

lemma listed_lines_snoc: "listed_lines D (a @ [e]) = listed_lines D a @ [line_of D (a @ [e]) (length a)]"
  by (simp add: listed_lines_def line_of_append)

text \<open>The lines go with the references: an entry that is added is the line of its reference.\<close>

lemma collect_lines:
  "snd st = listed_lines D (fst st) \<Longrightarrow> (fst st = [] \<Longrightarrow> first_node D = None) \<Longrightarrow>
     snd (collect F D es st) = listed_lines D (fst (collect F D es st))"
proof (induction es arbitrary: st)
  case (Cons e es)
  let ?st = "add D (Some e) JsUndefined st"
  have "snd ?st = listed_lines D (fst ?st)"
  proof (cases "e \<in> set (fst st)")
    case False
    with Cons.prems show ?thesis
      by (auto simp: add_simps listed_lines_snoc line_of_def)
  qed (simp add: add_simps Cons.prems)
  moreover have "fst ?st \<noteq> []" by (cases "e \<in> set (fst st)") (auto simp: add_simps)
  ultimately have "snd (collect F D es ?st) = listed_lines D (fst (collect F D es ?st))"
    by (intro Cons.IH) auto
  with Cons.IH [OF Cons.prems] Cons.prems show ?case by simp
qed simp

lemma snapshot_lists:
  assumes "distinct (doc_order D)"
  shows "DomSnapshot F D =
      (js_join [0x0A] (listed_lines D (listed_elements F D)) @ [0x0A], D\<lparr>doc_refs := Some (listed_elements F D)\<rparr>)"
proof -
  let ?st = "add D (first_node D) (JsString (js ''document'')) ([], [])"
  let ?all = "collect F D (query_selector_all D) ?st"
  have start: "fst ?st = (case first_node D of None \<Rightarrow> [] | Some b \<Rightarrow> [b])"
    "snd ?st = listed_lines D (fst ?st)" "fst ?st = [] \<Longrightarrow> first_node D = None"
    by (auto simp: add_def listed_lines_def line_of_def js_or_def js_def split: option.splits)
  have "distinct (query_selector_all D)" by (simp add: query_selector_all_def assms)
  then have "fst ?all = take 500 (fst ?st @ filter (\<lambda>e. e \<notin> set (fst ?st) \<and> isVisible F (doc_element D e)) (query_selector_all D))"
    by (rule collect_refs) (simp add: start(1) split: option.split)
  also have "\<dots> = listed_elements F D"
    by (auto simp: listed_elements_def start(1) split: option.split intro!: arg_cong [where f = "take _"] filter_cong)
  finally have "fst ?all = listed_elements F D" .
  moreover from this collect_lines [OF start(2,3)] have "snd ?all = listed_lines D (listed_elements F D)" by simp
  ultimately show ?thesis by (simp add: DomSnapshot_def case_prod_unfold)
qed

text \<open>
  C11: the snapshot lists the body (or, without one, the root), then the visible elements that its
  selectors match, in document order, each once and 500 at most; the text has the lines of exactly
  these elements, numbered by their place, and these are the references that later scripts use.
\<close>

theorem snapshot_lists_elements:
  assumes "distinct (doc_order D)"
  shows "DomSnapshot F D =
      (js_join [0x0A] (listed_lines D (listed_elements F D)) @ [0x0A], D\<lparr>doc_refs := Some (listed_elements F D)\<rparr>)"
  using assms by (rule snapshot_lists)

subsection \<open>Reading the text back\<close>

fun js_lines :: "js_string \<Rightarrow> js_string \<Rightarrow> js_string list" where
  "js_lines current [] = (if current = [] then [] else [rev current])"
| "js_lines current (c # cs) =
     (if c = 0x0A then rev current # js_lines [] cs else js_lines (c # current) cs)"

lemma js_lines_line: "0x0A \<notin> set l \<Longrightarrow> js_lines current (l @ 0x0A # t) = (rev current @ l) # js_lines [] t"
  by (induction l arbitrary: current) auto

lemma js_join_lines: "ls \<noteq> [] \<Longrightarrow> js_join [0x0A] ls @ [0x0A] = concat (map (\<lambda>l. l @ [0x0A]) ls)"
  by (induction "[0x0A :: 16 word]" ls rule: js_join.induct) auto

lemma js_lines_concat:
  "\<forall>l \<in> set ls. 0x0A \<notin> set l \<Longrightarrow> js_lines [] (concat (map (\<lambda>l. l @ [0x0A]) ls)) = ls"
  by (induction ls) (simp_all add: js_lines_line)

text \<open>A line that stands between two newlines anywhere in a text is one of its lines.\<close>

lemma js_lines_break: "\<exists>ls. js_lines current (a @ 0x0A # t) = ls @ js_lines [] t"
proof (induction a arbitrary: current)
  case (Cons c a)
  then show ?case
    by (cases "c = 0x0A") (use Cons [of "[]"] in \<open>force intro: exI [of _ "_ # _"]\<close>, simp)
qed (auto intro: exI [of _ "[_]"])

lemma js_lines_between:
  assumes "0x0A \<notin> set l" shows "l \<in> set (js_lines current (a @ 0x0A # l @ 0x0A # b))"
proof -
  obtain ls where "js_lines current (a @ 0x0A # l @ 0x0A # b) = ls @ js_lines [] (l @ 0x0A # b)"
    using js_lines_break by blast
  then show ?thesis by (simp add: js_lines_line assms)
qed

lemma set_collapse: "c \<in> set (collapse after s) \<Longrightarrow> js_blank c \<Longrightarrow> c = 0x20"
  by (induction after s rule: collapse.induct) (auto split: if_splits)

lemma set_js_trim: "c \<in> set (js_trim s) \<Longrightarrow> c \<in> set s"
  unfolding js_trim_def set_rev by (drule set_dropWhileD) (simp, drule set_dropWhileD)

lemma clean_one_line: "0x0A \<notin> set (clean v)"
proof
  assume "0x0A \<in> set (clean v)"
  then have "0x0A \<in> set (collapse False (js_text (js_or v (JsString []))))"
    unfolding clean_def by (rule set_js_trim [OF in_set_takeD])
  moreover have "js_blank 0x0A" unfolding js_blank_def by (rule disjI1, rule insertI2, rule insertI1)
  ultimately have "(0x0A :: 16 word) = 0x20" by (rule set_collapse)
  then show False by simp
qed

lemma clean_length: "length (clean v) \<le> 160"
  by (simp add: clean_def)

lemma quoted_one_line: "0x0A \<notin> set (quoted v)"
proof -
  have "0x0A \<notin> set (js_escape s)" if "0x0A \<notin> set s" for s
    using that by (induction s) (auto simp: js_escape_def)
  then show ?thesis using clean_one_line by (simp add: quoted_def)
qed

lemma show_nat_digits: "c \<in> set (show_nat n) \<Longrightarrow> \<exists>d < 10 :: nat. c = char_of (48 + d)"
proof (induction n rule: show_nat.induct)
  case (1 n)
  show ?case
  proof (cases "n < 10")
    case True
    with 1(2) show ?thesis by (subst (asm) show_nat.simps) (auto intro: exI [of _ n])
  next
    case False
    with 1(2) have "c \<in> set (show_nat (n div 10)) \<or> c = char_of (48 + n mod 10)"
      by (subst (asm) show_nat.simps) auto
    with 1(1) [OF False] show ?thesis by (auto intro: exI [of _ "n mod 10"])
  qed
qed

lemma unit_inj: "of_char c = (of_char d :: 16 word) \<Longrightarrow> c = d"
proof -
  assume "of_char c = (of_char d :: 16 word)"
  then have "(of_nat (of_char c :: nat) :: 16 word) = of_nat (of_char d :: nat)"
    by (simp only: of_nat_of_char)
  then have "(of_char c :: nat) mod 2 ^ 16 = (of_char d :: nat) mod 2 ^ 16"
    by (auto simp: unat_of_nat dest: arg_cong [where f = unat])
  moreover have "(of_char x :: nat) < 2 ^ 16" for x :: char
    using nat_of_char_less_256 [of x] by (rule less_trans) simp
  ultimately show "c = d" by simp
qed

lemma number_one_line: "0x0A \<notin> set (js (show_nat n))"
proof
  assume "0x0A \<in> set (js (show_nat n))"
  then obtain c where c: "c \<in> set (show_nat n)" "(of_char newline :: 16 word) = of_char c"
    unfolding js_def by auto
  from show_nat_digits [OF c(1)] obtain d :: nat where d: "d < 10" "c = char_of (48 + d)" by blast
  from d unit_inj [OF c(2)] have "(of_char newline :: nat) = 48 + d" by simp
  then show False by simp
qed

lemma entry_line_newline:
  "0x0A \<in> set (entry_line D k r e) \<longleftrightarrow> 0x0A \<in> set (js_text (js_or r (JsString (roleFor (doc_element D e)))))"
  using quoted_one_line number_one_line by (auto simp: entry_line_def Let_def js_def)

definition plain_role :: "element \<Rightarrow> bool" where
  "plain_role el \<longleftrightarrow> (case getAttribute el ''role'' of JsString r \<Rightarrow> 0x0A \<notin> set r | _ \<Rightarrow> True)"

lemma roleFor_one_line: "plain_role el \<Longrightarrow> 0x0A \<notin> set (roleFor el)"
  by (auto simp: plain_role_def roleFor_def Let_def js_def getAttribute_def split: option.splits if_splits)

lemma line_of_plain:
  assumes "\<forall>e \<in> set refs. plain_role (doc_element D e)" and "k < length refs"
  shows "0x0A \<notin> set (line_of D refs k)"
proof -
  have document: "0x0A \<notin> set (js ''document'')"
    unfolding js_def by (auto dest!: unit_inj [of newline, simplified])
  from assms have "plain_role (doc_element D (refs ! k))" by simp
  from roleFor_one_line [OF this] document show ?thesis
    by (auto simp: line_of_def entry_line_newline js_or_def)
qed

text \<open>
  As long as no listed element has a newline in its \<open>role\<close> attribute, the text that the client
  reads splits into exactly one line for each reference, whatever the names of the elements are.
\<close>

lemma snapshot_one_line_each:
  assumes "distinct (doc_order D)" and "listed_elements F D \<noteq> []"
    and "\<forall>e \<in> set (listed_elements F D). plain_role (doc_element D e)"
  shows "js_lines [] (fst (DomSnapshot F D)) = map (line_of D (listed_elements F D)) [0..<length (listed_elements F D)]"
proof -
  have plain: "\<forall>l \<in> set (listed_lines D (listed_elements F D)). 0x0A \<notin> set l"
    using line_of_plain [OF assms(3)] by (auto simp: listed_lines_def)
  have "listed_lines D (listed_elements F D) \<noteq> []" using assms(2) by (simp add: listed_lines_def)
  from js_join_lines [OF this] js_lines_concat [OF plain] show ?thesis
    by (simp add: snapshot_lists [OF assms(1)] listed_lines_def)
qed

text \<open>
  C25: the \<open>role\<close> attribute is the one text of the page that the script prints as it is: an element
  whose \<open>role\<close> holds a line of its own puts that line, with any name and any reference in it, into
  the snapshot, where nothing tells it from the lines of the script.
\<close>

theorem role_attribute_forges_lines:
  assumes "distinct (doc_order D)" and "0x0A \<notin> set forged"
    and "k < length (listed_elements F D)" "k = 0 \<Longrightarrow> first_node D = None"
    and "getAttribute (doc_element D (listed_elements F D ! k)) ''role'' = JsString (a @ 0x0A # forged @ 0x0A # b)"
  shows "forged \<in> set (js_lines [] (fst (DomSnapshot F D)))"
proof -
  let ?ls = "listed_lines D (listed_elements F D)"
  from assms(4) have line: "line_of D (listed_elements F D) k = entry_line D k JsUndefined (listed_elements F D ! k)"
    by (auto simp: line_of_def)
  from assms(5) have "roleFor (doc_element D (listed_elements F D ! k)) = a @ 0x0A # forged @ 0x0A # b"
    by (simp add: roleFor_def)
  with line obtain rest where "line_of D (listed_elements F D) k = a @ 0x0A # forged @ 0x0A # rest"
    by (simp add: entry_line_def js_or_def Let_def)
  moreover have "line_of D (listed_elements F D) k \<in> set ?ls" using assms(3) by (simp add: listed_lines_def)
  then obtain before after where "?ls = before @ line_of D (listed_elements F D) k # after"
    by (meson split_list)
  ultimately have "\<exists>x y. js_join [0x0A] ?ls @ [0x0A] = x @ 0x0A # forged @ 0x0A # y"
    by (intro exI [of _ "concat (map (\<lambda>l. l @ [0x0A]) before) @ a"] exI) (subst js_join_lines, auto)
  then show ?thesis using js_lines_between [OF assms(2)] by (auto simp: snapshot_lists [OF assms(1)])
qed

subsection \<open>A page\<close>

definition sample_element :: "string \<Rightarrow> (string \<times> js_string) list \<Rightarrow> js_value \<Rightarrow> f64 \<Rightarrow> element" where
  "sample_element tag attributes inner extent =
     \<lparr>el_is_element = True, el_tag_name = js tag, el_attributes = map (apfst js) attributes,
      el_display = js ''block'', el_visibility = js ''visible'',
      el_left = 0, el_top = 0, el_width = extent, el_height = extent, el_is_content_editable = False,
      el_value = JsUndefined, el_inner_text = inner, el_text_content = inner, el_href = JsUndefined,
      el_id = JsUndefined, el_name = JsUndefined, el_is_connected = True, el_has_focus = True,
      el_has_range_text = False, el_selection = None, el_options = []\<rparr>"

text \<open>A body with a link, a button without a size, and a field for an address.\<close>

definition sample_page :: page where
  "sample_page =
     \<lparr>doc_element = (\<lambda>e.
        if e = 1 then sample_element ''A'' [(''href'', js ''/'')] (JsString (js ''Sign'' @ [0x0A] @ js ''in'')) 9
        else if e = 2 then sample_element ''BUTTON'' [] (JsString (js ''Pay'')) 0
        else if e = 3 then sample_element ''INPUT'' [(''type'', js ''email''), (''title'', js ''Your address'')] JsUndefined 9
        else sample_element ''BODY'' [] JsUndefined 9),
      doc_order = [0, 1, 2, 3], doc_body = Some 0, doc_root = Some 0, doc_refs = None, doc_actions = []\<rparr>"

text \<open>The same page with a section whose role is three lines.\<close>

definition forging_role :: js_string where
  "forging_role = js ''region'' @ [0x0A] @ js ''button \"Pay\" [ref=dom:1]'' @ [0x0A] @ js ''region''"

definition forging_page :: page where
  "forging_page = sample_page\<lparr>doc_element := (doc_element sample_page)
     (2 := sample_element ''DIV'' [(''role'', forging_role)] JsUndefined 9)\<rparr>"


lemma sample_page_order: "distinct (doc_order sample_page)" "distinct (doc_order forging_page)"
  by (simp_all add: sample_page_def forging_page_def)

lemma sample_listed: "listed_elements demo_f64 sample_page = [0, 1, 3]"
  by code_simp

lemma forging_listed: "listed_elements demo_f64 forging_page = [0, 1, 2, 3]"
  by code_simp

theorem snapshot_lists_elements_witness:
  "doc_refs (snd (DomSnapshot demo_f64 sample_page)) = Some [0, 1, 3]"
  using snapshot_lists_elements [OF sample_page_order(1), of demo_f64] by (simp add: sample_listed)

lemma snapshot_one_line_each_witness:
  "length (js_lines [] (fst (DomSnapshot demo_f64 sample_page))) = 3"
proof -
  have "\<forall>e \<in> set (listed_elements demo_f64 sample_page). plain_role (doc_element sample_page e)"
    unfolding sample_listed by code_simp
  from snapshot_one_line_each [OF sample_page_order(1) _ this] show ?thesis by (simp add: sample_listed)
qed

theorem role_attribute_forges_lines_witness:
  "js ''button \"Pay\" [ref=dom:1]'' \<in> set (js_lines [] (fst (DomSnapshot demo_f64 forging_page)))"
proof (rule role_attribute_forges_lines [OF sample_page_order(2), where k = 2])
  show "0x0A \<notin> set (js ''button \"Pay\" [ref=dom:1]'')" by code_simp
  show "getAttribute (doc_element forging_page (listed_elements demo_f64 forging_page ! 2)) ''role'' =
      JsString (js ''region'' @ 0x0A # js ''button \"Pay\" [ref=dom:1]'' @ 0x0A # js ''region'')"
    unfolding forging_listed by code_simp
qed (simp_all add: forging_listed)

end
