(* ===== verification/Page_Acts.thy ===== *)
theory Page_Acts
  imports Page_Snapshot Interactions
begin

section \<open>The scripts that act on a reference (\<open>core/browser_interactions.cc\<close>)\<close>

text \<open>
  What the scripts built by \<open>DomClickExpression\<close> and its siblings do in a page. Every change they
  make is a \<open>page_action\<close>; what the browser and the page's own handlers make of one is the argument
  \<open>B\<close>, which gives the page after it, or \<open>None\<close> for an exception. A script returns its text, or
  nothing when it threw, and the page.
\<close>

type_synonym browser = "page_action \<Rightarrow> page \<Rightarrow> page option"

type_synonym 'a script = "page \<Rightarrow> 'a option \<times> page"

definition returns :: "'a \<Rightarrow> 'a script" where
  "returns x D = (Some x, D)"

definition then_do :: "'a script \<Rightarrow> ('a \<Rightarrow> 'b script) \<Rightarrow> 'b script" where
  "then_do m f D = (case m D of (None, D') \<Rightarrow> (None, D') | (Some x, D') \<Rightarrow> f x D')"

definition look :: "(page \<Rightarrow> 'a) \<Rightarrow> 'a script" where
  "look f D = (Some (f D), D)"

definition perform :: "browser \<Rightarrow> page_action \<Rightarrow> unit script" where
  "perform B a D =
     (case B a D of
        None \<Rightarrow> (None, D)
      | Some D' \<Rightarrow> (Some (), D'\<lparr>doc_actions := doc_actions D @ [a]\<rparr>))"

fun perform_all :: "browser \<Rightarrow> page_action list \<Rightarrow> unit script" where
  "perform_all B [] = returns ()"
| "perform_all B (a # as) = then_do (perform B a) (\<lambda>_. perform_all B as)"

text \<open>\<open>window.__browserdDomRefs && window.__browserdDomRefs[index]\<close>.\<close>

definition dom_ref :: "page \<Rightarrow> nat \<Rightarrow> nat option" where
  "dom_ref D index =
     (case doc_refs D of
        None \<Rightarrow> None
      | Some refs \<Rightarrow> if index < length refs then Some (refs ! index) else None)"

definition connected :: "page \<Rightarrow> nat option \<Rightarrow> bool" where
  "connected D el = (case el of None \<Rightarrow> False | Some e \<Rightarrow> el_is_connected (doc_element D e))"

definition ref_not_found :: string where
  "ref_not_found = ''Error: element ref not found; call browser_snapshot again''"

definition with_ref :: "nat \<Rightarrow> (nat \<Rightarrow> string script) \<Rightarrow> string script" where
  "with_ref index k D =
     (if connected D (dom_ref D index) then k (the (dom_ref D index)) D else (Some ref_not_found, D))"

definition focus :: "browser \<Rightarrow> nat \<Rightarrow> unit script" where
  "focus B e D = (if el_has_focus (doc_element D e) then perform B (FocusElement e) D else (Some (), D))"

text \<open>The middle of the bounding rectangle.\<close>

definition centre :: "f64_ops \<Rightarrow> nat \<Rightarrow> page \<Rightarrow> f64 \<times> f64" where
  "centre F e D =
     (let el = doc_element D e
      in (f_add F (el_left el) (f_div F (el_width el) (f_lit F 2 1)),
          f_add F (el_top el) (f_div F (el_height el) (f_lit F 2 1))))"

definition mouse_events :: "nat \<Rightarrow> string list \<Rightarrow> f64 \<times> f64 \<Rightarrow> page_action list" where
  "mouse_events e types xy = map (\<lambda>type. DispatchMouse e type (fst xy) (snd xy)) types"

definition DomClick :: "f64_ops \<Rightarrow> browser \<Rightarrow> nat \<Rightarrow> string script" where
  "DomClick F B index =
     with_ref index (\<lambda>e.
       then_do (perform B (ScrollIntoView e)) (\<lambda>_.
       then_do (focus B e) (\<lambda>_.
       then_do (look (centre F e)) (\<lambda>xy.
       then_do (perform_all B
         (mouse_events e [''mouseover'', ''mousemove'', ''mousedown'', ''mouseup'', ''click''] xy)) (\<lambda>_.
       returns ''Clicked element'')))))"

definition DomHover :: "f64_ops \<Rightarrow> browser \<Rightarrow> nat \<Rightarrow> string script" where
  "DomHover F B index =
     with_ref index (\<lambda>e.
       then_do (perform B (ScrollIntoView e)) (\<lambda>_.
       then_do (look (centre F e)) (\<lambda>xy.
       then_do (perform_all B (mouse_events e [''mouseover'', ''mousemove''] xy)) (\<lambda>_.
       returns ''Hovered over element''))))"

definition field_text :: "nat \<Rightarrow> page \<Rightarrow> js_string" where
  "field_text e D = js_text (el_value (doc_element D e))"

definition selection_of :: "nat \<Rightarrow> page \<Rightarrow> nat \<times> nat" where
  "selection_of e D =
     (case el_selection (doc_element D e) of
        Some ends \<Rightarrow> ends
      | None \<Rightarrow> (length (field_text e D), length (field_text e D)))"

definition type_in_field :: "browser \<Rightarrow> js_string \<Rightarrow> bool \<Rightarrow> nat \<Rightarrow> string script" where
  "type_in_field B typed clear e =
     then_do (if clear then perform B (SetValue e []) else returns ()) (\<lambda>_.
     then_do (\<lambda>D.
       if el_has_range_text (doc_element D e) then
         perform B (SetRangeText e typed (fst (selection_of e D)) (snd (selection_of e D))) D
       else perform B (SetValue e (field_text e D @ typed)) D) (\<lambda>_.
     then_do (perform_all B [DispatchInput e typed, DispatchPlain e ''change'']) (\<lambda>_.
     returns ''Typed text'')))"

definition type_in_editable :: "browser \<Rightarrow> js_string \<Rightarrow> bool \<Rightarrow> nat \<Rightarrow> string script" where
  "type_in_editable B typed clear e =
     then_do (if clear then perform B (SetTextContent e []) else returns ()) (\<lambda>_.
     then_do (perform_all B [InsertTextCommand typed, DispatchInput e typed]) (\<lambda>_.
     returns ''Typed text''))"

definition DomType :: "browser \<Rightarrow> js_string \<Rightarrow> bool \<Rightarrow> nat \<Rightarrow> string script" where
  "DomType B typed clear index =
     with_ref index (\<lambda>e.
       then_do (perform B (ScrollIntoView e)) (\<lambda>_.
       then_do (focus B e) (\<lambda>_ D.
         let tag = js_lower (el_tag_name (doc_element D e))
         in if tag = js ''input'' \<or> tag = js ''textarea'' then type_in_field B typed clear e D
            else if el_is_content_editable (doc_element D e) then type_in_editable B typed clear e D
            else (Some ''Error: element does not accept text'', D))))"

definition DomSelect :: "browser \<Rightarrow> js_string list \<Rightarrow> nat \<Rightarrow> string script" where
  "DomSelect B vals index =
     with_ref index (\<lambda>e D.
       if el_tag_name (doc_element D e) \<noteq> js ''SELECT'' then (Some ''Error: element is not a select'', D)
       else
         then_do (perform_all B
           (map (\<lambda>(i, v, _). SetSelected e i (v \<in> set vals)) (enumerate 0 (el_options (doc_element D e))) @
            [DispatchPlain e ''input'', DispatchPlain e ''change'']))
           (\<lambda>_. returns (''Selected '' @ show_nat (length vals) @ '' option(s)'')) D)"

definition DomDrag :: "f64_ops \<Rightarrow> browser \<Rightarrow> nat \<Rightarrow> nat \<Rightarrow> string script" where
  "DomDrag F B start_index end_index D =
     (if connected D (dom_ref D start_index) \<and> connected D (dom_ref D end_index) then
        let s = the (dom_ref D start_index);
            t = the (dom_ref D end_index)
        in then_do (perform B (ScrollIntoView s)) (\<lambda>_.
           then_do (look (\<lambda>D. (centre F s D, centre F t D))) (\<lambda>(sr, tr).
           then_do (perform_all B
             [DispatchDrag s ''dragstart'' (fst sr) (snd sr), ScrollIntoView t,
              DispatchDrag t ''dragenter'' (fst tr) (snd tr), DispatchDrag t ''dragover'' (fst tr) (snd tr),
              DispatchDrag t ''drop'' (fst tr) (snd tr), DispatchDrag s ''dragend'' (fst tr) (snd tr)]) (\<lambda>_.
           returns ''Drag and drop completed''))) D
      else (Some ref_not_found, D))"

subsection \<open>A reference of the snapshot names its element\<close>

text \<open>\<open>StringToInt\<close> reads the decimal digits of a number that fits an \<open>int\<close>.\<close>

definition decimal_law :: "base_lib \<Rightarrow> bool" where
  "decimal_law L \<longleftrightarrow> (\<forall>n < 2 ^ 31. lib_string_to_int L (show_nat n) = Some (word_of_nat n))"

lemma listed_at_most_500: "length (listed_elements F D) \<le> 500"
  by (simp add: listed_elements_def)

lemma unat_small_index: "n < 500 \<Longrightarrow> unat (word_of_nat n :: c_int) = n"
  by (simp add: unat_of_nat)

lemma sint_small_index: "n < 500 \<Longrightarrow> sint (word_of_nat n :: c_int) = int n"
  by (simp add: signed_of_nat signed_take_bit_int_eq_self)

lemma parse_printed_reference:
  assumes "decimal_law L" and "n < 500"
  shows "ParseDomRef L (''dom:'' @ show_nat n) = Some (word_of_nat n)"
proof -
  have "lib_string_to_int L (show_nat n) = Some (word_of_nat n)"
    using assms by (simp add: decimal_law_def)
  then show ?thesis by (simp add: ParseDomRef_def std_prefix_def sint_small_index [OF assms(2)])
qed

lemma line_ends_in_reference: "\<exists>text. line_of D refs k = text @ js ('' [ref=dom:'' @ show_nat k @ '']'')"
  by (simp add: line_of_def entry_line_def js_def Let_def)

text \<open>
  The element a change is made to. The command that inserts text goes to the element that has the focus, which
  the change itself does not name.
\<close>

fun acted_on :: "page_action \<Rightarrow> nat option" where
  "acted_on (ScrollIntoView e) = Some e"
| "acted_on (FocusElement e) = Some e"
| "acted_on (DispatchMouse e type x y) = Some e"
| "acted_on (DispatchInput e data) = Some e"
| "acted_on (DispatchPlain e type) = Some e"
| "acted_on (DispatchDrag e type x y) = Some e"
| "acted_on (SetValue e v) = Some e"
| "acted_on (SetRangeText e v i j) = Some e"
| "acted_on (SetTextContent e v) = Some e"
| "acted_on (InsertTextCommand v) = None"
| "acted_on (SetSelected e i b) = Some e"

text \<open>A script whose changes, as far as it gets, are the first of a list of changes to these elements.\<close>

definition acts_along :: "nat option list \<Rightarrow> 'a script \<Rightarrow> bool" where
  "acts_along es m \<longleftrightarrow>
     (\<forall>D. \<exists>acts. doc_actions (snd (m D)) = doc_actions D @ acts \<and>
        (\<exists>n \<le> length es. map acted_on acts = take n es \<and> (fst (m D) \<noteq> None \<longrightarrow> n = length es)))"

text \<open>And one all of whose changes are to elements of a set.\<close>

definition acts_within :: "nat option set \<Rightarrow> 'a script \<Rightarrow> bool" where
  "acts_within X m \<longleftrightarrow> (\<forall>D. \<exists>acts. doc_actions (snd (m D)) = doc_actions D @ acts \<and> acted_on ` set acts \<subseteq> X)"

lemma acts_along_returns: "acts_along [] (returns x)" "acts_along [] (look f)"
  by (simp_all add: acts_along_def returns_def look_def)

lemma acts_along_perform: "acts_along [acted_on a] (perform B a)"
  unfolding acts_along_def
proof
  fix D
  show "\<exists>acts. doc_actions (snd (perform B a D)) = doc_actions D @ acts \<and>
      (\<exists>n \<le> length [acted_on a]. map acted_on acts = take n [acted_on a] \<and> (fst (perform B a D) \<noteq> None \<longrightarrow> n = length [acted_on a]))"
  proof (cases "B a D")
    case None
    then show ?thesis by (intro exI [of _ "[]"]) (simp add: perform_def)
  next
    case (Some D')
    then show ?thesis by (intro exI [of _ "[a]"]) (simp add: perform_def)
  qed
qed

lemma acts_along_then:
  assumes "acts_along es m" "\<And>x. acts_along fs (f x)" shows "acts_along (es @ fs) (then_do m f)"
  unfolding acts_along_def
proof
  fix D
  from assms(1) obtain acts n where m: "doc_actions (snd (m D)) = doc_actions D @ acts" "n \<le> length es"
    "map acted_on acts = take n es" "fst (m D) \<noteq> None \<longrightarrow> n = length es" unfolding acts_along_def by blast
  show "\<exists>acts. doc_actions (snd (then_do m f D)) = doc_actions D @ acts \<and>
      (\<exists>n \<le> length (es @ fs). map acted_on acts = take n (es @ fs) \<and>
         (fst (then_do m f D) \<noteq> None \<longrightarrow> n = length (es @ fs)))"
  proof (cases "m D")
    case (Pair r D')
    show ?thesis
    proof (cases r)
      case None
      with m Pair show ?thesis by (intro exI [of _ acts]) (auto simp: then_do_def intro!: exI [of _ n])
    next
      case (Some x)
      from assms(2) obtain acts' k where f: "doc_actions (snd (f x D')) = doc_actions D' @ acts'" "k \<le> length fs"
        "map acted_on acts' = take k fs" "fst (f x D') \<noteq> None \<longrightarrow> k = length fs" unfolding acts_along_def by blast
      from m Pair Some have "n = length es" by simp
      with m f Pair Some show ?thesis
        by (intro exI [of _ "acts @ acts'"]) (auto simp: then_do_def intro!: exI [of _ "length es + k"])
    qed
  qed
qed

lemma acts_along_all: "acts_along (map acted_on as) (perform_all B as)"
proof (induction as)
  case (Cons a as)
  from acts_along_then [OF acts_along_perform [of a B] Cons] show ?case by simp
qed (simp add: acts_along_returns)

lemma acts_within_along: "acts_along es m \<Longrightarrow> set es \<subseteq> X \<Longrightarrow> acts_within X m"
proof -
  assume m: "acts_along es m" and X: "set es \<subseteq> X"
  show "acts_within X m"
    unfolding acts_within_def
  proof
    fix D
    from m obtain acts n where "doc_actions (snd (m D)) = doc_actions D @ acts" "map acted_on acts = take n es"
      unfolding acts_along_def by blast
    moreover from this(2) have "acted_on ` set acts \<subseteq> X" using X set_take_subset [of n es] by (metis list.set_map subset_trans)
    ultimately show "\<exists>acts. doc_actions (snd (m D)) = doc_actions D @ acts \<and> acted_on ` set acts \<subseteq> X" by blast
  qed
qed

lemma acts_within_then:
  assumes "acts_within X m" "\<And>x. acts_within X (f x)" shows "acts_within X (then_do m f)"
  unfolding acts_within_def
proof
  fix D
  from assms(1) obtain acts where m: "doc_actions (snd (m D)) = doc_actions D @ acts" "acted_on ` set acts \<subseteq> X"
    unfolding acts_within_def by blast
  obtain r D' where r: "m D = (r, D')" by fastforce
  show "\<exists>acts. doc_actions (snd (then_do m f D)) = doc_actions D @ acts \<and> acted_on ` set acts \<subseteq> X"
  proof (cases r)
    case None
    with m r show ?thesis by (simp add: then_do_def)
  next
    case (Some x)
    from assms(2) obtain acts' where "doc_actions (snd (f x D')) = doc_actions D' @ acts'" "acted_on ` set acts' \<subseteq> X"
      unfolding acts_within_def by blast
    with m r Some show ?thesis by (intro exI [of _ "acts @ acts'"]) (auto simp: then_do_def)
  qed
qed

lemma acts_within_simple:
  "acts_within X (returns x)" "acts_within X (look f)" "acted_on a \<in> X \<Longrightarrow> acts_within X (perform B a)"
  "acted_on ` set as \<subseteq> X \<Longrightarrow> acts_within X (perform_all B as)"
  using acts_within_along [OF acts_along_returns(1)] acts_within_along [OF acts_along_returns(2)]
    acts_within_along [OF acts_along_perform [of a B]] acts_within_along [OF acts_along_all [of as B]] by auto

text \<open>A script that returns only after it changed something.\<close>

definition busy :: "'a script \<Rightarrow> bool" where
  "busy m \<longleftrightarrow> (\<forall>D. fst (m D) \<noteq> None \<longrightarrow> length (doc_actions D) < length (doc_actions (snd (m D))))"

lemma busy_then_do: "acts_within X (f ()) \<Longrightarrow> busy (then_do (perform B a) f)"
  unfolding busy_def acts_within_def
proof (intro allI impI)
  fix D
  assume f: "\<forall>D. \<exists>acts. doc_actions (snd (f () D)) = doc_actions D @ acts \<and> acted_on ` set acts \<subseteq> X"
    and "fst (then_do (perform B a) f D) \<noteq> None"
  then obtain D' where D': "B a D = Some D'" by (cases "B a D") (auto simp: then_do_def perform_def)
  from spec [OF f, of "D'\<lparr>doc_actions := doc_actions D @ [a]\<rparr>"] obtain acts where
    "doc_actions (snd (f () (D'\<lparr>doc_actions := doc_actions D @ [a]\<rparr>))) = doc_actions D @ [a] @ acts" by auto
  with D' show "length (doc_actions D) < length (doc_actions (snd (then_do (perform B a) f D)))"
    by (simp add: then_do_def perform_def)
qed

lemma mouse_events_on: "acted_on ` set (mouse_events e types xy) \<subseteq> {Some e}"
  "map acted_on (mouse_events e types xy) = replicate (length types) (Some e)"
  by (auto simp: mouse_events_def map_replicate_const comp_def)

lemma focus_within: "acts_within {Some e} (focus B e)"
  using acts_within_simple(3) [of "FocusElement e" "{Some e}" B]
  by (auto simp: focus_def acts_within_def)

lemma acts_within_at:
  assumes "\<And>D. \<exists>m'. acts_within X m' \<and> m D = m' D" shows "acts_within X m"
  unfolding acts_within_def using assms unfolding acts_within_def by metis

lemma type_in_field_within: "acts_within {Some e} (type_in_field B typed clear e)"
  unfolding type_in_field_def
proof (intro acts_within_then)
  show "acts_within {Some e} (if clear then perform B (SetValue e []) else returns ())"
    by (simp add: acts_within_simple)
  show "acts_within {Some e} (\<lambda>D. if el_has_range_text (doc_element D e)
      then perform B (SetRangeText e typed (fst (selection_of e D)) (snd (selection_of e D))) D
      else perform B (SetValue e (field_text e D @ typed)) D)"
  proof (rule acts_within_at)
    fix D
    show "\<exists>m'. acts_within {Some e} m' \<and> (if el_has_range_text (doc_element D e)
      then perform B (SetRangeText e typed (fst (selection_of e D)) (snd (selection_of e D))) D
      else perform B (SetValue e (field_text e D @ typed)) D) = m' D"
      by (intro exI [of _ "if el_has_range_text (doc_element D e)
        then perform B (SetRangeText e typed (fst (selection_of e D)) (snd (selection_of e D)))
        else perform B (SetValue e (field_text e D @ typed))"]) (simp add: acts_within_simple)
  qed
qed (simp_all add: acts_within_simple del: perform_all.simps)

lemma type_in_editable_within: "acts_within {Some e, None} (type_in_editable B typed clear e)"
  unfolding type_in_editable_def by (intro acts_within_then) (simp_all add: acts_within_simple del: perform_all.simps)

lemma acts_within_mono: "acts_within X m \<Longrightarrow> X \<subseteq> Y \<Longrightarrow> acts_within Y m"
  unfolding acts_within_def by (meson subset_trans)

text \<open>What a script by reference changes, when the reference names the element \<open>e\<close> or no element that is there.\<close>

lemma with_ref_acts:
  assumes "dom_ref D i = Some e" "acts_within X (k e)"
  shows "\<exists>acts. doc_actions (snd (with_ref i k D)) = doc_actions D @ acts \<and> acted_on ` set acts \<subseteq> X"
  using assms by (simp add: with_ref_def acts_within_def)

lemma with_ref_busy:
  assumes "dom_ref D i = Some e" "el_is_connected (doc_element D e)" "busy (k e)" "fst (with_ref i k D) \<noteq> None"
  shows "doc_actions (snd (with_ref i k D)) \<noteq> doc_actions D"
proof -
  from assms(1,2) have "with_ref i k D = k e D" by (simp add: with_ref_def connected_def)
  with assms(3,4) have "length (doc_actions D) < length (doc_actions (snd (with_ref i k D)))" by (simp add: busy_def)
  then show ?thesis by (metis less_irrefl)
qed

lemma click_within: "acts_within {Some e}
    (then_do (focus B e) (\<lambda>_.
     then_do (look (centre F e)) (\<lambda>xy.
     then_do (perform_all B (mouse_events e types xy)) (\<lambda>_. returns r))))"
  by (intro acts_within_then focus_within acts_within_simple mouse_events_on)

lemma hover_within: "acts_within {Some e}
    (then_do (look (centre F e)) (\<lambda>xy.
     then_do (perform_all B (mouse_events e types xy)) (\<lambda>_. returns r)))"
  by (intro acts_within_then acts_within_simple mouse_events_on)

lemma typing_within: "acts_within {Some e, None}
    (then_do (focus B e) (\<lambda>_ D.
         let tag = js_lower (el_tag_name (doc_element D e))
         in if tag = js ''input'' \<or> tag = js ''textarea'' then type_in_field B typed clear e D
            else if el_is_content_editable (doc_element D e) then type_in_editable B typed clear e D
            else (Some ''Error: element does not accept text'', D)))"
proof (rule acts_within_then [OF acts_within_mono [OF focus_within] acts_within_at])
  fix D :: page
  let ?m = "if js_lower (el_tag_name (doc_element D e)) \<in> {js ''input'', js ''textarea''} then type_in_field B typed clear e
     else if el_is_content_editable (doc_element D e) then type_in_editable B typed clear e
     else returns ''Error: element does not accept text''"
  have "acts_within {Some e, None} ?m"
    using acts_within_mono [OF type_in_field_within, of e "{Some e, None}"]
    by (simp add: type_in_editable_within acts_within_simple)
  then show "\<exists>m'. acts_within {Some e, None} m' \<and>
      (let tag = js_lower (el_tag_name (doc_element D e))
         in if tag = js ''input'' \<or> tag = js ''textarea'' then type_in_field B typed clear e D
            else if el_is_content_editable (doc_element D e) then type_in_editable B typed clear e D
            else (Some ''Error: element does not accept text'', D)) = m' D"
    by (intro exI [of _ ?m]) (simp add: Let_def returns_def)
qed simp

lemma select_within: "acts_within {Some e} (\<lambda>D.
       if el_tag_name (doc_element D e) \<noteq> js ''SELECT'' then (Some ''Error: element is not a select'', D)
       else
         then_do (perform_all B
           (map (\<lambda>(i, v, _). SetSelected e i (v \<in> set vals)) (enumerate 0 (el_options (doc_element D e))) @
            [DispatchPlain e ''input'', DispatchPlain e ''change'']))
           (\<lambda>_. returns (''Selected '' @ show_nat (length vals) @ '' option(s)'')) D)"
proof (rule acts_within_at)
  fix D :: page
  let ?acts = "map (\<lambda>(i, v, _). SetSelected e i (v \<in> set vals)) (enumerate 0 (el_options (doc_element D e))) @
            [DispatchPlain e ''input'', DispatchPlain e ''change'']"
  let ?m = "if el_tag_name (doc_element D e) \<noteq> js ''SELECT'' then returns ''Error: element is not a select''
    else then_do (perform_all B ?acts) (\<lambda>_. returns (''Selected '' @ show_nat (length vals) @ '' option(s)''))"
  have "acted_on ` set ?acts \<subseteq> {Some e}" by auto
  then have "acts_within {Some e} (then_do (perform_all B ?acts) (\<lambda>_. returns r))" for r :: string
    by (intro acts_within_then acts_within_simple)
  then have "acts_within {Some e} ?m" by (simp add: acts_within_simple(1) del: perform_all.simps)
  then show "\<exists>m'. acts_within {Some e} m' \<and>
      (if el_tag_name (doc_element D e) \<noteq> js ''SELECT'' then (Some ''Error: element is not a select'', D)
       else then_do (perform_all B ?acts) (\<lambda>_. returns (''Selected '' @ show_nat (length vals) @ '' option(s)'')) D) = m' D"
    by (intro exI [of _ ?m]) (simp add: returns_def del: perform_all.simps)
qed

lemma drag_along: "acts_along [Some s, Some s, Some t, Some t, Some t, Some t, Some s]
    (then_do (perform B (ScrollIntoView s)) (\<lambda>_.
           then_do (look (\<lambda>D. (centre F s D, centre F t D))) (\<lambda>(sr, tr).
           then_do (perform_all B
             [DispatchDrag s ''dragstart'' (fst sr) (snd sr), ScrollIntoView t,
              DispatchDrag t ''dragenter'' (fst tr) (snd tr), DispatchDrag t ''dragover'' (fst tr) (snd tr),
              DispatchDrag t ''drop'' (fst tr) (snd tr), DispatchDrag s ''dragend'' (fst tr) (snd tr)]) (\<lambda>_.
           returns ''Drag and drop completed''))))"
proof -
  let ?acts = "\<lambda>sr tr. [DispatchDrag s ''dragstart'' (fst sr) (snd sr), ScrollIntoView t,
              DispatchDrag t ''dragenter'' (fst tr) (snd tr), DispatchDrag t ''dragover'' (fst tr) (snd tr),
              DispatchDrag t ''drop'' (fst tr) (snd tr), DispatchDrag s ''dragend'' (fst tr) (snd tr)]"
  have "acts_along (map acted_on (?acts sr tr) @ []) (then_do (perform_all B (?acts sr tr)) (\<lambda>_. returns ''Drag and drop completed''))"
    for sr and tr :: "f64 \<times> f64" by (intro acts_along_then acts_along_all acts_along_returns)
  then have "acts_along [Some s, Some t, Some t, Some t, Some t, Some s]
      (case x of (sr, tr) \<Rightarrow> then_do (perform_all B (?acts sr tr)) (\<lambda>_. returns ''Drag and drop completed''))" for x
    by (cases x) (simp only: prod.case acted_on.simps list.map append_Nil2)
  from acts_along_then [OF acts_along_returns(2), OF this, of "\<lambda>D. (centre F s D, centre F t D)"]
    acts_along_then [OF acts_along_perform [of "ScrollIntoView s" B]]
  show ?thesis by fastforce
qed

lemma scripts_within:
  assumes "dom_ref D i = Some e"
  shows "\<exists>acts. doc_actions (snd (DomClick G B i D)) = doc_actions D @ acts \<and> acted_on ` set acts \<subseteq> {Some e}"
    and "\<exists>acts. doc_actions (snd (DomHover G B i D)) = doc_actions D @ acts \<and> acted_on ` set acts \<subseteq> {Some e}"
    and "\<exists>acts. doc_actions (snd (DomSelect B vals i D)) = doc_actions D @ acts \<and> acted_on ` set acts \<subseteq> {Some e}"
    and "\<exists>acts. doc_actions (snd (DomType B typed clear i D)) = doc_actions D @ acts \<and> acted_on ` set acts \<subseteq> {Some e, None}"
  unfolding DomClick_def DomHover_def DomSelect_def DomType_def
  by (rule with_ref_acts [OF assms] select_within acts_within_then [OF acts_within_simple(3) click_within]
      acts_within_then [OF acts_within_simple(3) hover_within] acts_within_then [OF acts_within_simple(3) typing_within]
    | simp; fail)+

lemma scripts_busy:
  assumes "dom_ref D i = Some e" "el_is_connected (doc_element D e)"
  shows "fst (DomClick G B i D) \<noteq> None \<Longrightarrow> doc_actions (snd (DomClick G B i D)) \<noteq> doc_actions D"
    and "fst (DomHover G B i D) \<noteq> None \<Longrightarrow> doc_actions (snd (DomHover G B i D)) \<noteq> doc_actions D"
    and "fst (DomType B typed clear i D) \<noteq> None \<Longrightarrow> doc_actions (snd (DomType B typed clear i D)) \<noteq> doc_actions D"
  unfolding DomClick_def DomHover_def DomType_def
  by (rule with_ref_busy [OF assms] busy_then_do [OF click_within] busy_then_do [OF hover_within]
      busy_then_do [OF typing_within] | assumption)+

lemma acts_along_at:
  "acts_along es m \<Longrightarrow> \<exists>acts n. doc_actions (snd (m D)) = doc_actions D @ acts \<and> map acted_on acts = take n es \<and>
     (fst (m D) \<noteq> None \<longrightarrow> n = length es)"
  unfolding acts_along_def by blast

lemma drag_acts:
  assumes "dom_ref D i = Some s" "dom_ref D j = Some t"
  shows "\<exists>acts n. doc_actions (snd (DomDrag F B i j D)) = doc_actions D @ acts \<and>
    map acted_on acts = take n [Some s, Some s, Some t, Some t, Some t, Some t, Some s] \<and>
    (fst (DomDrag F B i j D) = Some ''Drag and drop completed'' \<longrightarrow> n = 7)"
proof (cases "connected D (Some s) \<and> connected D (Some t)")
  case True
  show ?thesis
    unfolding DomDrag_def Let_def assms option.sel if_P [OF True]
    using acts_along_at [OF drag_along [where s = s and t = t and B = B and F = F], of D]
    by (elim exE conjE) (intro exI conjI, assumption, assumption, simp)
next
  case False
  then have "DomDrag F B i j D = (Some ref_not_found, D)" unfolding DomDrag_def assms by (rule if_not_P)
  then show ?thesis by (intro exI [of _ "[]"] exI [of _ 0]) (simp add: ref_not_found_def)
qed

text \<open>
  C9: the reference printed on a line of the snapshot is read by the program as the number of that
  line, and as long as the page keeps the references, every later script that is given it acts on
  the element of that line and on no other: a click, a hover and a selection change nothing else; typing changes nothing
  else but what the command that inserts text changes, which goes to the element that has the focus; and a drag acts
  on its two elements in the order of the script, as far as it gets. A click, a hover or a typing on an element that
  is still there does not return without having done something to it.
\<close>

theorem snapshot_references_resolve:
  assumes "distinct (doc_order D)" and "decimal_law L"
    and "k < length (listed_elements F D)" "doc_refs D' = doc_refs (snd (DomSnapshot F D))"
    and "m < length (listed_elements F D)"
  shows "\<exists>text i j. line_of D (listed_elements F D) k = text @ js ('' [ref='' @ ''dom:'' @ show_nat k @ '']'') \<and>
      ParseDomRef L (''dom:'' @ show_nat k) = Some i \<and> dom_ref D' (unat i) = Some (listed_elements F D ! k) \<and>
      ParseDomRef L (''dom:'' @ show_nat m) = Some j \<and>
      (\<forall>script \<in> {DomClick G B (unat i), DomHover G B (unat i), DomSelect B vals (unat i)}.
         \<exists>acts. doc_actions (snd (script D')) = doc_actions D' @ acts \<and>
           acted_on ` set acts \<subseteq> {Some (listed_elements F D ! k)}) \<and>
      (\<exists>acts. doc_actions (snd (DomType B typed clear (unat i) D')) = doc_actions D' @ acts \<and>
         acted_on ` set acts \<subseteq> {Some (listed_elements F D ! k), None}) \<and>
      (\<forall>script \<in> {DomClick G B (unat i), DomHover G B (unat i), DomType B typed clear (unat i)}.
         el_is_connected (doc_element D' (listed_elements F D ! k)) \<and> fst (script D') \<noteq> None \<longrightarrow>
         doc_actions (snd (script D')) \<noteq> doc_actions D') \<and>
      (\<exists>acts n. doc_actions (snd (DomDrag G B (unat i) (unat j) D')) = doc_actions D' @ acts \<and>
         (let s = Some (listed_elements F D ! k); t = Some (listed_elements F D ! m)
          in map acted_on acts = take n [s, s, t, t, t, t, s]) \<and>
         (fst (DomDrag G B (unat i) (unat j) D') = Some ''Drag and drop completed'' \<longrightarrow> n = 7))"
proof -
  let ?e = "listed_elements F D ! k" and ?t = "listed_elements F D ! m"
  from assms(3,5) listed_at_most_500 [of F D] have k: "k < 500" "m < 500" by linarith+
  have e: "dom_ref D' k = Some ?e" "dom_ref D' m = Some ?t"
    using assms(3,4,5) by (simp_all add: dom_ref_def snapshot_lists [OF assms(1)])
  from line_ends_in_reference obtain before where
    "line_of D (listed_elements F D) k = before @ js ('' [ref='' @ ''dom:'' @ show_nat k @ '']'')" by fastforce
  note line = this and index = unat_small_index [OF k(1)] unat_small_index [OF k(2)]
  from scripts_within(4) [OF e(1)] obtain typed_acts where
    typing: "doc_actions (snd (DomType B typed clear k D')) = doc_actions D' @ typed_acts"
    "acted_on ` set typed_acts \<subseteq> {Some ?e, None}" by blast
  from drag_acts [OF e, of G B] obtain drag_acts n where
    dragging: "doc_actions (snd (DomDrag G B k m D')) = doc_actions D' @ drag_acts"
    "map acted_on drag_acts = take n [Some ?e, Some ?e, Some ?t, Some ?t, Some ?t, Some ?t, Some ?e]"
    "fst (DomDrag G B k m D') = Some ''Drag and drop completed'' \<longrightarrow> n = 7" by blast
  have single: "\<forall>script \<in> {DomClick G B k, DomHover G B k, DomSelect B vals k}.
      \<exists>acts. doc_actions (snd (script D')) = doc_actions D' @ acts \<and> acted_on ` set acts \<subseteq> {Some ?e}"
    using scripts_within(1-3) [OF e(1)] by blast
  have active: "\<forall>script \<in> {DomClick G B k, DomHover G B k, DomType B typed clear k}.
      el_is_connected (doc_element D' ?e) \<and> fst (script D') \<noteq> None \<longrightarrow> doc_actions (snd (script D')) \<noteq> doc_actions D'"
    using scripts_busy [OF e(1)] by blast
  show ?thesis
    unfolding Let_def
    by (rule exI [of _ before], rule exI [of _ "word_of_nat k"], rule exI [of _ "word_of_nat m"], unfold index,
        intro conjI line parse_printed_reference [OF assms(2)] k e single active exI [of _ typed_acts] typing
        exI [of _ drag_acts] exI [of _ n] dragging)
qed

subsection \<open>What the program makes of a script's text\<close>

text \<open>The answer of an operation whose script returned a text.\<close>

definition answer_of :: "(evaluation \<Rightarrow> ('s, BrowserStatus) task) \<Rightarrow> string \<Rightarrow> ('s, BrowserStatus) task" where
  "answer_of k r = k (ResultOk \<lparr>de_is_undefined = False, de_value = JString r\<rparr>)"

text \<open>A script that finds no element returns the same text and touches nothing.\<close>

lemma lost_reference:
  assumes "\<not> connected D (dom_ref D i)"
  shows "DomClick F B i D = (Some ref_not_found, D)" "DomHover F B i D = (Some ref_not_found, D)"
    and "DomType B typed clear i D = (Some ref_not_found, D)" "DomSelect B vals i D = (Some ref_not_found, D)"
    and "DomDrag F B i j D = (Some ref_not_found, D)" "DomDrag F B j i D = (Some ref_not_found, D)"
  using assms
  by (simp_all add: DomClick_def DomHover_def DomType_def DomSelect_def DomDrag_def with_ref_def)

lemma eval_status_of_text:
  "EvalStatusJS wc e = AskEval wc e True 10000 k \<Longrightarrow>
     answer_of k r =
       (if std_contains ''Error'' r \<or> std_contains ''not found'' r
        then Answer (StatusError kInternalError r) else Answer StatusOk)"
  by (auto simp: EvalStatusJS_def answer_of_def result_ok_def ResultOk_def status_ok_def StatusOk_def)

lemma then_do_Some: "fst (then_do m f D) = Some r \<longleftrightarrow> (\<exists>x D'. m D = (Some x, D') \<and> fst (f x D') = Some r)"
  by (auto simp: then_do_def split: prod.splits option.splits)

lemma acting_texts:
  assumes "connected D (dom_ref D i)"
  shows "fst (DomClick F B i D) = Some r \<Longrightarrow> r = ''Clicked element''"
    and "fst (DomHover F B i D) = Some r \<Longrightarrow> r = ''Hovered over element''"
    and "connected D (dom_ref D j) \<Longrightarrow> fst (DomDrag F B i j D) = Some r \<Longrightarrow> r = ''Drag and drop completed''"
  using assms
  by (auto simp: DomClick_def DomHover_def DomDrag_def with_ref_def then_do_Some look_def returns_def Let_def
      simp del: perform_all.simps)

lemma success_texts:
  "\<not> std_contains ''Error'' ''Clicked element''" "\<not> std_contains ''not found'' ''Clicked element''"
  "\<not> std_contains ''Error'' ''Hovered over element''" "\<not> std_contains ''not found'' ''Hovered over element''"
  "\<not> std_contains ''Error'' ''Drag and drop completed''" "\<not> std_contains ''not found'' ''Drag and drop completed''"
  "std_contains ''Error'' ref_not_found"
  by code_simp+

text \<open>
  C21: when a click, a hover or a drag by reference returns at all, the caller is told the truth: the
  operation is answered ok exactly when every reference still named an element of the page, and
  otherwise with the script's own message, the page untouched.
\<close>

theorem reference_operations_report:
  assumes "EvalStatusJS wc e = AskEval wc e True 10000 k"
    and "(script, refs) \<in> {(DomClick F B i, [i]), (DomHover F B i, [i]), (DomDrag F B i j, [i, j])}"
    and "fst (script D) = Some r"
  shows "if \<forall>x \<in> set refs. connected D (dom_ref D x) then answer_of k r = Answer StatusOk
    else answer_of k r = Answer (StatusError kInternalError ref_not_found) \<and> snd (script D) = D"
proof (cases "\<forall>x \<in> set refs. connected D (dom_ref D x)")
  case True
  from assms(2) consider "script = DomClick F B i" "refs = [i]" | "script = DomHover F B i" "refs = [i]"
    | "script = DomDrag F B i j" "refs = [i, j]" by auto
  then have "r \<in> {''Clicked element'', ''Hovered over element'', ''Drag and drop completed''}"
  proof cases
    case 1
    with True assms(3) acting_texts(1) [of D i F B r] show ?thesis by simp
  next
    case 2
    with True assms(3) acting_texts(2) [of D i F B r] show ?thesis by simp
  next
    case 3
    with True assms(3) acting_texts(3) [of D i j F B r] show ?thesis by simp
  qed
  then have "answer_of k r = Answer StatusOk"
    unfolding eval_status_of_text [OF assms(1)] using success_texts by (elim insertE) simp_all
  with True show ?thesis by simp
next
  case False
  with assms(2) have "script D = (Some ref_not_found, D)" by (auto simp: lost_reference)
  with False assms(3) show ?thesis by (simp add: eval_status_of_text [OF assms(1)] success_texts)
qed

subsection \<open>Typing\<close>

text \<open>
  What the HTML standard says of a field of text, in a page whose own handlers leave it alone: scrolling,
  focusing and events keep its value and its selection, whatever else they change (its place on the screen, say).
  Its value becomes what the element makes of the text it is given, \<open>san e\<close> for the element \<open>e\<close>: a text field drops
  line breaks, a range or a colour takes a default for the empty text. Setting the value moves the selection to
  the end if it changes the value, and \<open>setRangeText\<close> replaces the range, or throws for a type of field that has
  no selection.
\<close>

definition is_field :: "element \<Rightarrow> bool" where
  "is_field el \<longleftrightarrow> js_lower (el_tag_name el) \<in> {js ''input'', js ''textarea''}"

definition same_kind :: "element \<Rightarrow> element \<Rightarrow> bool" where
  "same_kind el el' \<longleftrightarrow> el_tag_name el' = el_tag_name el \<and> el_has_range_text el' = el_has_range_text el"

definition same_text :: "element \<Rightarrow> element \<Rightarrow> bool" where
  "same_text el el' \<longleftrightarrow> same_kind el el' \<and> el_value el' = el_value el \<and> el_selection el' = el_selection el"

definition quiet_on :: "nat \<Rightarrow> page_action set" where
  "quiet_on e = {ScrollIntoView e, FocusElement e} \<union> range (DispatchInput e) \<union> range (DispatchPlain e)"

definition cleared :: "(js_string \<Rightarrow> js_string) \<Rightarrow> element \<Rightarrow> (nat \<times> nat) option" where
  "cleared san el =
     (if san [] = js_text (el_value el) then el_selection el
      else map_option (\<lambda>_. (length (san []), length (san []))) (el_selection el))"

definition field_law :: "(nat \<Rightarrow> js_string \<Rightarrow> js_string) \<Rightarrow> browser \<Rightarrow> bool" where
  "field_law san B \<longleftrightarrow>
     (\<forall>D e. is_field (doc_element D e) \<longrightarrow>
        (\<forall>a \<in> quiet_on e. \<exists>D'. B a D = Some D' \<and> same_text (doc_element D e) (doc_element D' e)) \<and>
        (\<exists>D'. B (SetValue e []) D = Some D' \<and> same_kind (doc_element D e) (doc_element D' e) \<and>
           el_value (doc_element D' e) = JsString (san e []) \<and>
           el_selection (doc_element D' e) = cleared (san e) (doc_element D e)) \<and>
        (\<forall>t i j. i \<le> j \<and> j \<le> length (field_text e D) \<longrightarrow>
           (case el_selection (doc_element D e) of
              None \<Rightarrow> B (SetRangeText e t i j) D = None
            | Some _ \<Rightarrow> \<exists>D'. B (SetRangeText e t i j) D = Some D' \<and> same_kind (doc_element D e) (doc_element D' e) \<and>
                el_value (doc_element D' e) = JsString (san e (take i (field_text e D) @ t @ drop j (field_text e D))))))"

text \<open>A selection lies within the text.\<close>

definition selection_ok :: "element \<Rightarrow> bool" where
  "selection_ok el \<longleftrightarrow>
     (case el_selection el of None \<Rightarrow> True | Some (i, j) \<Rightarrow> i \<le> j \<and> j \<le> length (js_text (el_value el)))"

lemma same_text_field:
  "same_text el el' \<Longrightarrow> is_field el' = is_field el" "same_kind el el' \<Longrightarrow> is_field el' = is_field el"
  "same_text el el' \<Longrightarrow> same_text el' el'' \<Longrightarrow> same_text el el''"
  by (simp_all add: same_text_def same_kind_def is_field_def)

lemma field_law_quiet:
  assumes "field_law san B" "is_field (doc_element D e)" "a \<in> quiet_on e"
  shows "\<exists>D'. perform B a D = (Some (), D') \<and> same_text (doc_element D e) (doc_element D' e)"
proof -
  from assms obtain D' where "B a D = Some D'" "same_text (doc_element D e) (doc_element D' e)"
    unfolding field_law_def by blast
  then show ?thesis by (simp add: perform_def)
qed

lemma field_law_clear:
  assumes "field_law san B" "is_field (doc_element D e)"
  shows "\<exists>D'. perform B (SetValue e []) D = (Some (), D') \<and> same_kind (doc_element D e) (doc_element D' e) \<and>
    el_value (doc_element D' e) = JsString (san e []) \<and> el_selection (doc_element D' e) = cleared (san e) (doc_element D e)"
proof -
  from assms obtain D' where "B (SetValue e []) D = Some D'" "same_kind (doc_element D e) (doc_element D' e)"
    "el_value (doc_element D' e) = JsString (san e [])" "el_selection (doc_element D' e) = cleared (san e) (doc_element D e)"
    unfolding field_law_def by blast
  then show ?thesis by (simp add: perform_def)
qed

lemma field_law_range:
  assumes "field_law san B" "is_field (doc_element D e)" "i \<le> j" "j \<le> length (field_text e D)"
  shows "el_selection (doc_element D e) = None \<Longrightarrow> perform B (SetRangeText e t i j) D = (None, D)"
    and "el_selection (doc_element D e) = Some b \<Longrightarrow> \<exists>D'. perform B (SetRangeText e t i j) D = (Some (), D') \<and>
      same_kind (doc_element D e) (doc_element D' e) \<and>
      el_value (doc_element D' e) = JsString (san e (take i (field_text e D) @ t @ drop j (field_text e D)))"
proof -
  from assms have *: "case el_selection (doc_element D e) of
           None \<Rightarrow> B (SetRangeText e t i j) D = None
         | Some _ \<Rightarrow> \<exists>D'. B (SetRangeText e t i j) D = Some D' \<and> same_kind (doc_element D e) (doc_element D' e) \<and>
             el_value (doc_element D' e) = JsString (san e (take i (field_text e D) @ t @ drop j (field_text e D)))"
    unfolding field_law_def by blast
  from * show "perform B (SetRangeText e t i j) D = (None, D)" if "el_selection (doc_element D e) = None"
    using that by (simp add: perform_def)
  from * show "\<exists>D'. perform B (SetRangeText e t i j) D = (Some (), D') \<and> same_kind (doc_element D e) (doc_element D' e) \<and>
      el_value (doc_element D' e) = JsString (san e (take i (field_text e D) @ t @ drop j (field_text e D)))"
    if "el_selection (doc_element D e) = Some b"
    using that by (auto simp: perform_def)
qed

lemma focus_quiet:
  assumes "field_law san B" "is_field (doc_element D e)"
  shows "\<exists>D'. focus B e D = (Some (), D') \<and> same_text (doc_element D e) (doc_element D' e)"
  using field_law_quiet [OF assms, of "FocusElement e"] by (auto simp: focus_def quiet_on_def same_text_def same_kind_def)

text \<open>What typing leaves in a field, and whether the script returns.\<close>

definition typed_value :: "(js_string \<Rightarrow> js_string) \<Rightarrow> element \<Rightarrow> js_string \<Rightarrow> bool \<Rightarrow> js_string" where
  "typed_value san el typed clear =
     (let v = (if clear then san [] else js_text (el_value el))
      in case (if clear then cleared san el else el_selection el) of
           None \<Rightarrow> v
         | Some (i, j) \<Rightarrow> san (take i v @ typed @ drop j v))"

text \<open>In a field that can be empty and takes the text as it is, that is the text alone after clearing.\<close>

lemma typed_value_cleared:
  assumes "san [] = []" "san typed = typed" "selection_ok el" "el_selection el \<noteq> None"
  shows "typed_value san el typed True = typed"
  using assms by (auto simp: typed_value_def cleared_def selection_ok_def split: if_splits)

lemma type_in_field_result:
  assumes "field_law san B" "is_field (doc_element D e)" "el_has_range_text (doc_element D e)" "selection_ok (doc_element D e)"
  shows "fst (type_in_field B typed clear e D) =
      (if el_selection (doc_element D e) = None then None else Some ''Typed text'')"
    and "field_text e (snd (type_in_field B typed clear e D)) = typed_value (san e) (doc_element D e) typed clear"
proof -
  let ?el = "doc_element D e"
  let ?v = "if clear then san e [] else js_text (el_value ?el)" and ?sel = "if clear then cleared (san e) ?el else el_selection ?el"
  obtain D1 where D1: "(if clear then perform B (SetValue e []) else returns ()) D = (Some (), D1)"
    and el1: "same_kind ?el (doc_element D1 e)" "js_text (el_value (doc_element D1 e)) = ?v" "el_selection (doc_element D1 e) = ?sel"
    using field_law_clear [OF assms(1,2)] by (cases clear) (auto simp: returns_def same_kind_def)
  have has: "el_has_range_text (doc_element D1 e)" "is_field (doc_element D1 e)"
    using el1(1) assms(3) same_text_field(2) [OF el1(1)] assms(2) by (simp_all add: same_kind_def)
  have text1: "field_text e D1 = ?v" using el1(2) by (simp add: field_text_def)
  have "fst (type_in_field B typed clear e D) = (if el_selection ?el = None then None else Some ''Typed text'') \<and>
    field_text e (snd (type_in_field B typed clear e D)) = typed_value (san e) ?el typed clear"
  proof (cases "el_selection ?el")
    case None
    then have none: "?sel = None" by (simp add: cleared_def)
    then have "selection_of e D1 = (length (field_text e D1), length (field_text e D1))"
      using el1(3) by (simp add: selection_of_def)
    moreover from none el1(3) have "el_selection (doc_element D1 e) = None" by simp
    ultimately have "type_in_field B typed clear e D = (None, D1)"
      using D1 has(1) field_law_range(1) [OF assms(1) has(2), of "length (field_text e D1)" "length (field_text e D1)" typed]
      by (simp add: type_in_field_def then_do_def)
    with None none text1 show ?thesis by (simp add: typed_value_def Let_def)
  next
    case (Some ij)
    then have "?sel \<noteq> None" by (simp add: cleared_def)
    then obtain ab' where "?sel = Some ab'" by blast
    then obtain a b where ab: "?sel = Some (a, b)" by (cases ab') blast
    have bounds: "a \<le> b" "b \<le> length ?v"
      using ab Some assms(4) by (auto simp: cleared_def selection_ok_def split: if_splits)
    from field_law_range(2) [OF assms(1) has(2) bounds(1), where t = typed and b = "(a, b)"] bounds(2) el1(3) ab text1 obtain D2 where
      D2: "perform B (SetRangeText e typed a b) D1 = (Some (), D2)" "same_kind (doc_element D1 e) (doc_element D2 e)"
        "el_value (doc_element D2 e) = JsString (san e (take a ?v @ typed @ drop b ?v))" by auto
    have f2: "is_field (doc_element D2 e)" using same_text_field(2) [OF D2(2)] has(2) by simp
    from field_law_quiet [OF assms(1) f2, of "DispatchInput e typed"] obtain D3 where
      D3: "perform B (DispatchInput e typed) D2 = (Some (), D3)" "same_text (doc_element D2 e) (doc_element D3 e)"
      by (auto simp: quiet_on_def)
    have f3: "is_field (doc_element D3 e)" using same_text_field(1) [OF D3(2)] f2 by simp
    from field_law_quiet [OF assms(1) f3, of "DispatchPlain e ''change''"] obtain D4 where
      D4: "perform B (DispatchPlain e ''change'') D3 = (Some (), D4)" "same_text (doc_element D3 e) (doc_element D4 e)"
      by (auto simp: quiet_on_def)
    have "selection_of e D1 = (a, b)" using el1(3) ab by (simp add: selection_of_def)
    then have "type_in_field B typed clear e D = (Some ''Typed text'', D4)"
      using D1 has(1) D2(1) D3(1) D4(1) by (simp add: type_in_field_def then_do_def returns_def)
    moreover have "field_text e D4 = san e (take a ?v @ typed @ drop b ?v)"
      using D2(3) D3(2) D4(2) by (simp add: field_text_def same_text_def)
    ultimately show ?thesis using Some ab by (simp add: typed_value_def Let_def)
  qed
  then show "fst (type_in_field B typed clear e D) = (if el_selection ?el = None then None else Some ''Typed text'')"
    and "field_text e (snd (type_in_field B typed clear e D)) = typed_value (san e) ?el typed clear"
    by simp_all
qed

text \<open>
  C28: typing by reference into an input or a text area replaces its selection, or its whole text when
  it is to be cleared, and the field keeps of the result what it accepts. In a field that has no selection (one for an
  address, a number or a date) the script always ends with an exception, and the field has then already lost its text
  when it was to be cleared.
\<close>

theorem typing_by_reference:
  assumes "field_law san B" and "dom_ref D i = Some e" and "el_is_connected (doc_element D e)"
    and "is_field (doc_element D e)" and "el_has_range_text (doc_element D e)" and "selection_ok (doc_element D e)"
  shows "fst (DomType B typed clear i D) =
      (if el_selection (doc_element D e) = None then None else Some ''Typed text'') \<and>
    field_text e (snd (DomType B typed clear i D)) = typed_value (san e) (doc_element D e) typed clear"
proof -
  from field_law_quiet [OF assms(1,4), of "ScrollIntoView e"] obtain D1 where
    D1: "perform B (ScrollIntoView e) D = (Some (), D1)" "same_text (doc_element D e) (doc_element D1 e)"
    by (auto simp: quiet_on_def)
  have f1: "is_field (doc_element D1 e)" using same_text_field(1) [OF D1(2)] assms(4) by simp
  from focus_quiet [OF assms(1) f1] obtain D2 where
    D2: "focus B e D1 = (Some (), D2)" "same_text (doc_element D1 e) (doc_element D2 e)" by blast
  have same: "same_text (doc_element D e) (doc_element D2 e)" using same_text_field(3) D1(2) D2(2) .
  then have v: "el_value (doc_element D2 e) = el_value (doc_element D e)"
    "el_selection (doc_element D2 e) = el_selection (doc_element D e)"
    "el_has_range_text (doc_element D2 e) = el_has_range_text (doc_element D e)"
    by (auto simp: same_text_def same_kind_def)
  have f2: "is_field (doc_element D2 e)" "el_has_range_text (doc_element D2 e)" "selection_ok (doc_element D2 e)"
    using same_text_field(1) [OF same] assms(4,5,6) by (simp_all only: selection_ok_def v)
  have t2: "typed_value (san e) (doc_element D2 e) typed clear = typed_value (san e) (doc_element D e) typed clear"
    by (simp only: typed_value_def cleared_def v)
  from f2 have "DomType B typed clear i D = type_in_field B typed clear e D2"
    using assms(2,3) D1(1) D2(1) by (auto simp: DomType_def with_ref_def connected_def then_do_def is_field_def)
  with type_in_field_result [OF assms(1) f2] v(2) t2 show ?thesis by simp
qed

subsection \<open>A browser that does what the standard says\<close>

lemma decimal_law_ref_lib: "decimal_law ref_lib"
proof -
  have "parse_int (show_nat n) = Some (word_of_nat n)" if "n < 2 ^ 31" for n
  proof -
    have "parse_int (show_nat n) = c_int_of (int n)"
      using parse_int_show_int [of "int n"] by (simp add: show_int_def)
    with that show ?thesis by (simp add: c_int_of_def)
  qed
  then show ?thesis by (simp add: decimal_law_def ref_lib_def)
qed

definition update_element :: "nat \<Rightarrow> (element \<Rightarrow> element) \<Rightarrow> page \<Rightarrow> page" where
  "update_element e f D = D\<lparr>doc_element := (doc_element D)(e := f (doc_element D e))\<rparr>"

text \<open>It scrolls everything to the top, and its fields drop line breaks; the element 5 is a range.\<close>

definition standard_text :: "nat \<Rightarrow> js_string \<Rightarrow> js_string" where
  "standard_text e t = (if e = 5 \<and> t = [] then js ''50'' else filter (\<lambda>c. c \<noteq> 0x0A \<and> c \<noteq> 0x0D) t)"

fun standard_browser :: browser where
  "standard_browser (ScrollIntoView e) D =
     Some (D\<lparr>doc_element := (\<lambda>x. (doc_element D x)\<lparr>el_top := 0\<rparr>)\<rparr>)"
| "standard_browser (SetValue e v) D =
     Some (update_element e (\<lambda>el. el\<lparr>el_value := JsString (standard_text e v),
       el_selection := (if standard_text e v = js_text (el_value el) then el_selection el
         else map_option (\<lambda>_. (length (standard_text e v), length (standard_text e v))) (el_selection el))\<rparr>) D)"
| "standard_browser (SetRangeText e t i j) D =
     (if el_selection (doc_element D e) = None then None
      else Some (update_element e (\<lambda>el. el\<lparr>
        el_value := JsString (standard_text e (take i (field_text e D) @ t @ drop j (field_text e D))),
        el_selection := Some (i + length t, i + length t)\<rparr>) D))"
| "standard_browser a D = Some D"

lemma field_law_standard: "field_law standard_text standard_browser"
proof -
  have "\<exists>D'. standard_browser a D = Some D' \<and> same_text (doc_element D e) (doc_element D' e)" if "a \<in> quiet_on e" for a D e
    using that by (auto simp: quiet_on_def same_text_def same_kind_def)
  then show ?thesis
    by (auto simp: field_law_def update_element_def same_kind_def cleared_def split: option.split)
qed

definition sample_snapshot :: page where
  "sample_snapshot = snd (DomSnapshot demo_f64 sample_page)"

text \<open>The same page, where the third element is a field for any text, with two letters selected.\<close>

definition typing_page :: page where
  "typing_page = update_element 3 (\<lambda>el. el\<lparr>el_value := JsString (js ''hallo''), el_selection := Some (1, 3),
     el_has_range_text := True\<rparr>) sample_snapshot"

definition address_page :: page where
  "address_page = update_element 3 (\<lambda>el. el\<lparr>el_value := JsString (js ''a@b''), el_has_range_text := True\<rparr>) sample_snapshot"

lemma sample_snapshot_refs: "doc_refs sample_snapshot = Some [0, 1, 3]"
  by (simp add: sample_snapshot_def snapshot_lists [OF sample_page_order(1)] sample_listed)

lemma sample_snapshot_elements: "doc_element sample_snapshot = doc_element sample_page"
  by (simp add: sample_snapshot_def snapshot_lists [OF sample_page_order(1)])

theorem snapshot_references_resolve_witness:
  "\<exists>before i. line_of sample_page [0, 1, 3] 2 = before @ js ('' [ref='' @ ''dom:'' @ show_nat 2 @ '']'') \<and>
      ParseDomRef ref_lib (''dom:'' @ show_nat 2) = Some i \<and> dom_ref sample_snapshot (unat i) = Some 3 \<and>
      (\<exists>acts. doc_actions (snd (DomHover demo_f64 standard_browser (unat i) sample_snapshot)) =
         doc_actions sample_snapshot @ acts \<and> acted_on ` set acts \<subseteq> {Some 3})"
proof -
  have "2 < length (listed_elements demo_f64 sample_page)" "1 < length (listed_elements demo_f64 sample_page)"
    "doc_refs sample_snapshot = doc_refs (snd (DomSnapshot demo_f64 sample_page))"
    by (simp_all add: sample_listed sample_snapshot_def)
  from snapshot_references_resolve [OF sample_page_order(1) decimal_law_ref_lib this(1,3,2), of demo_f64 standard_browser "[]" "[]" True]
  show ?thesis by (fastforce simp: sample_listed)
qed

lemma sample_click: "fst (DomClick demo_f64 standard_browser 1 sample_snapshot) = Some ''Clicked element''"
proof -
  have "connected sample_snapshot (dom_ref sample_snapshot 1)" "el_has_focus (doc_element sample_page 1)"
    by (simp_all add: connected_def dom_ref_def sample_snapshot_refs sample_snapshot_elements sample_page_def sample_element_def)
  then show ?thesis
    by (simp add: DomClick_def with_ref_def then_do_def perform_def focus_def look_def mouse_events_def
        returns_def dom_ref_def sample_snapshot_refs sample_snapshot_elements)
qed

theorem reference_operations_report_witness:
  "\<exists>k. EvalStatusJS (0 :: web_contents) ''click'' = AskEval 0 ''click'' True 10000 k \<and>
     answer_of k ''Clicked element'' = (Answer StatusOk :: (nat, BrowserStatus) task)"
proof -
  obtain k :: "evaluation \<Rightarrow> (nat, BrowserStatus) task" where
    k: "EvalStatusJS 0 ''click'' = AskEval 0 ''click'' True 10000 k" by (simp add: EvalStatusJS_def)
  have "connected sample_snapshot (dom_ref sample_snapshot 1)"
    by (simp add: connected_def dom_ref_def sample_snapshot_refs sample_snapshot_elements sample_page_def sample_element_def)
  with reference_operations_report [OF k, of "DomClick demo_f64 standard_browser 1" "[1]" demo_f64 standard_browser 1 0
      sample_snapshot "''Clicked element''"] sample_click k
  show ?thesis by auto
qed

theorem typing_by_reference_witness:
  "field_text 3 (snd (DomType standard_browser (js ''e'') False 2 typing_page)) = js ''helo'' \<and>
   fst (DomType standard_browser (js ''c@d'') True 2 address_page) = None \<and>
   field_text 3 (snd (DomType standard_browser (js ''c@d'') True 2 address_page)) = []"
proof -
  have pages: "dom_ref typing_page 2 = Some 3" "dom_ref address_page 2 = Some 3"
    "el_is_connected (doc_element typing_page 3)" "el_is_connected (doc_element address_page 3)"
    "el_has_range_text (doc_element typing_page 3)" "el_has_range_text (doc_element address_page 3)"
    "el_selection (doc_element typing_page 3) = Some (1, 3)" "el_selection (doc_element address_page 3) = None"
    "js_text (el_value (doc_element typing_page 3)) = js ''hallo''"
    "el_tag_name (doc_element typing_page 3) = js ''INPUT''" "el_tag_name (doc_element address_page 3) = js ''INPUT''"
    by (simp_all add: typing_page_def address_page_def update_element_def dom_ref_def sample_snapshot_refs
        sample_snapshot_elements sample_page_def sample_element_def)
  have "js_lower (js ''INPUT'') \<in> {js ''input'', js ''textarea''}" by code_simp
  then have fields: "is_field (doc_element typing_page 3)" "is_field (doc_element address_page 3)"
    by (simp_all add: is_field_def pages)
  have ok: "selection_ok (doc_element typing_page 3)" "selection_ok (doc_element address_page 3)"
    by (simp_all add: selection_ok_def pages js_def)
  have "standard_text 3 (take 1 (js ''hallo'') @ js ''e'' @ drop 3 (js ''hallo'')) = js ''helo''" "standard_text 3 [] = []"
    by code_simp+
  with typing_by_reference [OF field_law_standard pages(1,3) fields(1) pages(5) ok(1), of "js ''e''" False]
    typing_by_reference [OF field_law_standard pages(2,4) fields(2) pages(6) ok(2), of "js ''c@d''" True] pages
  show ?thesis by (simp add: typed_value_def cleared_def)
qed

end
