(* ===== verification/Page_Console.thy ===== *)
theory Page_Console
  imports Page_Snapshot Controller
begin

section \<open>The console and canvas scripts (\<open>core/browser_controller.cc\<close>)\<close>

text \<open>
  \<open>kConsoleCaptureScript\<close> wraps the console of a page so that \<open>browser_console_messages\<close> can read
  what was logged, and \<open>kCanvasScreenshotScript\<close> draws a page without a screen onto a canvas. As in
  \<open>Page_Snapshot\<close>, what the browser provides is read off records or is an argument.
\<close>

subsection \<open>The console\<close>

record console_entry =
  ce_level :: string
  ce_text :: js_string
  ce_timestamp :: int

text \<open>
  An argument of a console call: an object with what \<open>JSON.stringify\<close> and \<open>String\<close> give for it, or
  anything else with what the first and the second \<open>String(a)\<close> give. \<open>None\<close> is an exception.
\<close>

datatype console_arg =
    ArgObject "js_value option" "js_string option"
  | ArgOther "js_string option" "js_string option"

fun arg_text :: "console_arg \<Rightarrow> js_value option" where
  "arg_text (ArgObject (Some j) s) = Some j"
| "arg_text (ArgObject None s) = map_option JsString s"
| "arg_text (ArgOther (Some s) s') = Some (JsString s)"
| "arg_text (ArgOther None s') = map_option JsString s'"

fun map_args :: "console_arg list \<Rightarrow> js_value list option" where
  "map_args [] = Some []"
| "map_args (a # as) =
     (case arg_text a of
        None \<Rightarrow> None
      | Some v \<Rightarrow> (case map_args as of None \<Rightarrow> None | Some vs \<Rightarrow> Some (v # vs)))"

text \<open>\<open>join(' ')\<close> writes nothing for \<open>undefined\<close> and \<open>null\<close>.\<close>

definition join_text :: "js_value \<Rightarrow> js_string" where
  "join_text v = (if v \<in> {JsUndefined, JsNull} then [] else js_text v)"

text \<open>A console function: the browser's own, or one that captures and calls the one before it.\<close>

datatype console_method = Original string | Wrapper string console_method

record console_page =
  win_logs :: "console_entry list option"          \<comment> \<open>\<open>window.__browserdLogs\<close>\<close>
  win_console :: "string \<Rightarrow> console_method"
  win_output :: "(string \<times> console_arg list) list"  \<comment> \<open>what reached the browser's own console\<close>

definition console_levels :: "string list" where
  "console_levels = [''log'', ''warn'', ''error'', ''info'', ''debug'']"

definition max_logs :: nat where
  "max_logs = 1000"

definition entry_of :: "int \<Rightarrow> string \<Rightarrow> console_arg list \<Rightarrow> console_entry option" where
  "entry_of now level args =
     (case map_args args of
        None \<Rightarrow> None
      | Some vs \<Rightarrow>
          Some \<lparr>ce_level = level, ce_text = js_join [0x20] (map join_text vs), ce_timestamp = now\<rparr>)"

definition push_log :: "console_entry \<Rightarrow> console_entry list \<Rightarrow> console_entry list" where
  "push_log e logs = (let pushed = logs @ [e] in if length pushed > max_logs then tl pushed else pushed)"

text \<open>Every exception in it is swallowed.\<close>

definition capture :: "int \<Rightarrow> string \<Rightarrow> console_arg list \<Rightarrow> console_page \<Rightarrow> console_page" where
  "capture now level args P =
     (case (win_logs P, entry_of now level args) of
        (Some logs, Some e) \<Rightarrow> P\<lparr>win_logs := Some (push_log e logs)\<rparr>
      | _ \<Rightarrow> P)"

fun call_method :: "int \<Rightarrow> console_arg list \<Rightarrow> console_method \<Rightarrow> console_page \<Rightarrow> console_page" where
  "call_method now args (Original level) P = P\<lparr>win_output := win_output P @ [(level, args)]\<rparr>"
| "call_method now args (Wrapper level m) P = call_method now args m (capture now level args P)"

definition InstallCapture :: "console_page \<Rightarrow> console_page" where
  "InstallCapture P =
     P\<lparr>win_logs := Some [],
       win_console := (\<lambda>level. if level \<in> set console_levels then Wrapper level (win_console P level) else win_console P level)\<rparr>"

text \<open>A page that calls its console.\<close>

type_synonym console_call = "int \<times> string \<times> console_arg list"

definition console_call :: "console_call \<Rightarrow> console_page \<Rightarrow> console_page" where
  "console_call c P = (case c of (now, level, args) \<Rightarrow> call_method now args (win_console P level) P)"

definition fresh_console :: console_page where
  "fresh_console = \<lparr>win_logs = None, win_console = Original, win_output = []\<rparr>"

text \<open>\<open>if (!window.__browserdLogs) return '[]'; return JSON.stringify(window.__browserdLogs);\<close>\<close>

definition console_text :: "(console_entry list \<Rightarrow> string) \<Rightarrow> console_page \<Rightarrow> string" where
  "console_text stringify P = (case win_logs P of None \<Rightarrow> ''[]'' | Some logs \<Rightarrow> stringify logs)"

subsection \<open>What is captured\<close>

definition last_n :: "nat \<Rightarrow> 'a list \<Rightarrow> 'a list" where
  "last_n n xs = drop (length xs - n) xs"

definition captured :: "console_call list \<Rightarrow> console_entry list" where
  "captured calls = List.map_filter (\<lambda>(now, level, args). entry_of now level args) calls"

lemma push_log_last: "push_log e (last_n max_logs xs) = last_n max_logs (xs @ [e])"
proof (cases "length xs < max_logs")
  case False
  define n where "n = length xs - max_logs"
  have "length (xs @ [e]) - max_logs = Suc n" "length (drop n xs @ [e]) > max_logs" "n \<le> length xs"
    using False by (simp_all add: n_def)
  moreover have "tl (drop n (xs @ [e])) = drop (Suc n) (xs @ [e])" by (simp only: drop_Suc tl_drop)
  ultimately show ?thesis by (simp add: push_log_def last_n_def Let_def flip: n_def)
qed (simp add: push_log_def last_n_def)

lemma capture_unchanged [simp]:
  "win_console (capture now level args P) = win_console P" "win_output (capture now level args P) = win_output P"
  by (simp_all add: capture_def split: option.split)

lemma capture_logs:
  "win_logs P = Some logs \<Longrightarrow> win_logs (capture now level args P) =
     Some (case entry_of now level args of None \<Rightarrow> logs | Some e \<Rightarrow> push_log e logs)"
  by (simp add: capture_def split: option.split)

lemma captured_snoc: "captured (cs @ [c]) = captured cs @ (case c of (now, level, args) \<Rightarrow>
    (case entry_of now level args of None \<Rightarrow> [] | Some e \<Rightarrow> [e]))"
  by (auto simp: captured_def List.map_filter_def split: prod.splits option.split)

text \<open>
  C18: once the capture script has run in a fresh document, the log holds exactly the last 1000 of the
  messages whose arguments can be turned into text, in order, and every call still reaches the
  page's own console unchanged, whether or not it could be captured.
\<close>

theorem console_keeps_the_last_messages:
  assumes "\<forall>(now, level, args) \<in> set calls. level \<in> set console_levels"
  shows "win_logs (fold console_call calls (InstallCapture fresh_console)) = Some (last_n max_logs (captured calls)) \<and>
    win_output (fold console_call calls (InstallCapture fresh_console)) = map snd calls \<and>
    win_console (fold console_call calls (InstallCapture fresh_console)) = win_console (InstallCapture fresh_console)"
  using assms
proof (induction calls rule: rev_induct)
  case Nil
  then show ?case by (simp add: InstallCapture_def fresh_console_def captured_def last_n_def List.map_filter_def)
next
  case (snoc c calls)
  let ?P = "fold console_call calls (InstallCapture fresh_console)"
  obtain now level args where c: "c = (now, level, args)" by (cases c) auto
  with snoc have level: "level \<in> set console_levels"
    and IH: "win_logs ?P = Some (last_n max_logs (captured calls))" "win_output ?P = map snd calls"
      "win_console ?P = win_console (InstallCapture fresh_console)" by auto
  then have "win_console ?P level = Wrapper level (Original level)"
    by (simp add: InstallCapture_def fresh_console_def)
  then have "console_call c ?P = (capture now level args ?P)\<lparr>win_output := map snd calls @ [(level, args)]\<rparr>"
    by (simp add: console_call_def c IH(2))
  moreover have "win_logs (capture now level args ?P) = Some (last_n max_logs (captured (calls @ [c])))"
    by (simp add: capture_logs [OF IH(1)] captured_snoc c push_log_last split: option.split)
  ultimately show ?case by (simp add: c IH(3))
qed

subsection \<open>Navigations within a document\<close>

text \<open>
  The observer of the controller runs the script after every committed navigation of the main frame.
  A navigation within a document (a fragment, \<open>pushState\<close>) commits too, and keeps the page.
\<close>

definition after_navigation :: "navigation_handle \<Rightarrow> console_page \<Rightarrow> console_page" where
  "after_navigation h P =
     fold (\<lambda>_. InstallCapture) (InstrumentationDidFinishNavigation [] True h 0) P"

lemma wrapped_again:
  "level \<in> set console_levels \<Longrightarrow> win_console ((InstallCapture ^^ n) P) level = (Wrapper level ^^ n) (win_console P level)"
  by (induction n) (simp_all add: InstallCapture_def)

lemma push_repeated:
  "win_logs P = Some (last_n max_logs xs) \<Longrightarrow>
     win_logs (call_method now args ((Wrapper level ^^ n) (Original level')) P) =
       Some (last_n max_logs (xs @ (case entry_of now level args of None \<Rightarrow> [] | Some e \<Rightarrow> replicate n e)))"
proof (induction n arbitrary: P xs)
  case 0
  then show ?case by (simp split: option.split)
next
  case (Suc n)
  show ?case
  proof (cases "entry_of now level args")
    case None
    with Suc.prems have "win_logs (capture now level args P) = Some (last_n max_logs xs)" by (simp add: capture_logs)
    from Suc.IH [OF this] None show ?thesis by simp
  next
    case (Some e)
    with Suc.prems have "win_logs (capture now level args P) = Some (last_n max_logs (xs @ [e]))"
      by (simp add: capture_logs push_log_last)
    from Suc.IH [OF this] Some show ?thesis by simp
  qed
qed

lemma wrapped_calls:
  "win_console (call_method now args m P) = win_console P"
  "win_output (call_method now args ((Wrapper level ^^ n) (Original level')) P) = win_output P @ [(level', args)]"
  by (induction m arbitrary: P; simp) (induction n arbitrary: P; simp)

lemma after_navigation_installs:
  "nh_is_in_primary_main_frame h \<Longrightarrow> nh_has_committed h \<Longrightarrow> after_navigation h P = InstallCapture P"
  by (simp add: after_navigation_def InstrumentationDidFinishNavigation_def)

text \<open>What happens in a document: its page logs, and the main frame is navigated within it.\<close>

datatype document_event = Logs console_call | Navigates navigation_handle

fun page_event :: "document_event \<Rightarrow> console_page \<Rightarrow> console_page" where
  "page_event (Logs c) P = console_call c P"
| "page_event (Navigates h) P = after_navigation h P"

fun usual_event :: "document_event \<Rightarrow> bool" where
  "usual_event (Logs (now, level, args)) = (level \<in> set console_levels)"
| "usual_event (Navigates h) = (nh_is_in_primary_main_frame h \<and> nh_has_committed h)"

fun event_calls :: "document_event list \<Rightarrow> console_call list" where
  "event_calls [] = []"
| "event_calls (Logs c # es) = c # event_calls es"
| "event_calls (Navigates h # es) = event_calls es"

fun navigations :: "document_event list \<Rightarrow> nat" where
  "navigations [] = 0"
| "navigations (Logs c # es) = navigations es"
| "navigations (Navigates h # es) = Suc (navigations es)"

lemma events_append [simp]:
  "event_calls (es @ fs) = event_calls es @ event_calls fs" "navigations (es @ fs) = navigations es + navigations fs"
  by (induction es rule: event_calls.induct) simp_all

text \<open>After any events the console is wrapped once for each navigation, and its own console heard every call once.\<close>

lemma page_events:
  assumes "\<forall>e \<in> set es. usual_event e"
  shows "\<forall>level \<in> set console_levels.
      win_console (fold page_event es fresh_console) level = (Wrapper level ^^ navigations es) (Original level)"
    and "win_output (fold page_event es fresh_console) = map snd (event_calls es)"
proof -
  have "(\<forall>level \<in> set console_levels.
      win_console (fold page_event es fresh_console) level = (Wrapper level ^^ navigations es) (Original level)) \<and>
    win_output (fold page_event es fresh_console) = map snd (event_calls es)"
    using assms
  proof (induction es rule: rev_induct)
    case Nil
    then show ?case by (simp add: fresh_console_def)
  next
    case (snoc e es)
    show ?case
    proof (cases e)
      case (Logs c)
      obtain now level args where "c = (now, level, args)" by (cases c) auto
      with snoc Logs show ?thesis by (simp add: console_call_def wrapped_calls)
    next
      case (Navigates h)
      with snoc have "after_navigation h (fold page_event es fresh_console) = InstallCapture (fold page_event es fresh_console)"
        by (intro after_navigation_installs) auto
      with snoc Navigates show ?thesis by (simp add: InstallCapture_def)
    qed
  qed
  then show "\<forall>level \<in> set console_levels.
      win_console (fold page_event es fresh_console) level = (Wrapper level ^^ navigations es) (Original level)"
    "win_output (fold page_event es fresh_console) = map snd (event_calls es)" by simp_all
qed

lemma repeated_snoc: "concat (map (replicate n) (captured (cs @ [(now, level, args)]))) =
    concat (map (replicate n) (captured cs)) @
      (case entry_of now level args of None \<Rightarrow> [] | Some e \<Rightarrow> replicate n e)"
  by (simp add: captured_snoc split: option.split)

text \<open>
  C31: the script does not see that it ran in the document before. Whatever the page logged and
  however often it was navigated within the document, the next such navigation empties the log and wraps the
  console once more; so the messages from before it are gone, and of those after it the log holds the last 1000
  records, in which each message stands as often as the main frame was navigated in this document. The page's
  own console still hears every call once.
\<close>

theorem messages_are_duplicated:
  assumes "\<forall>e \<in> set (es @ [Navigates h] @ map Logs calls). usual_event e"
  shows "win_logs (fold page_event (es @ [Navigates h]) fresh_console) = Some [] \<and>
    win_logs (fold page_event (es @ [Navigates h] @ map Logs calls) fresh_console) =
      Some (last_n max_logs (concat (map (replicate (Suc (navigations es))) (captured calls)))) \<and>
    win_output (fold page_event (es @ [Navigates h] @ map Logs calls) fresh_console) = map snd (event_calls es @ calls)"
  using assms
proof (induction calls rule: rev_induct)
  case Nil
  then have "after_navigation h (fold page_event es fresh_console) = InstallCapture (fold page_event es fresh_console)"
    by (intro after_navigation_installs) auto
  with page_events(2) [of es] Nil show ?case
    by (simp add: InstallCapture_def captured_def last_n_def List.map_filter_def)
next
  case (snoc c calls)
  obtain now level args where c: "c = (now, level, args)" by (cases c) auto
  let ?before = "es @ [Navigates h] @ map Logs calls"
  define n where "n = Suc (navigations es)"
  let ?P = "fold page_event ?before fresh_console"
  have calls: "event_calls (map Logs cs) = cs" "navigations (map Logs cs) = 0" for cs by (induction cs) auto
  from snoc have IH: "win_logs (fold page_event (es @ [Navigates h]) fresh_console) = Some []"
    "win_logs ?P = Some (last_n max_logs (concat (map (replicate n) (captured calls))))"
    "win_output ?P = map snd (event_calls es @ calls)" by (auto simp: n_def simp del: replicate.simps)
  from snoc.prems have usual: "\<forall>e \<in> set ?before. usual_event e" and level: "level \<in> set console_levels" by (auto simp: c)
  from page_events(1) [OF usual] level have console: "win_console ?P level = (Wrapper level ^^ n) (Original level)"
    by (simp add: calls n_def del: funpow.simps)
  have step: "fold page_event (es @ [Navigates h] @ map Logs (calls @ [c])) fresh_console =
      call_method now args ((Wrapper level ^^ n) (Original level)) ?P"
    using console by (simp add: c console_call_def)
  show ?case
    unfolding step n_def [symmetric]
    using IH push_repeated [OF IH(2)] wrapped_calls(2) repeated_snoc [of n calls now level args] by (simp add: c)
qed

subsection \<open>The canvas\<close>

text \<open>
  \<open>kCanvasScreenshotScript\<close> copies the document, writes the computed styles into the copy, draws it
  as an image and answers with the data of the image, or with nothing. A tree has its node kind, its
  computed style, its \<open>style\<close> attribute and its child elements.
\<close>

datatype styled = Styled bool "string \<Rightarrow> js_string" "js_string option" "styled list"

definition style_props :: "string list" where
  "style_props =
     [''display'', ''position'', ''box-sizing'', ''width'', ''height'', ''margin'', ''padding'', ''border'',
      ''background'', ''background-color'', ''color'', ''font'', ''font-family'', ''font-size'',
      ''font-weight'', ''line-height'', ''text-align'', ''vertical-align'', ''white-space'', ''overflow'',
      ''border-radius'', ''box-shadow'', ''opacity'']"

definition style_text :: "(string \<Rightarrow> js_string) \<Rightarrow> js_string option \<Rightarrow> js_string" where
  "style_text computed style =
     (case style of None \<Rightarrow> [] | Some s \<Rightarrow> s) @
     concat (map (\<lambda>prop. js prop @ js '':'' @ computed prop @ js '';'') style_props)"

fun inlineStyles :: "styled \<Rightarrow> styled \<Rightarrow> styled"
and inlineChildren :: "styled list \<Rightarrow> styled list \<Rightarrow> styled list" where
  "inlineStyles (Styled is_element computed _ cs) (Styled b t style ds) =
     (if \<not> is_element then Styled b t style ds
      else Styled b t (Some (style_text computed style)) (inlineChildren cs ds))"
| "inlineChildren (c # cs) (d # ds) = inlineStyles c d # inlineChildren cs ds"
| "inlineChildren [] ds = ds"
| "inlineChildren cs [] = []"

text \<open>The size: the window's, or the document's, and at least one pixel.\<close>

definition canvas_side :: "int \<Rightarrow> int \<Rightarrow> int" where
  "canvas_side inner client = max 1 (if inner \<noteq> 0 then inner else if client \<noteq> 0 then client else 1)"

definition canvas_svg :: "int \<Rightarrow> int \<Rightarrow> js_string \<Rightarrow> js_string" where
  "canvas_svg width height html =
     js ''<svg xmlns=\"http://www.w3.org/2000/svg\" width=\"'' @ js (show_int width) @
     js ''\" height=\"'' @ js (show_int height) @ js ''\">'' @
     js ''<foreignObject width=\"100%\" height=\"100%\">'' @ html @ js ''</foreignObject>'' @
     js ''</svg>''"

definition canvas_source :: "(js_string \<Rightarrow> js_string) \<Rightarrow> js_string \<Rightarrow> js_string" where
  "canvas_source encodeURIComponent svg = js ''data:image/svg+xml;charset=utf-8,'' @ encodeURIComponent svg"

text \<open>\<open>resolve\<close> was called with these values; a promise keeps the first.\<close>

record canvas_shot =
  cs_finished :: bool
  cs_resolved :: "js_string list"

definition finish :: "js_string \<Rightarrow> canvas_shot \<Rightarrow> canvas_shot" where
  "finish v s = (if cs_finished s then s else s\<lparr>cs_finished := True, cs_resolved := cs_resolved s @ [v]\<rparr>)"

text \<open>What may happen after the script set up the image: \<open>onload\<close> with what drawing gives, or an exception.\<close>

datatype canvas_event = ImageLoaded "js_string option" | ImageFailed | FiveSeconds

fun canvas_step :: "canvas_event \<Rightarrow> canvas_shot \<Rightarrow> canvas_shot" where
  "canvas_step (ImageLoaded (Some url)) s = finish url s"
| "canvas_step (ImageLoaded None) s = finish [] s"
| "canvas_step ImageFailed s = finish [] s"
| "canvas_step FiveSeconds s = finish [] s"

text \<open>The setting up itself; an exception in it ends the script at once.\<close>

definition canvas_start :: "bool \<Rightarrow> canvas_shot" where
  "canvas_start ok =
     (let s = \<lparr>cs_finished = False, cs_resolved = []\<rparr> in if ok then s else finish [] s)"

interpretation canvas: one_shot "\<lambda>s. \<not> cs_finished s" cs_resolved canvas_step "\<lambda>_. True" "\<lambda>_. True" "\<lambda>_ _. True"
proof
  show "(cs_resolved (canvas_step e s) = cs_resolved s \<and> (\<not> cs_finished (canvas_step e s)) = (\<not> cs_finished s)) \<or>
      \<not> cs_finished s \<and> \<not> \<not> cs_finished (canvas_step e s) \<and> (\<exists>r. True \<and> cs_resolved (canvas_step e s) = cs_resolved s @ [r])"
    for e s by (cases "(e, s)" rule: canvas_step.cases) (auto simp: finish_def)
  show "\<not> \<not> cs_finished (canvas_step e s)" for e s
    by (cases "(e, s)" rule: canvas_step.cases) (auto simp: finish_def)
qed

lemma canvas_resolves_once:
  assumes "ok \<Longrightarrow> es \<noteq> []"
  shows "\<exists>v. cs_resolved (fold canvas_step es (canvas_start ok)) = [v]"
proof (cases ok)
  case True
  with assms obtain e rest where "es = [] @ e # rest" by (cases es) auto
  with canvas.ends_once [of "[]" e rest "canvas_start ok"] True show ?thesis
    by (simp add: canvas_start_def)
next
  case False
  with canvas.stays_ended [of es "canvas_start ok"] show ?thesis
    by (simp add: canvas_start_def finish_def)
qed

text \<open>The copy gets the computed styles of every element, after what its attribute said.\<close>

fun styled_copy :: "styled \<Rightarrow> styled" where
  "styled_copy (Styled b computed style cs) =
     (if b then Styled b computed (Some (style_text computed style)) (map styled_copy cs) else Styled b computed style cs)"

lemma inline_children_copy:
  "\<forall>t \<in> set ts. inlineStyles t t = styled_copy t \<Longrightarrow> inlineChildren ts ts = map styled_copy ts"
  by (induction ts) auto

lemma inline_copy: "inlineStyles t t = styled_copy t"
  by (induction t) (simp add: inline_children_copy)

subsection \<open>A page that logs\<close>

definition sample_calls :: "console_call list" where
  "sample_calls =
     [(1, ''log'', [ArgOther (Some (js ''a'')) None, ArgObject (Some (JsString (js ''{}''))) None]),
      (2, ''warn'', [ArgOther None None]), (3, ''error'', [])]"

definition fragment_navigation :: navigation_handle where
  "fragment_navigation =
     \<lparr>nh_is_in_primary_main_frame = True, nh_has_committed = True, nh_url = plain_gurl ''http://a/#b'',
      nh_is_error_page = False, nh_net_error_code = 0\<rparr>"

theorem console_keeps_the_last_messages_witness:
  "map_option (map ce_level) (win_logs (fold console_call sample_calls (InstallCapture fresh_console))) =
     Some [''log'', ''error''] \<and>
   length (win_output (fold console_call sample_calls (InstallCapture fresh_console))) = 3"
proof -
  have "\<forall>(now, level, args) \<in> set sample_calls. level \<in> set console_levels"
    by (simp add: sample_calls_def console_levels_def)
  moreover have "map ce_level (last_n max_logs (captured sample_calls)) = [''log'', ''error'']"
    by (simp add: sample_calls_def captured_def List.map_filter_def entry_of_def last_n_def max_logs_def)
  ultimately show ?thesis
    using console_keeps_the_last_messages [of sample_calls] by (simp add: sample_calls_def)
qed

theorem messages_are_duplicated_witness:
  "win_logs (fold page_event ([Navigates fragment_navigation, Logs (5, ''warn'', [])] @ [Navigates fragment_navigation] @
       map Logs [(7, ''log'', [])]) fresh_console) =
     Some (replicate 2 \<lparr>ce_level = ''log'', ce_text = [], ce_timestamp = 7\<rparr>)"
proof -
  have "\<forall>e \<in> set ([Navigates fragment_navigation, Logs (5, ''warn'', [])] @ [Navigates fragment_navigation] @
      map Logs [(7, ''log'', [])]). usual_event e"
    by (simp add: fragment_navigation_def console_levels_def)
  from messages_are_duplicated [OF this] show ?thesis
    by (simp add: captured_def List.map_filter_def entry_of_def last_n_def max_logs_def numeral_2_eq_2)
qed

end
