(* ===== verification/Embedders.thy ===== *)
theory Embedders
  imports Embed
begin

section \<open>Two embedders (\<open>embed/browserd_embed_lifecycle_smoke.cc\<close>, \<open>embed/browserd_embed_smoke.cc\<close>)\<close>

text \<open>
  The repository has two programs that embed the browser through the C interface. Each is a chain of
  callbacks: a callback gets the answer of one call and makes the next one, or shuts the session
  down. Here they run against the model of the interface: a call that was posted reaches the
  controller, the controller answers it with any answer that fits, and the answer runs the callback,
  in the browser's sequence. A callback is known by a number.
\<close>

subsection \<open>An embedder and the browser\<close>

text \<open>\<open>ho_asked\<close> are the calls that reached the controller and were not answered.\<close>

record ('u, 'c) host =
  ho_client :: 'u
  ho_embed :: "'c embed"
  ho_asked :: "scheduled list"

type_synonym ('u, 'c) callbacks = "nat \<Rightarrow> reply \<Rightarrow> 'u \<Rightarrow> 'c embed \<Rightarrow> 'u \<times> 'c embed"

definition host_posted :: "('u, 'c) host \<Rightarrow> ('u, 'c) host" where
  "host_posted h =
     (let em = run_posted (ho_embed h)
      in h\<lparr>ho_embed := em, ho_asked := ho_asked h @ drop (length (em_started (ho_embed h))) (em_started em)\<rparr>)"

definition host_answer :: "('u, 'c) callbacks \<Rightarrow> nat \<Rightarrow> reply \<Rightarrow> ('u, 'c) host \<Rightarrow> ('u, 'c) host" where
  "host_answer handler i r h =
     (let (u, em) = handler (fst (ho_asked h ! i)) r (ho_client h) (ho_embed h)
      in \<lparr>ho_client = u, ho_embed = em, ho_asked = take i (ho_asked h) @ drop (Suc i) (ho_asked h)\<rparr>)"

inductive host_step :: "('u, 'c) callbacks \<Rightarrow> ('u, 'c) host \<Rightarrow> ('u, 'c) host \<Rightarrow> bool" for handler where
  posted: "em_posted (ho_embed h) \<noteq> [] \<Longrightarrow> host_step handler h (host_posted h)"
| answer: "i < length (ho_asked h) \<Longrightarrow> reply_kind r = call_kind (snd (ho_asked h ! i)) \<Longrightarrow> reply_wf r \<Longrightarrow>
    host_step handler h (host_answer handler i r h)"

subsection \<open>One call at a time\<close>

text \<open>
  What the two have in common, as an interface: in the client state \<open>u\<close> the answer to the call
  \<open>t\<close> is awaited, and its callback either makes exactly one further call, of a smaller rank, or shuts
  the session down.
\<close>

definition session_open :: "'c embed \<Rightarrow> bool" where
  "session_open em \<longleftrightarrow>
     (\<exists>ses c. em_session em = Some ses \<and> \<not> ses_shutting_down ses \<and> ses_controller ses = Some c \<and> ses_runner ses)"

definition session_closed :: "'c embed \<Rightarrow> bool" where
  "session_closed em \<longleftrightarrow> (case em_session em of None \<Rightarrow> True | Some ses \<Rightarrow> ses_shutting_down ses \<and> ses_controller ses = None)"

locale embedder =
  fixes handler :: "('u, 'c) callbacks"
    and awaits :: "'u \<Rightarrow> scheduled \<Rightarrow> bool"
    and rank :: "'u \<Rightarrow> scheduled \<Rightarrow> nat"
  assumes one_call: "awaits u t \<Longrightarrow> reply_kind r = call_kind (snd t) \<Longrightarrow> reply_wf r \<Longrightarrow>
      handler (fst t) r u em = (u', em') \<Longrightarrow> session_open em \<Longrightarrow>
      (\<exists>t'. Schedule True t' em = (kScheduleOk, em') \<and> awaits u' t' \<and> rank u' t' < rank u t) \<or>
      em' = browserd_shutdown True True em"
    and rank_positive: "awaits u t \<Longrightarrow> 0 < rank u t"
begin

definition waiting_posted :: "('u, 'c) host \<Rightarrow> scheduled \<Rightarrow> bool" where
  "waiting_posted h t \<longleftrightarrow> session_open (ho_embed h) \<and> ho_asked h = [] \<and> awaits (ho_client h) t \<and>
     (\<exists>ses c. em_session (ho_embed h) = Some ses \<and> ses_controller ses = Some c \<and> em_posted (ho_embed h) = [PostedTask c t])"

definition waiting_answer :: "('u, 'c) host \<Rightarrow> scheduled \<Rightarrow> bool" where
  "waiting_answer h t \<longleftrightarrow> session_open (ho_embed h) \<and> ho_asked h = [t] \<and> em_posted (ho_embed h) = [] \<and> awaits (ho_client h) t"

definition over :: "('u, 'c) host \<Rightarrow> bool" where
  "over h \<longleftrightarrow> session_closed (ho_embed h) \<and> ho_asked h = [] \<and> em_posted (ho_embed h) = []"

definition in_order :: "nat \<Rightarrow> ('u, 'c) host \<Rightarrow> bool" where
  "in_order n h \<longleftrightarrow>
     (\<exists>t. waiting_posted h t \<and> 2 * rank (ho_client h) t \<le> n) \<or>
     (\<exists>t. waiting_answer h t \<and> 2 * rank (ho_client h) t \<le> Suc n) \<or> over h"

lemma shutdown_closes:
  "session_open em \<Longrightarrow> session_closed (browserd_shutdown True True em) \<and>
     em_posted (browserd_shutdown True True em) = em_posted em"
  by (auto simp: session_open_def session_closed_def browserd_shutdown_def DestroySessionController_def)

lemma schedule_posts:
  assumes "Schedule True t em = (kScheduleOk, em')" "session_open em" "em_posted em = []"
  shows "session_open em' \<and> (\<exists>ses c. em_session em' = Some ses \<and> ses_controller ses = Some c \<and> em_posted em' = [PostedTask c t])"
  using assms by (auto simp: Schedule_def session_open_def split: if_splits)

lemma posted_starts:
  assumes "waiting_posted h t" shows "waiting_answer (host_posted h) t" "ho_client (host_posted h) = ho_client h"
  using assms by (auto simp: waiting_posted_def waiting_answer_def host_posted_def run_posted_def session_open_def Let_def)

lemma answer_moves:
  assumes "waiting_answer h t" "reply_kind r = call_kind (snd t)" "reply_wf r"
  shows "(\<exists>t'. waiting_posted (host_answer handler 0 r h) t' \<and>
      rank (ho_client (host_answer handler 0 r h)) t' < rank (ho_client h) t) \<or> over (host_answer handler 0 r h)"
proof -
  obtain u' em' where step: "handler (fst t) r (ho_client h) (ho_embed h) = (u', em')" by fastforce
  from assms(1) have h: "session_open (ho_embed h)" "ho_asked h = [t]" "em_posted (ho_embed h) = []" "awaits (ho_client h) t"
    by (auto simp: waiting_answer_def)
  have new: "host_answer handler 0 r h = \<lparr>ho_client = u', ho_embed = em', ho_asked = []\<rparr>"
    using step h(2) by (simp add: host_answer_def)
  from one_call [OF h(4) assms(2,3) step h(1)] show ?thesis
  proof
    assume "\<exists>t'. Schedule True t' (ho_embed h) = (kScheduleOk, em') \<and> awaits u' t' \<and> rank u' t' < rank (ho_client h) t"
    with schedule_posts [OF _ h(1,3)] show ?thesis by (fastforce simp: new waiting_posted_def)
  next
    assume "em' = browserd_shutdown True True (ho_embed h)"
    with shutdown_closes [OF h(1)] h(3) show ?thesis by (simp add: new over_def)
  qed
qed

lemma over_stays: "over h \<Longrightarrow> \<not> host_step handler h h'"
  by (auto simp: over_def elim!: host_step.cases)

lemma in_order_step:
  assumes "host_step handler h h'" "in_order n h" shows "0 < n \<and> in_order (n - 1) h'"
  using assms(2) [unfolded in_order_def]
proof (elim disjE exE conjE)
  fix t assume t: "waiting_posted h t" "2 * rank (ho_client h) t \<le> n"
  then have "0 < n" using rank_positive [of "ho_client h" t] by (simp add: waiting_posted_def)
  moreover from assms(1) t(1) have "h' = host_posted h"
    by (cases rule: host_step.cases) (simp_all add: waiting_posted_def)
  ultimately have "waiting_answer h' t \<and> 2 * rank (ho_client h') t \<le> Suc (n - 1)"
    using posted_starts [OF t(1)] t(2) by simp
  with \<open>0 < n\<close> show ?thesis unfolding in_order_def by blast
next
  fix t assume t: "waiting_answer h t" "2 * rank (ho_client h) t \<le> Suc n"
  then have "0 < n" using rank_positive [of "ho_client h" t] by (simp add: waiting_answer_def)
  moreover from assms(1) t(1) obtain r where r: "h' = host_answer handler 0 r h" "reply_kind r = call_kind (snd t)" "reply_wf r"
    by (cases rule: host_step.cases) (auto simp: waiting_answer_def)
  ultimately show ?thesis using answer_moves [OF t(1) r(2,3)] t(2) r(1) by (fastforce simp: in_order_def)
qed (use over_stays assms(1) in blast)

text \<open>So the run ends, and where nothing can happen any more the session is shut down.\<close>

lemma run_ends:
  "(host_step handler ^^ k) h h' \<Longrightarrow> in_order n h \<Longrightarrow> k \<le> n \<and> in_order (n - k) h'"
proof (induction k arbitrary: h')
  case (Suc k)
  then obtain g where g: "(host_step handler ^^ k) h g" "host_step handler g h'" by auto
  from Suc.IH [OF g(1) Suc.prems(2)] in_order_step [OF g(2), of "n - k"] show ?case by simp
qed simp

text \<open>What every step keeps, every run keeps.\<close>

lemma run_keeps:
  assumes "\<And>h c t. em_posted (ho_embed h) = [PostedTask c t] \<Longrightarrow> Q h \<Longrightarrow> Q (host_posted h)"
    and "\<And>h t r. waiting_answer h t \<Longrightarrow> Q h \<Longrightarrow> reply_kind r = call_kind (snd t) \<Longrightarrow> Q (host_answer handler 0 r h)"
  shows "(host_step handler ^^ k) h h' \<Longrightarrow> in_order n h \<Longrightarrow> Q h \<Longrightarrow> Q h'"
proof (induction k arbitrary: h')
  case (Suc k)
  then obtain g where g: "(host_step handler ^^ k) h g" "host_step handler g h'" by auto
  then have Q: "Q g" and order: "in_order (n - k) g" using Suc run_ends by auto
  from g(2) show ?case
  proof (cases rule: host_step.cases)
    case posted
    with order obtain c t where "em_posted (ho_embed g) = [PostedTask c t]"
      unfolding in_order_def waiting_posted_def waiting_answer_def over_def by auto
    with posted Q assms(1) show ?thesis by simp
  next
    case (answer i r)
    with order obtain t where "waiting_answer g t"
      unfolding in_order_def waiting_posted_def over_def by auto
    with answer Q assms(2) [of g t r] show ?thesis by (simp add: waiting_answer_def)
  qed
qed simp

lemma can_go_on:
  assumes "in_order n h" "\<not> over h" shows "\<exists>h'. host_step handler h h'"
proof -
  have "\<exists>r. reply_kind r = k \<and> reply_wf r" for k
  proof -
    let ?st = "\<lparr>c_code = BROWSERD_STATUS_TIMEOUT, c_message = [], c_message_len = 0\<rparr>"
    show ?thesis
      by (cases k; intro exI [of _ "case k of AsStatus \<Rightarrow> StatusReply ?st | AsString \<Rightarrow> StringReply ?st ([], 0)
          | AsBytes \<Rightarrow> BytesReply ?st ([], 0) | AsTab \<Rightarrow> TabReply ?st None | AsTabs \<Rightarrow> TabsReply ?st None 0
          | AsCookie \<Rightarrow> CookieReply ?st None | AsCookies \<Rightarrow> CookiesReply ?st None 0"])
        (simp_all add: viewed_def Embed_Calls.listed_def)
  qed
  then show ?thesis
    using assms unfolding in_order_def waiting_posted_def waiting_answer_def
    by (metis host_step.simps length_greater_0_conv list.distinct(1) nth_Cons_0)
qed

end

subsection \<open>The lifecycle embedder\<close>

definition kExampleUrl :: string where
  "kExampleUrl = ''https://example.com''"

definition kSecondUrl :: string where
  "kSecondUrl = ''data:text/html,<title>second</title><body>ok</body>''"

datatype Step =
    kInitialList | kCreateFirstTab | kNavigateFirstTab | kEvaluateFirstTab | kCloseFirstTab
  | kListAfterClose | kCreateSecondTab | kNavigateSecondTab | kEvaluateSecondTab

record LifecycleState =
  lc_failed :: bool
  lc_completed :: bool
  lc_step :: Step
  lc_first_target_id :: string
  lc_second_target_id :: string

definition new_lifecycle :: LifecycleState where
  "new_lifecycle =
     \<lparr>lc_failed = False, lc_completed = False, lc_step = kInitialList, lc_first_target_id = [], lc_second_target_id = []\<rparr>"

text \<open>The callbacks, as function pointers.\<close>

definition OnTabs_fn :: nat where "OnTabs_fn = 0"
definition OnTab_fn :: nat where "OnTab_fn = 1"
definition OnStatus_fn :: nat where "OnStatus_fn = 2"
definition OnEvaluate_fn :: nat where "OnEvaluate_fn = 3"

lemmas lifecycle_fns = OnTabs_fn_def OnTab_fn_def OnStatus_fn_def OnEvaluate_fn_def

definition IsOk :: "browserd_status \<Rightarrow> bool" where
  "IsOk status \<longleftrightarrow> c_code status = BROWSERD_STATUS_OK"

definition StringView :: "view \<Rightarrow> string" where
  "StringView value = take (snd value) (fst value)"

definition TargetId :: "browserd_tab_info option \<Rightarrow> string" where
  "TargetId tab = (case tab of Some t \<Rightarrow> StringView (ti_target_id t) | None \<Rightarrow> [])"

text \<open>The callbacks run in the browser's sequence.\<close>

definition Fail :: "bool \<Rightarrow> LifecycleState \<Rightarrow> 'c embed \<Rightarrow> LifecycleState \<times> 'c embed" where
  "Fail session st em = (st\<lparr>lc_failed := True\<rparr>, if session then browserd_shutdown True True em else em)"

definition or_fail :: "LifecycleState \<Rightarrow> 'c embed \<Rightarrow> int \<times> 'c embed \<Rightarrow> LifecycleState \<times> 'c embed" where
  "or_fail st em called = (if fst called \<noteq> 0 then Fail True st (snd called) else (st, snd called))"

definition OnReady :: "bool \<Rightarrow> browserd_status \<Rightarrow> LifecycleState \<Rightarrow> 'c embed \<Rightarrow> LifecycleState \<times> 'c embed" where
  "OnReady session status st em =
     (if \<not> IsOk status \<or> \<not> session then Fail session st em
      else or_fail (st\<lparr>lc_step := kInitialList\<rparr>) em (browserd_tab_list session (Some OnTabs_fn) em))"

definition OnTabs :: "browserd_status \<Rightarrow> nat \<Rightarrow> LifecycleState \<Rightarrow> 'c embed \<Rightarrow> LifecycleState \<times> 'c embed" where
  "OnTabs status tabs_len st em =
     (if \<not> IsOk status then Fail True st em
      else
        case lc_step st of
          kInitialList \<Rightarrow>
            if tabs_len \<noteq> 0 then Fail True st em
            else or_fail (st\<lparr>lc_step := kCreateFirstTab\<rparr>) em (browserd_tab_new True (Some kExampleUrl) (Some OnTab_fn) em)
        | kListAfterClose \<Rightarrow>
            if tabs_len \<noteq> 0 then Fail True st em
            else or_fail (st\<lparr>lc_step := kCreateSecondTab\<rparr>) em (browserd_tab_new True (Some kSecondUrl) (Some OnTab_fn) em)
        | _ \<Rightarrow> Fail True st em)"

definition OnTab :: "browserd_status \<Rightarrow> browserd_tab_info option \<Rightarrow> LifecycleState \<Rightarrow> 'c embed \<Rightarrow> LifecycleState \<times> 'c embed" where
  "OnTab status tab st em =
     (if \<not> IsOk status \<or> tab = None then Fail True st em
      else
        case lc_step st of
          kCreateFirstTab \<Rightarrow>
            or_fail (st\<lparr>lc_first_target_id := TargetId tab, lc_step := kNavigateFirstTab\<rparr>) em
              (browserd_navigate True (Some (TargetId tab)) (Some kExampleUrl) (Some OnStatus_fn) em)
        | kCreateSecondTab \<Rightarrow>
            or_fail (st\<lparr>lc_second_target_id := TargetId tab, lc_step := kNavigateSecondTab\<rparr>) em
              (browserd_navigate True (Some (TargetId tab)) (Some kSecondUrl) (Some OnStatus_fn) em)
        | _ \<Rightarrow> Fail True st em)"

definition OnStatus :: "browserd_status \<Rightarrow> LifecycleState \<Rightarrow> 'c embed \<Rightarrow> LifecycleState \<times> 'c embed" where
  "OnStatus status st em =
     (if \<not> IsOk status then Fail True st em
      else
        case lc_step st of
          kNavigateFirstTab \<Rightarrow>
            or_fail (st\<lparr>lc_step := kEvaluateFirstTab\<rparr>) em
              (browserd_evaluate True (Some (lc_first_target_id st)) (Some ''document.title'') (Some OnEvaluate_fn) em)
        | kCloseFirstTab \<Rightarrow>
            or_fail (st\<lparr>lc_step := kListAfterClose\<rparr>) em (browserd_tab_list True (Some OnTabs_fn) em)
        | kNavigateSecondTab \<Rightarrow>
            or_fail (st\<lparr>lc_step := kEvaluateSecondTab\<rparr>) em
              (browserd_evaluate True (Some (lc_second_target_id st)) (Some ''document.title'') (Some OnEvaluate_fn) em)
        | _ \<Rightarrow> Fail True st em)"

definition OnEvaluate :: "browserd_status \<Rightarrow> view \<Rightarrow> LifecycleState \<Rightarrow> 'c embed \<Rightarrow> LifecycleState \<times> 'c embed" where
  "OnEvaluate status value st em =
     (if \<not> IsOk status then Fail True st em
      else
        let result = StringView value
        in case lc_step st of
             kEvaluateFirstTab \<Rightarrow>
               if \<not> std_contains ''Example'' result then Fail True st em
               else or_fail (st\<lparr>lc_step := kCloseFirstTab\<rparr>) em
                 (browserd_tab_close True (Some (lc_first_target_id st)) (Some OnStatus_fn) em)
           | kEvaluateSecondTab \<Rightarrow>
               if \<not> std_contains ''second'' result then Fail True st em
               else (st\<lparr>lc_completed := True\<rparr>, browserd_shutdown True True em)
           | _ \<Rightarrow> Fail True st em)"

text \<open>The function that a callback's number stands for; the kind of the answer fits its type.\<close>

definition lifecycle_callbacks :: "(LifecycleState, 'c) callbacks" where
  "lifecycle_callbacks f r st em =
     (case r of
        TabsReply status tabs n \<Rightarrow> OnTabs status n st em
      | TabReply status tab \<Rightarrow> OnTab status tab st em
      | StatusReply status \<Rightarrow> OnStatus status st em
      | StringReply status value \<Rightarrow> OnEvaluate status value st em
      | _ \<Rightarrow> (st, em))"

text \<open>A second run must not get ready.\<close>

definition OnUnexpectedReady :: "bool \<Rightarrow> 'c embed \<Rightarrow> bool \<times> 'c embed" where
  "OnUnexpectedReady session em = (True, if session then browserd_shutdown True True em else em)"

definition gui_switches :: "browserd_switch list" where
  "gui_switches =
     [\<lparr>sw_size = struct_size switch_fields, sw_name = Some ''disable-features'',
       sw_value = Some ''FallbackToSWIfGLES3NotSupported'', sw_scope = kSwitchScopeBrowser OR kSwitchScopeGpuChild\<rparr>]"

definition lifecycle_config :: browserd_config where
  "lifecycle_config =
     \<lparr>cfg_size = struct_size config_fields, cfg_gui = True, cfg_user_data_dir = None,
      cfg_switches = Some gui_switches, cfg_start_empty = True, cfg_idle_on_zero_tabs = True\<rparr>"

text \<open>What the program returns, from the two runs of the browser and what its callbacks noted.\<close>

definition lifecycle_exit_code :: "int \<Rightarrow> LifecycleState \<Rightarrow> int \<Rightarrow> bool \<Rightarrow> int" where
  "lifecycle_exit_code exit_code st second_exit_code unexpected_ready =
     (if exit_code \<noteq> 0 \<or> lc_failed st \<or> \<not> lc_completed st then 1
      else if second_exit_code = 0 \<or> unexpected_ready then 1
      else 0)"

text \<open>
  The end of \<open>main\<close>, after the first run of the browser returned \<open>exit_code\<close>: it runs the browser once more. \<open>again\<close>
  and \<open>second_exit\<close> are what a second browser would do if it were started: whether it gets ready, with a session or
  without one, and what it returns.
\<close>

definition lifecycle_main ::
  "'c cl_ops \<Rightarrow> switch_names \<Rightarrow> base_lib \<Rightarrow> int \<Rightarrow> bool option \<Rightarrow> int \<Rightarrow> (LifecycleState, 'c) host \<Rightarrow> int" where
  "lifecycle_main C N L exit_code again second_exit h =
     (let (second_exit_code, unexpected_ready) =
        (case browserd_run C N L (Some lifecycle_config) True (browserd_run_ends (ho_embed h)) of
           (Some rejected, em) \<Rightarrow> (rejected, False)
         | (None, em) \<Rightarrow>
             (second_exit, case again of None \<Rightarrow> False | Some session \<Rightarrow> fst (OnUnexpectedReady session em)))
      in lifecycle_exit_code exit_code (ho_client h) second_exit_code unexpected_ready)"

subsection \<open>Its calls\<close>

fun step_number :: "Step \<Rightarrow> nat" where
  "step_number kInitialList = 0"
| "step_number kCreateFirstTab = 1"
| "step_number kNavigateFirstTab = 2"
| "step_number kEvaluateFirstTab = 3"
| "step_number kCloseFirstTab = 4"
| "step_number kListAfterClose = 5"
| "step_number kCreateSecondTab = 6"
| "step_number kNavigateSecondTab = 7"
| "step_number kEvaluateSecondTab = 8"

text \<open>The nine calls, in order, given the target ids that the browser handed out.\<close>

definition lifecycle_script :: "string \<Rightarrow> string \<Rightarrow> scheduled list" where
  "lifecycle_script first second =
     [(OnTabs_fn, CallTabList), (OnTab_fn, CallTabNew kExampleUrl),
      (OnStatus_fn, CallNavigate (OptionalString (Some first)) kExampleUrl),
      (OnEvaluate_fn, CallEvaluate (OptionalString (Some first)) ''document.title''),
      (OnStatus_fn, CallTabClose (OptionalString (Some first))),
      (OnTabs_fn, CallTabList), (OnTab_fn, CallTabNew kSecondUrl),
      (OnStatus_fn, CallNavigate (OptionalString (Some second)) kSecondUrl),
      (OnEvaluate_fn, CallEvaluate (OptionalString (Some second)) ''document.title'')]"

definition script_of :: "LifecycleState \<Rightarrow> scheduled list" where
  "script_of st = lifecycle_script (lc_first_target_id st) (lc_second_target_id st)"

definition lifecycle_awaits :: "LifecycleState \<Rightarrow> scheduled \<Rightarrow> bool" where
  "lifecycle_awaits st t \<longleftrightarrow> t = script_of st ! step_number (lc_step st) \<and> \<not> lc_failed st \<and> \<not> lc_completed st"

definition lifecycle_rank :: "LifecycleState \<Rightarrow> scheduled \<Rightarrow> nat" where
  "lifecycle_rank st t = 9 - step_number (lc_step st)"

lemma entry_schedules:
  "browserd_tab_list p (Some f) em = Schedule p (f, CallTabList) em"
  "browserd_tab_new p (Some u) (Some f) em = Schedule p (f, CallTabNew u) em"
  "browserd_navigate p i (Some u) (Some f) em = Schedule p (f, CallNavigate (OptionalString i) u) em"
  "browserd_evaluate p i (Some e) (Some f) em = Schedule p (f, CallEvaluate (OptionalString i) e) em"
  "browserd_tab_close p i (Some f) em = Schedule p (f, CallTabClose (OptionalString i)) em"
  "browserd_snapshot p i (Some f) em = Schedule p (f, CallSnapshot (OptionalString i)) em"
  "browserd_screenshot p i (Some f) em = Schedule p (f, CallScreenshot (OptionalString i)) em"
  by (simp_all add: entry_defs)

text \<open>How a callback of the lifecycle ends: with a failure, with the next call, or with success.\<close>

definition lifecycle_next :: "LifecycleState \<Rightarrow> 'c embed \<Rightarrow> LifecycleState \<Rightarrow> 'c embed \<Rightarrow> bool" where
  "lifecycle_next st em st' em' \<longleftrightarrow>
     (lc_failed st' \<and> \<not> lc_completed st' \<and> em' = browserd_shutdown True True em) \<or>
     (\<exists>t. Schedule True t em = (kScheduleOk, em') \<and> lifecycle_awaits st' t \<and>
        step_number (lc_step st') = Suc (step_number (lc_step st)) \<and>
        take (Suc (step_number (lc_step st))) (script_of st') = take (Suc (step_number (lc_step st))) (script_of st)) \<or>
     (st' = st\<lparr>lc_completed := True\<rparr> \<and> lc_step st = kEvaluateSecondTab \<and> em' = browserd_shutdown True True em)"

lemma next_fail: "\<not> lc_completed st1 \<Longrightarrow> lifecycle_next st em (fst (Fail True st1 em)) (snd (Fail True st1 em))"
  by (simp add: lifecycle_next_def Fail_def)

lemma next_call:
  assumes "lifecycle_awaits st1 t" "step_number (lc_step st1) = Suc (step_number (lc_step st))"
    and "take (Suc (step_number (lc_step st))) (script_of st1) = take (Suc (step_number (lc_step st))) (script_of st)"
  shows "lifecycle_next st em (fst (or_fail st1 em (Schedule True t em))) (snd (or_fail st1 em (Schedule True t em)))"
proof (cases True t em rule: Schedule_cases)
  case 1
  with next_fail [of st1 st em] assms(1) show ?thesis
    by (simp add: or_fail_def kScheduleRejected_def lifecycle_awaits_def)
next
  case (2 ses c)
  then have "or_fail st1 em (Schedule True t em) = (st1, snd (Schedule True t em))"
    by (simp add: or_fail_def kScheduleOk_def)
  with 2 assms show ?thesis
    unfolding lifecycle_next_def by (intro disjI2 disjI1 exI [of _ t]) simp
qed

lemmas lifecycle_defs = OnTabs_def OnTab_def OnStatus_def OnEvaluate_def lifecycle_callbacks_def entry_schedules

lemma lifecycle_acts:
  assumes "lifecycle_awaits st t" and "reply_kind r = call_kind (snd t)"
  shows "lifecycle_next st em (fst (lifecycle_callbacks f r st em)) (snd (lifecycle_callbacks f r st em))"
proof -
  from assms(1) have st: "\<not> lc_failed st" "\<not> lc_completed st" by (simp_all add: lifecycle_awaits_def)
  note fits = assms(2) assms(1) [unfolded lifecycle_awaits_def script_of_def lifecycle_script_def]
  note steps = next_call lifecycle_awaits_def script_of_def lifecycle_script_def
  show ?thesis
  proof (cases "lc_step st")
    case kInitialList
    with fits obtain status tabs n where "r = TabsReply status tabs n" by (cases r) (simp_all add: call_kind_def)
    with kInitialList st show ?thesis by (auto simp: lifecycle_defs next_fail intro!: next_call simp: steps)
  next
    case kCreateFirstTab
    with fits obtain status tab where "r = TabReply status tab" by (cases r) (simp_all add: call_kind_def)
    with kCreateFirstTab st show ?thesis by (auto simp: lifecycle_defs next_fail intro!: next_call simp: steps)
  next
    case kNavigateFirstTab
    with fits obtain status where "r = StatusReply status" by (cases r) (simp_all add: call_kind_def)
    with kNavigateFirstTab st show ?thesis by (auto simp: lifecycle_defs next_fail intro!: next_call simp: steps)
  next
    case kEvaluateFirstTab
    with fits obtain status v where "r = StringReply status v" by (cases r) (simp_all add: call_kind_def)
    with kEvaluateFirstTab st show ?thesis by (auto simp: lifecycle_defs next_fail Let_def intro!: next_call simp: steps)
  next
    case kCloseFirstTab
    with fits obtain status where "r = StatusReply status" by (cases r) (simp_all add: call_kind_def)
    with kCloseFirstTab st show ?thesis by (auto simp: lifecycle_defs next_fail intro!: next_call simp: steps)
  next
    case kListAfterClose
    with fits obtain status tabs n where "r = TabsReply status tabs n" by (cases r) (simp_all add: call_kind_def)
    with kListAfterClose st show ?thesis by (auto simp: lifecycle_defs next_fail intro!: next_call simp: steps)
  next
    case kCreateSecondTab
    with fits obtain status tab where "r = TabReply status tab" by (cases r) (simp_all add: call_kind_def)
    with kCreateSecondTab st show ?thesis by (auto simp: lifecycle_defs next_fail intro!: next_call simp: steps)
  next
    case kNavigateSecondTab
    with fits obtain status where "r = StatusReply status" by (cases r) (simp_all add: call_kind_def)
    with kNavigateSecondTab st show ?thesis by (auto simp: lifecycle_defs next_fail intro!: next_call simp: steps)
  next
    case kEvaluateSecondTab
    with fits obtain status v where "r = StringReply status v" by (cases r) (simp_all add: call_kind_def)
    with kEvaluateSecondTab st show ?thesis by (auto simp: lifecycle_defs next_fail Let_def lifecycle_next_def Fail_def)
  qed
qed

lemma step_number_bound: "step_number s < 9"
  by (cases s) simp_all

interpretation lifecycle: embedder lifecycle_callbacks lifecycle_awaits lifecycle_rank
proof
  fix u t r em u' em'
  assume "lifecycle_awaits u t" "reply_kind r = call_kind (snd t)" "lifecycle_callbacks (fst t) r u em = (u', em')"
  with lifecycle_acts [of u t r em "fst t"] have "lifecycle_next u em u' em'" by simp
  then show "(\<exists>t'. Schedule True t' em = (kScheduleOk, em') \<and> lifecycle_awaits u' t' \<and> lifecycle_rank u' t' < lifecycle_rank u t) \<or>
      em' = browserd_shutdown True True em"
    unfolding lifecycle_next_def
  proof (elim disjE exE conjE)
    fix t' assume "Schedule True t' em = (kScheduleOk, em')" "lifecycle_awaits u' t'"
      "step_number (lc_step u') = Suc (step_number (lc_step u))"
    with step_number_bound [of "lc_step u'"] show ?thesis
      by (intro disjI1 exI [of _ t']) (simp add: lifecycle_rank_def)
  qed simp_all
next
  show "0 < lifecycle_rank u t" if "lifecycle_awaits u t" for u t
    using step_number_bound [of "lc_step u"] by (simp add: lifecycle_rank_def)
qed

text \<open>The start: the browser is ready and calls back with its session.\<close>

definition lifecycle_host :: "nat \<Rightarrow> 'c embed \<Rightarrow> (LifecycleState, 'c) host" where
  "lifecycle_host controller em =
     (let (st, em') = OnReady True (ToCStatus StatusOk) new_lifecycle (NotifyReady controller True em)
      in \<lparr>ho_client = st, ho_embed = em', ho_asked = []\<rparr>)"

definition fresh_run :: "'c embed \<Rightarrow> bool" where
  "fresh_run em \<longleftrightarrow> em_lifecycle em = kRunning \<and> em_posted em = [] \<and> em_accepted em = []"

definition lifecycle_ok :: "(LifecycleState, 'c) host \<Rightarrow> bool" where
  "lifecycle_ok h \<longleftrightarrow>
     (let st = ho_client h; em = ho_embed h
      in em_lifecycle em = kRunning \<and>
         (if lc_failed st then \<not> lc_completed st \<and> session_closed em
          else if lc_completed st then session_closed em \<and> em_accepted em = script_of st
          else session_open em \<and> em_accepted em = take (Suc (step_number (lc_step st))) (script_of st)))"

lemma length_script [simp]: "length (lifecycle_script a b) = 9" "length (script_of st) = 9"
  by (simp_all add: script_of_def lifecycle_script_def)

lemma lifecycle_start:
  assumes "fresh_run em"
  shows "lifecycle.in_order 18 (lifecycle_host c em)" "lifecycle_ok (lifecycle_host c em)"
proof -
  have ok: "IsOk (ToCStatus StatusOk)" by (simp add: IsOk_def StatusOk_def status_ok_def)
  have host: "lifecycle_host c em = \<lparr>ho_client = new_lifecycle,
      ho_embed = snd (Schedule True (OnTabs_fn, CallTabList) (NotifyReady c True em)), ho_asked = []\<rparr>"
    by (simp add: lifecycle_host_def OnReady_def ok entry_schedules or_fail_def Schedule_def NotifyReady_def
        kScheduleOk_def new_lifecycle_def)
  have "lifecycle.waiting_posted (lifecycle_host c em) (OnTabs_fn, CallTabList)"
    using assms
    by (simp add: host lifecycle.waiting_posted_def session_open_def Schedule_def NotifyReady_def fresh_run_def
        lifecycle_awaits_def new_lifecycle_def script_of_def lifecycle_script_def)
  moreover have "2 * lifecycle_rank (ho_client (lifecycle_host c em)) (OnTabs_fn, CallTabList) \<le> 18"
    by (simp add: lifecycle_rank_def)
  ultimately show "lifecycle.in_order 18 (lifecycle_host c em)" unfolding lifecycle.in_order_def by blast
  show "lifecycle_ok (lifecycle_host c em)"
    using assms
    by (simp add: host lifecycle_ok_def session_open_def Schedule_def NotifyReady_def fresh_run_def
        new_lifecycle_def script_of_def lifecycle_script_def)
qed

lemma posted_keeps:
  assumes "em_posted em = [PostedTask c t]"
  shows "em_session (run_posted em) = em_session em" "em_lifecycle (run_posted em) = em_lifecycle em"
    "em_accepted (run_posted em) = em_accepted em"
    "session_open (run_posted em) = session_open em" "session_closed (run_posted em) = session_closed em"
  using assms by (auto simp: run_posted_def session_open_def session_closed_def split: option.split)

lemma shutdown_keeps:
  "em_lifecycle (browserd_shutdown p q em) = em_lifecycle em" "em_accepted (browserd_shutdown p q em) = em_accepted em"
  by (simp_all add: browserd_shutdown_def DestroySessionController_def Let_def split: option.split)

lemma lifecycle_ok_answer:
  assumes "lifecycle.waiting_answer h t" "lifecycle_ok h" "reply_kind r = call_kind (snd t)"
  shows "lifecycle_ok (host_answer lifecycle_callbacks 0 r h)"
proof -
  obtain st' em' where step: "lifecycle_callbacks (fst t) r (ho_client h) (ho_embed h) = (st', em')" by fastforce
  from assms(1) have h: "session_open (ho_embed h)" "ho_asked h = [t]" "lifecycle_awaits (ho_client h) t"
    by (auto simp: lifecycle.waiting_answer_def)
  have new: "host_answer lifecycle_callbacks 0 r h = \<lparr>ho_client = st', ho_embed = em', ho_asked = []\<rparr>"
    using step h(2) by (simp add: host_answer_def)
  have before: "em_lifecycle (ho_embed h) = kRunning" "\<not> lc_failed (ho_client h)" "\<not> lc_completed (ho_client h)"
    "em_accepted (ho_embed h) = take (Suc (step_number (lc_step (ho_client h)))) (script_of (ho_client h))"
    using assms(2) h(3) by (simp_all add: lifecycle_ok_def lifecycle_awaits_def Let_def)
  have closes: "session_closed (browserd_shutdown True True (ho_embed h))"
    using lifecycle.shutdown_closes [OF h(1)] by simp
  have "lifecycle_next (ho_client h) (ho_embed h) st' em'"
    using lifecycle_acts [OF h(3) assms(3), of "ho_embed h" "fst t"] step by simp
  then show ?thesis unfolding lifecycle_next_def
  proof (elim disjE exE conjE)
    fix t' assume call: "Schedule True t' (ho_embed h) = (kScheduleOk, em')" "lifecycle_awaits st' t'"
      "step_number (lc_step st') = Suc (step_number (lc_step (ho_client h)))"
      "take (Suc (step_number (lc_step (ho_client h)))) (script_of st') =
       take (Suc (step_number (lc_step (ho_client h)))) (script_of (ho_client h))"
    then have "em_accepted em' = em_accepted (ho_embed h) @ [t'] \<and> em_lifecycle em' = em_lifecycle (ho_embed h) \<and>
        session_open em'"
      using h(1) by (cases True t' "ho_embed h" rule: Schedule_cases)
        (auto simp: session_open_def kScheduleOk_def kScheduleRejected_def)
    moreover have "take (Suc (step_number (lc_step st'))) (script_of st') =
        take (step_number (lc_step st')) (script_of st') @ [t']"
      using call(2) step_number_bound [of "lc_step st'"] by (simp add: take_Suc_conv_app_nth lifecycle_awaits_def)
    ultimately show ?thesis using call(2-4) before by (simp add: new lifecycle_ok_def lifecycle_awaits_def)
  qed (use before closes in \<open>simp_all add: new lifecycle_ok_def shutdown_keeps script_of_def\<close>)
qed

lemma lifecycle_ok_posted:
  "em_posted (ho_embed h) = [PostedTask c t] \<Longrightarrow> lifecycle_ok h \<Longrightarrow> lifecycle_ok (host_posted h)"
  by (simp add: host_posted_def lifecycle_ok_def Let_def posted_keeps)

lemma lifecycle_run:
  assumes "(host_step lifecycle_callbacks ^^ k) (lifecycle_host c em) h" "fresh_run em"
  shows "k \<le> 18 \<and> lifecycle.in_order (18 - k) h \<and> lifecycle_ok h"
proof -
  note start = lifecycle_start [OF assms(2), of c]
  have "lifecycle_ok h"
  proof (rule lifecycle.run_keeps [where Q = lifecycle_ok, OF _ _ assms(1) start(1) start(2)])
  qed (fact lifecycle_ok_posted, fact lifecycle_ok_answer)
  with lifecycle.run_ends [OF assms(1) start(1)] show ?thesis by blast
qed

text \<open>
  C15: the lifecycle embedder always comes to an end: whatever the browser answers to its calls, after
  at most eighteen steps (nine calls posted and nine answered) nothing is left to do, and when
  nothing is left to do it has shut the session down, having either completed or failed.
\<close>

theorem lifecycle_embedder_ends:
  assumes "fresh_run em" and "(host_step lifecycle_callbacks ^^ k) (lifecycle_host c em) h"
  shows "k \<le> 18 \<and> ((\<nexists>h'. host_step lifecycle_callbacks h h') \<longrightarrow>
      session_closed (ho_embed h) \<and> (lc_completed (ho_client h) \<longleftrightarrow> \<not> lc_failed (ho_client h)))"
proof -
  note run = lifecycle_run [OF assms(2,1)]
  have "session_closed (ho_embed h)" if "\<nexists>h'. host_step lifecycle_callbacks h h'"
    using that run lifecycle.can_go_on by (fastforce simp: lifecycle.over_def)
  moreover have "lc_completed (ho_client h) \<longleftrightarrow> \<not> lc_failed (ho_client h)" if "session_closed (ho_embed h)"
    using that run by (auto simp: lifecycle_ok_def Let_def session_open_def session_closed_def split: if_splits)
  ultimately show ?thesis using run by blast
qed

lemma second_run_rejected:
  "em_lifecycle em = kRunning \<Longrightarrow>
     browserd_run C N L config ready (browserd_run_ends em) = (Some kScheduleRejected, browserd_run_ends em)"
  by (simp add: browserd_run_def TryBeginRun_def browserd_run_ends_def FinishRun_def Let_def)

lemma first_run_fresh:
  "browserd_run C N L config True (new_embed c env) = (rc, em) \<Longrightarrow> rc = None \<and> fresh_run em"
  by (erule browserd_run_cases) (simp_all add: new_embed_def fresh_run_def)

text \<open>
  C34: the program's verdict is sound. Its first run of the browser is accepted, and whatever happened in it, the
  second one is refused: so the program returns zero exactly when its first run returned zero and its
  callbacks completed, and that no matter what a second browser would have done. The callbacks complete only after
  all nine calls of the scenario were accepted, in order, with the target ids they were given.
\<close>

theorem lifecycle_verdict:
  assumes "(host_step lifecycle_callbacks ^^ k)
      (lifecycle_host ctl (snd (browserd_run C N L (Some lifecycle_config) True (new_embed c env)))) h"
  shows "fst (browserd_run C N L (Some lifecycle_config) True (new_embed c env)) = None \<and>
    fst (browserd_run C N L (Some lifecycle_config) True (browserd_run_ends (ho_embed h))) = Some kScheduleRejected \<and>
    (lifecycle_main C N L first again second h = 0 \<longleftrightarrow> first = 0 \<and> lc_completed (ho_client h)) \<and>
    (lc_completed (ho_client h) \<longrightarrow> em_accepted (ho_embed h) = script_of (ho_client h))"
proof -
  obtain rc em where run: "browserd_run C N L (Some lifecycle_config) True (new_embed c env) = (rc, em)" by fastforce
  note started = first_run_fresh [OF run]
  from assms have "(host_step lifecycle_callbacks ^^ k) (lifecycle_host ctl em) h" by (simp add: run)
  with started have ok: "lifecycle_ok h" using lifecycle_run by blast
  then have "em_lifecycle (ho_embed h) = kRunning" by (simp add: lifecycle_ok_def Let_def)
  note refused = second_run_rejected [OF this]
  have "lifecycle_main C N L first again second h = lifecycle_exit_code first (ho_client h) kScheduleRejected False"
    by (simp add: lifecycle_main_def refused)
  with ok run started refused show ?thesis
    by (auto simp: lifecycle_exit_code_def kScheduleRejected_def lifecycle_ok_def Let_def split: if_splits)
qed

subsection \<open>The smoke embedder\<close>

definition kMaxScreenshotAttempts :: nat where
  "kMaxScreenshotAttempts = 3"

record SmokeState =
  sm_failed :: bool
  sm_gui :: bool
  sm_checked_title :: bool
  sm_screenshot_attempts :: nat

definition new_smoke :: "bool \<Rightarrow> SmokeState" where
  "new_smoke gui = \<lparr>sm_failed = False, sm_gui = gui, sm_checked_title = False, sm_screenshot_attempts = 0\<rparr>"

definition Navigate_fn :: nat where "Navigate_fn = 0"
definition Evaluate_fn :: nat where "Evaluate_fn = 1"
definition Snapshot_fn :: nat where "Snapshot_fn = 2"
definition Screenshot_fn :: nat where "Screenshot_fn = 3"

definition Finish :: "SmokeState \<Rightarrow> bool \<Rightarrow> 'c embed \<Rightarrow> SmokeState \<times> 'c embed" where
  "Finish st ok em = (st\<lparr>sm_failed := (sm_failed st \<or> \<not> ok)\<rparr>, browserd_shutdown True True em)"

definition or_finish :: "SmokeState \<Rightarrow> int \<times> 'c embed \<Rightarrow> SmokeState \<times> 'c embed" where
  "or_finish st called = (if fst called \<noteq> 0 then Finish st False (snd called) else (st, snd called))"

definition webgl_renderer :: string where
  "webgl_renderer =
     ''(() => {'' @ ''  try {'' @ ''    const canvas = document.createElement('canvas');'' @
     ''    const gl = canvas.getContext('webgl') || '' @ ''canvas.getContext('experimental-webgl');'' @
     ''    if (!gl) return 'unavailable';'' @
     ''    const ext = gl.getExtension('WEBGL_debug_renderer_info');'' @
     ''    return ext ? gl.getParameter(ext.UNMASKED_RENDERER_WEBGL) : 'available';'' @
     ''  } catch (e) { return 'unavailable'; }'' @ ''})()''"

definition SmokeOnScreenshot :: "browserd_status \<Rightarrow> nat \<Rightarrow> SmokeState \<Rightarrow> 'c embed \<Rightarrow> SmokeState \<times> 'c embed" where
  "SmokeOnScreenshot status len st em =
     (if IsOk status \<and> len > 0 then Finish st True em
      else if sm_screenshot_attempts st < kMaxScreenshotAttempts then
        let st1 = st\<lparr>sm_screenshot_attempts := Suc (sm_screenshot_attempts st)\<rparr>;
            called = browserd_screenshot True None (Some Screenshot_fn) em
        in if fst called = 0 then (st1, snd called) else Finish st1 (IsOk status \<and> len > 0) (snd called)
      else Finish st (IsOk status \<and> len > 0) em)"

definition SmokeOnSnapshot :: "browserd_status \<Rightarrow> nat \<Rightarrow> SmokeState \<Rightarrow> 'c embed \<Rightarrow> SmokeState \<times> 'c embed" where
  "SmokeOnSnapshot status len st em =
     (if \<not> IsOk status \<or> len = 0 then Finish st False em
      else or_finish (st\<lparr>sm_screenshot_attempts := 1\<rparr>) (browserd_screenshot True None (Some Screenshot_fn) em))"

definition SmokeOnEvaluate :: "browserd_status \<Rightarrow> view \<Rightarrow> SmokeState \<Rightarrow> 'c embed \<Rightarrow> SmokeState \<times> 'c embed" where
  "SmokeOnEvaluate status value st em =
     (if \<not> IsOk status \<or> snd value = 0 then Finish st False em
      else if sm_gui st \<and> \<not> sm_checked_title st then
        let st1 = st\<lparr>sm_checked_title := True\<rparr>
        in if \<not> std_contains ''Example'' (StringView value) then Finish st1 False em
           else or_finish st1 (browserd_evaluate True None (Some webgl_renderer) (Some Evaluate_fn) em)
      else or_finish st (browserd_snapshot True None (Some Snapshot_fn) em))"

definition SmokeOnNavigate :: "browserd_status \<Rightarrow> SmokeState \<Rightarrow> 'c embed \<Rightarrow> SmokeState \<times> 'c embed" where
  "SmokeOnNavigate status st em =
     (if \<not> IsOk status then Finish st False em
      else or_finish st (browserd_evaluate True None (Some ''document.title'') (Some Evaluate_fn) em))"

definition smoke_url :: "bool \<Rightarrow> string" where
  "smoke_url gui =
     (if gui then ''https://example.com''
      else ''data:text/html,<html><head><title>browserd embed smoke</title></head>'' @
        ''<body><button id='ok'>ok</button><script>console.log('ready')</script>'' @ ''</body></html>'')"

definition SmokeOnReady :: "bool \<Rightarrow> browserd_status \<Rightarrow> SmokeState \<Rightarrow> 'c embed \<Rightarrow> SmokeState \<times> 'c embed" where
  "SmokeOnReady session status st em =
     (if \<not> IsOk status \<or> \<not> session then (st\<lparr>sm_failed := True\<rparr>, em)
      else or_finish st (browserd_navigate session None (Some (smoke_url (sm_gui st))) (Some Navigate_fn) em))"

text \<open>Here two callbacks have the same type, and the number tells them apart.\<close>

definition smoke_callbacks :: "(SmokeState, 'c) callbacks" where
  "smoke_callbacks f r st em =
     (case r of
        StatusReply status \<Rightarrow> SmokeOnNavigate status st em
      | StringReply status value \<Rightarrow>
          if f = Snapshot_fn then SmokeOnSnapshot status (snd value) st em else SmokeOnEvaluate status value st em
      | BytesReply status value \<Rightarrow> SmokeOnScreenshot status (snd value) st em
      | _ \<Rightarrow> (st, em))"

fun HasSwitch :: "string list \<Rightarrow> string \<Rightarrow> bool" where
  "HasSwitch [] name = False"
| "HasSwitch (program # args) name = (name \<in> set args)"

definition smoke_config :: "bool \<Rightarrow> browserd_config" where
  "smoke_config gui =
     \<lparr>cfg_size = struct_size config_fields, cfg_gui = gui, cfg_user_data_dir = None,
      cfg_switches = (if gui then Some gui_switches else None), cfg_start_empty = False, cfg_idle_on_zero_tabs = False\<rparr>"

definition smoke_exit_code :: "int \<Rightarrow> SmokeState \<Rightarrow> int" where
  "smoke_exit_code exit_code st = (if sm_failed st then 1 else exit_code)"

subsection \<open>Its calls\<close>

definition smoke_awaits :: "SmokeState \<Rightarrow> scheduled \<Rightarrow> bool" where
  "smoke_awaits st t \<longleftrightarrow>
     (t = (Navigate_fn, CallNavigate None (smoke_url (sm_gui st))) \<and> \<not> sm_checked_title st \<and> sm_screenshot_attempts st = 0) \<or>
     ((\<exists>e. t = (Evaluate_fn, CallEvaluate None e)) \<and> sm_screenshot_attempts st = 0) \<or>
     (t = (Snapshot_fn, CallSnapshot None) \<and> sm_screenshot_attempts st = 0) \<or>
     (t = (Screenshot_fn, CallScreenshot None) \<and> 0 < sm_screenshot_attempts st \<and>
        sm_screenshot_attempts st \<le> kMaxScreenshotAttempts)"

definition smoke_rank :: "SmokeState \<Rightarrow> scheduled \<Rightarrow> nat" where
  "smoke_rank st t =
     (case snd t of
        CallNavigate i u \<Rightarrow> 7
      | CallEvaluate i e \<Rightarrow> (if sm_gui st \<and> \<not> sm_checked_title st then 6 else 5)
      | CallSnapshot i \<Rightarrow> 4
      | _ \<Rightarrow> Suc kMaxScreenshotAttempts - sm_screenshot_attempts st)"

definition screenshots :: "scheduled list \<Rightarrow> nat" where
  "screenshots ts = length (filter (\<lambda>t. snd t = CallScreenshot None) ts)"

definition smoke_next :: "SmokeState \<Rightarrow> scheduled \<Rightarrow> 'c embed \<Rightarrow> SmokeState \<Rightarrow> 'c embed \<Rightarrow> bool" where
  "smoke_next st t em st' em' \<longleftrightarrow>
     em' = browserd_shutdown True True em \<or>
     (\<exists>t'. Schedule True t' em = (kScheduleOk, em') \<and> smoke_awaits st' t' \<and> smoke_rank st' t' < smoke_rank st t \<and>
        sm_screenshot_attempts st' = sm_screenshot_attempts st + (if snd t' = CallScreenshot None then 1 else 0))"

lemma smoke_finish: "smoke_next st t em (fst (Finish st1 ok em)) (snd (Finish st1 ok em))"
  by (simp add: smoke_next_def Finish_def)

lemma smoke_call:
  assumes "smoke_awaits st1 t1" "smoke_rank st1 t1 < smoke_rank st t"
    "sm_screenshot_attempts st1 = sm_screenshot_attempts st + (if snd t1 = CallScreenshot None then 1 else 0)"
  shows "smoke_next st t em (fst (or_finish st1 (Schedule True t1 em))) (snd (or_finish st1 (Schedule True t1 em)))"
    and "smoke_next st t em
      (fst (if fst (Schedule True t1 em) = 0 then (st1, snd (Schedule True t1 em)) else Finish st1 ok (snd (Schedule True t1 em))))
      (snd (if fst (Schedule True t1 em) = 0 then (st1, snd (Schedule True t1 em)) else Finish st1 ok (snd (Schedule True t1 em))))"
proof -
  have "smoke_next st t em (fst r) (snd r)"
    if "r = (if fst (Schedule True t1 em) = 0 then (st1, snd (Schedule True t1 em)) else Finish st1 ok' (snd (Schedule True t1 em)))"
    for r ok'
  proof (cases True t1 em rule: Schedule_cases)
    case 1
    with that smoke_finish [of st t em st1 ok'] show ?thesis by (simp add: kScheduleRejected_def)
  next
    case (2 ses c)
    with that have "r = (st1, snd (Schedule True t1 em))" by (simp add: kScheduleOk_def)
    with 2 assms show ?thesis unfolding smoke_next_def by (intro disjI2 exI [of _ t1]) simp
  qed
  note step = this [OF refl]
  show "smoke_next st t em (fst (or_finish st1 (Schedule True t1 em))) (snd (or_finish st1 (Schedule True t1 em)))"
    using step [of False] by (simp add: or_finish_def split: if_splits)
  show "smoke_next st t em
      (fst (if fst (Schedule True t1 em) = 0 then (st1, snd (Schedule True t1 em)) else Finish st1 ok (snd (Schedule True t1 em))))
      (snd (if fst (Schedule True t1 em) = 0 then (st1, snd (Schedule True t1 em)) else Finish st1 ok (snd (Schedule True t1 em))))"
    by (rule step)
qed

lemmas smoke_fns = Navigate_fn_def Evaluate_fn_def Snapshot_fn_def Screenshot_fn_def

lemmas smoke_steps = smoke_awaits_def smoke_rank_def OptionalString_def kMaxScreenshotAttempts_def

lemma smoke_acts:
  assumes "smoke_awaits st t" "reply_kind r = call_kind (snd t)"
  shows "smoke_next st t em (fst (smoke_callbacks (fst t) r st em)) (snd (smoke_callbacks (fst t) r st em))"
  using assms(1) unfolding smoke_awaits_def
proof (elim disjE conjE exE)
  assume t: "t = (Navigate_fn, CallNavigate None (smoke_url (sm_gui st)))" "\<not> sm_checked_title st" "sm_screenshot_attempts st = 0"
  with assms(2) obtain status where "r = StatusReply status" by (cases r) (simp_all add: call_kind_def)
  with t show ?thesis
    by (auto simp: smoke_callbacks_def SmokeOnNavigate_def smoke_finish entry_schedules smoke_steps intro!: smoke_call(1))
next
  fix e assume t: "t = (Evaluate_fn, CallEvaluate None e)" "sm_screenshot_attempts st = 0"
  with assms(2) obtain status v where "r = StringReply status v" by (cases r) (simp_all add: call_kind_def)
  with t show ?thesis
    by (auto simp: smoke_callbacks_def smoke_fns SmokeOnEvaluate_def smoke_finish entry_schedules smoke_steps Let_def
        intro!: smoke_call(1))
next
  assume t: "t = (Snapshot_fn, CallSnapshot None)" "sm_screenshot_attempts st = 0"
  with assms(2) obtain status v where "r = StringReply status v" by (cases r) (simp_all add: call_kind_def)
  with t show ?thesis
    by (auto simp: smoke_callbacks_def smoke_fns SmokeOnSnapshot_def smoke_finish entry_schedules smoke_steps
        intro!: smoke_call(1))
next
  assume t: "t = (Screenshot_fn, CallScreenshot None)" "0 < sm_screenshot_attempts st" "sm_screenshot_attempts st \<le> kMaxScreenshotAttempts"
  with assms(2) obtain status v where r: "r = BytesReply status v" by (cases r) (simp_all add: call_kind_def)
  let ?st1 = "st\<lparr>sm_screenshot_attempts := Suc (sm_screenshot_attempts st)\<rparr>"
  show ?thesis
  proof (cases "\<not> (IsOk status \<and> snd v > 0) \<and> sm_screenshot_attempts st < kMaxScreenshotAttempts")
    case True
    with t have "smoke_awaits ?st1 t" "smoke_rank ?st1 t < smoke_rank st t" by (auto simp: smoke_steps)
    moreover have "smoke_callbacks (fst t) r st em =
        (if fst (Schedule True t em) = 0 then (?st1, snd (Schedule True t em)) else Finish ?st1 False (snd (Schedule True t em)))"
      using True t r
      by (auto simp: smoke_callbacks_def SmokeOnScreenshot_def entry_schedules Let_def OptionalString_def)
    ultimately show ?thesis using smoke_call(2) [of ?st1 t st t em False] t(1) by simp
  next
    case False
    with t r show ?thesis by (auto simp: smoke_callbacks_def SmokeOnScreenshot_def smoke_finish)
  qed
qed

interpretation smoke: embedder smoke_callbacks smoke_awaits smoke_rank
proof
  fix u t r em u' em'
  assume "smoke_awaits u t" "reply_kind r = call_kind (snd t)" "smoke_callbacks (fst t) r u em = (u', em')"
  with smoke_acts [of u t r em] have "smoke_next u t em u' em'" by simp
  then show "(\<exists>t'. Schedule True t' em = (kScheduleOk, em') \<and> smoke_awaits u' t' \<and> smoke_rank u' t' < smoke_rank u t) \<or>
      em' = browserd_shutdown True True em"
    unfolding smoke_next_def by blast
next
  show "0 < smoke_rank u t" if "smoke_awaits u t" for u t
    using that by (auto simp: smoke_steps)
qed

definition smoke_host :: "bool \<Rightarrow> nat \<Rightarrow> 'c embed \<Rightarrow> (SmokeState, 'c) host" where
  "smoke_host gui controller em =
     (let (st, em') = SmokeOnReady True (ToCStatus StatusOk) (new_smoke gui) (NotifyReady controller True em)
      in \<lparr>ho_client = st, ho_embed = em', ho_asked = []\<rparr>)"

definition smoke_ok :: "(SmokeState, 'c) host \<Rightarrow> bool" where
  "smoke_ok h \<longleftrightarrow>
     (if session_open (ho_embed h)
      then screenshots (em_accepted (ho_embed h)) = sm_screenshot_attempts (ho_client h)
      else screenshots (em_accepted (ho_embed h)) \<le> kMaxScreenshotAttempts)"

lemma smoke_start:
  assumes "fresh_run em"
  shows "smoke.in_order 14 (smoke_host gui c em)" "smoke_ok (smoke_host gui c em)"
proof -
  let ?t = "(Navigate_fn, CallNavigate None (smoke_url gui))"
  have ok: "IsOk (ToCStatus StatusOk)" by (simp add: IsOk_def StatusOk_def status_ok_def)
  have host: "smoke_host gui c em = \<lparr>ho_client = new_smoke gui,
      ho_embed = snd (Schedule True ?t (NotifyReady c True em)), ho_asked = []\<rparr>"
    by (simp add: smoke_host_def SmokeOnReady_def ok entry_schedules or_finish_def Schedule_def NotifyReady_def
        kScheduleOk_def new_smoke_def OptionalString_def)
  have "smoke.waiting_posted (smoke_host gui c em) ?t"
    using assms
    by (simp add: host smoke.waiting_posted_def session_open_def Schedule_def NotifyReady_def fresh_run_def
        smoke_awaits_def new_smoke_def)
  moreover have "2 * smoke_rank (ho_client (smoke_host gui c em)) ?t \<le> 14" by (simp add: smoke_rank_def)
  ultimately show "smoke.in_order 14 (smoke_host gui c em)" unfolding smoke.in_order_def by blast
  show "smoke_ok (smoke_host gui c em)"
    using assms
    by (simp add: host smoke_ok_def session_open_def Schedule_def NotifyReady_def fresh_run_def new_smoke_def screenshots_def)
qed

lemma smoke_ok_posted:
  "em_posted (ho_embed h) = [PostedTask c t] \<Longrightarrow> smoke_ok h \<Longrightarrow> smoke_ok (host_posted h)"
  by (simp add: host_posted_def smoke_ok_def Let_def posted_keeps)

lemma smoke_ok_answer:
  assumes "smoke.waiting_answer h t" "smoke_ok h" "reply_kind r = call_kind (snd t)"
  shows "smoke_ok (host_answer smoke_callbacks 0 r h)"
proof -
  obtain st' em' where step: "smoke_callbacks (fst t) r (ho_client h) (ho_embed h) = (st', em')" by fastforce
  from assms(1) have h: "session_open (ho_embed h)" "ho_asked h = [t]" "smoke_awaits (ho_client h) t"
    by (auto simp: smoke.waiting_answer_def)
  have new: "host_answer smoke_callbacks 0 r h = \<lparr>ho_client = st', ho_embed = em', ho_asked = []\<rparr>"
    using step h(2) by (simp add: host_answer_def)
  have count: "screenshots (em_accepted (ho_embed h)) = sm_screenshot_attempts (ho_client h)"
    "sm_screenshot_attempts (ho_client h) \<le> kMaxScreenshotAttempts"
    using assms(2) h(1,3) by (auto simp: smoke_ok_def smoke_awaits_def)
  have "smoke_next (ho_client h) t (ho_embed h) st' em'"
    using smoke_acts [OF h(3) assms(3), of "ho_embed h"] step by simp
  then show ?thesis unfolding smoke_next_def
  proof (elim disjE exE conjE)
    assume "em' = browserd_shutdown True True (ho_embed h)"
    moreover from this have "\<not> session_open em'"
      using smoke.shutdown_closes [OF h(1)] by (auto simp: session_open_def session_closed_def)
    ultimately show ?thesis using count by (simp add: new smoke_ok_def shutdown_keeps)
  next
    fix t' assume call: "Schedule True t' (ho_embed h) = (kScheduleOk, em')"
      "sm_screenshot_attempts st' = sm_screenshot_attempts (ho_client h) + (if snd t' = CallScreenshot None then 1 else 0)"
    then have "em_accepted em' = em_accepted (ho_embed h) @ [t'] \<and> session_open em'"
      using h(1) by (cases True t' "ho_embed h" rule: Schedule_cases)
        (auto simp: session_open_def kScheduleOk_def kScheduleRejected_def)
    with call(2) count show ?thesis by (simp add: new smoke_ok_def screenshots_def)
  qed
qed

text \<open>
  The smoke embedder also comes to an end, after at most fourteen steps, with its session shut
  down; and however often taking the screenshot fails it asks for it three times at most.
\<close>

lemma smoke_embedder_ends:
  assumes "fresh_run em" and "(host_step smoke_callbacks ^^ k) (smoke_host gui c em) h"
  shows "k \<le> 14 \<and> screenshots (em_accepted (ho_embed h)) \<le> kMaxScreenshotAttempts \<and>
    ((\<nexists>h'. host_step smoke_callbacks h h') \<longrightarrow> session_closed (ho_embed h))"
proof -
  note start = smoke_start [OF assms(1), of gui c]
  have "smoke_ok h"
  proof (rule smoke.run_keeps [where Q = smoke_ok, OF _ _ assms(2) start(1) start(2)])
  qed (fact smoke_ok_posted, fact smoke_ok_answer)
  with smoke.run_ends [OF assms(2) start(1)] have run: "k \<le> 14" "smoke.in_order (14 - k) h" "smoke_ok h"
    by blast+
  have "session_closed (ho_embed h)" if "\<nexists>h'. host_step smoke_callbacks h h'"
    using that run smoke.can_go_on by (fastforce simp: smoke.over_def)
  moreover have "screenshots (em_accepted (ho_embed h)) \<le> kMaxScreenshotAttempts"
    using run(2,3) unfolding smoke.in_order_def smoke.waiting_posted_def smoke.waiting_answer_def smoke.over_def
    by (auto simp: smoke_ok_def smoke_awaits_def kMaxScreenshotAttempts_def session_open_def session_closed_def split: if_splits)
  ultimately show ?thesis using run(1) by blast
qed

subsection \<open>What they configure\<close>

text \<open>
  The lifecycle embedder starts with no tab and stays when the last one closes, as its scenario
  needs; the smoke embedder gets its first tab from the browser.
\<close>

lemma embedder_configurations:
  "ConfigGuiRuntimeOptions (Some lifecycle_config) = (False, False)" "ConfigRequestsGui (Some lifecycle_config)"
  "ConfigGuiRuntimeOptions (Some (smoke_config gui)) = (True, True)" "ConfigRequestsGui (Some (smoke_config gui)) = gui"
  "length (ConfigSwitches (Some lifecycle_config)) = 1"
  by (cases gui; code_simp)+

subsection \<open>Runs\<close>

fun drive :: "('u, 'c) callbacks \<Rightarrow> reply list \<Rightarrow> ('u, 'c) host \<Rightarrow> ('u, 'c) host" where
  "drive handler [] h = h"
| "drive handler (r # rs) h = drive handler rs (host_answer handler 0 r (host_posted h))"

fun drive_ok :: "('u, 'c) callbacks \<Rightarrow> reply list \<Rightarrow> ('u, 'c) host \<Rightarrow> bool" where
  "drive_ok handler [] h = True"
| "drive_ok handler (r # rs) h =
     (em_posted (ho_embed h) \<noteq> [] \<and> ho_asked (host_posted h) \<noteq> [] \<and>
      reply_kind r = call_kind (snd (hd (ho_asked (host_posted h)))) \<and> reply_wf r \<and>
      drive_ok handler rs (host_answer handler 0 r (host_posted h)))"

lemma drive_steps: "drive_ok handler rs h \<Longrightarrow> (host_step handler ^^ (2 * length rs)) h (drive handler rs h)"
proof (induction rs arbitrary: h)
  case (Cons r rs)
  then have "host_step handler h (host_posted h)"
    "host_step handler (host_posted h) (host_answer handler 0 r (host_posted h))"
    by (auto intro!: host_step.intros simp: hd_conv_nth)
  moreover have "(host_step handler ^^ (2 * length rs)) (host_answer handler 0 r (host_posted h)) (drive handler (r # rs) h)"
    using Cons by simp
  ultimately have "(host_step handler ^^ Suc (Suc (2 * length rs))) h (drive handler (r # rs) h)"
    by (meson relpowp_Suc_I2)
  then show ?case by simp
qed simp

definition fine :: browserd_status where
  "fine = ToCStatus StatusOk"

definition sample_tab :: "string \<Rightarrow> browserd_tab_info" where
  "sample_tab i = \<lparr>ti_target_id = ToCStringView i, ti_title = ToCStringView [], ti_url = ToCStringView []\<rparr>"

definition lifecycle_replies :: "reply list" where
  "lifecycle_replies =
     [TabsReply fine (Some []) 0, TabReply fine (Some (sample_tab ''1'')), StatusReply fine,
      StringReply fine (ToCStringView ''Example Domain''), StatusReply fine, TabsReply fine (Some []) 0,
      TabReply fine (Some (sample_tab ''2'')), StatusReply fine, StringReply fine (ToCStringView ''second'')]"

definition running_embed :: "(string \<times> string) list embed" where
  "running_embed = (new_embed [] (\<lambda>n. None))\<lparr>em_lifecycle := kRunning\<rparr>"

lemma running_fresh: "fresh_run running_embed"
  by (simp add: fresh_run_def running_embed_def new_embed_def)

definition lifecycle_end :: "(LifecycleState, (string \<times> string) list) host" where
  "lifecycle_end = drive lifecycle_callbacks lifecycle_replies (lifecycle_host 7 running_embed)"

lemma lifecycle_drive: "drive_ok lifecycle_callbacks lifecycle_replies (lifecycle_host 7 running_embed)"
  by code_simp

lemma lifecycle_end_completed: "lc_completed (ho_client lifecycle_end)"
  by code_simp

lemma lifecycle_end_run: "(host_step lifecycle_callbacks ^^ 18) (lifecycle_host 7 running_embed) lifecycle_end"
  using drive_steps [OF lifecycle_drive] by (simp add: lifecycle_end_def lifecycle_replies_def del: relpowp.simps)

theorem lifecycle_embedder_ends_witness:
  "(18 :: nat) \<le> 18 \<and> session_closed (ho_embed lifecycle_end)"
proof -
  have "\<nexists>h'. host_step lifecycle_callbacks lifecycle_end h'"
  proof
    assume "\<exists>h'. host_step lifecycle_callbacks lifecycle_end h'"
    then obtain h' where "host_step lifecycle_callbacks lifecycle_end h'" ..
    with lifecycle_end_run have "(host_step lifecycle_callbacks ^^ 19) (lifecycle_host 7 running_embed) h'"
      using relpowp_Suc_I [of 18] by force
    from lifecycle_run [OF this running_fresh] show False by simp
  qed
  with lifecycle_embedder_ends [OF running_fresh lifecycle_end_run] show ?thesis by blast
qed

definition first_run :: "(string \<times> string) list embed" where
  "first_run = snd (browserd_run list_cl ref_names ref_lib (Some lifecycle_config) True (new_embed [] (\<lambda>n. None)))"

definition main_end :: "(LifecycleState, (string \<times> string) list) host" where
  "main_end = drive lifecycle_callbacks lifecycle_replies (lifecycle_host 7 first_run)"

lemma main_drive: "drive_ok lifecycle_callbacks lifecycle_replies (lifecycle_host 7 first_run)"
  by code_simp

lemma main_end_completed: "lc_completed (ho_client main_end)"
  by code_simp

lemma main_end_run: "(host_step lifecycle_callbacks ^^ 18) (lifecycle_host 7 first_run) main_end"
  using drive_steps [OF main_drive] by (simp add: main_end_def lifecycle_replies_def del: relpowp.simps)

theorem lifecycle_verdict_witness:
  "lifecycle_main list_cl ref_names ref_lib 0 (Some True) 0 main_end = 0 \<and>
   em_accepted (ho_embed main_end) = script_of (ho_client main_end)"
  using lifecycle_verdict [OF main_end_run [unfolded first_run_def], of 0 "Some True" 0] main_end_completed by simp

definition smoke_replies :: "reply list" where
  "smoke_replies =
     (let late = \<lparr>c_code = BROWSERD_STATUS_TIMEOUT, c_message = [], c_message_len = 0\<rparr>
      in [StatusReply fine, StringReply fine (ToCStringView ''title''), StringReply fine (ToCStringView ''document''),
          BytesReply late ([], 0), BytesReply late ([], 0), BytesReply late ([], 0)])"

definition smoke_end :: "(SmokeState, (string \<times> string) list) host" where
  "smoke_end = drive smoke_callbacks smoke_replies (smoke_host False 7 running_embed)"

lemma smoke_drive: "drive_ok smoke_callbacks smoke_replies (smoke_host False 7 running_embed)"
  by code_simp

lemma smoke_end_run: "(host_step smoke_callbacks ^^ 12) (smoke_host False 7 running_embed) smoke_end"
  using drive_steps [OF smoke_drive] by (simp add: smoke_end_def smoke_replies_def Let_def del: relpowp.simps)

lemma smoke_embedder_ends_witness:
  "(12 :: nat) \<le> 14 \<and> screenshots (em_accepted (ho_embed smoke_end)) \<le> kMaxScreenshotAttempts"
  using smoke_embedder_ends [OF running_fresh smoke_end_run] by blast

text \<open>
  The smoke program does not note that its scenario completed: a run that ends early without a
  failure, before the browser was ever ready, is a success for it.
\<close>

lemma smoke_passes_untested: "smoke_exit_code 0 (new_smoke gui) = 0"
  by (simp add: smoke_exit_code_def new_smoke_def)

end
