(* ===== verification/Spec2Isabelle.thy ===== *)
theory Spec2Isabelle
  imports Base_Lib Browser_Result Mcp_Server Mcp_Transport Mcp_Http Mcp_Ipc Mcp_Ipc_Win Gui_Runtime Headless_Runtime Chrome_Runtime Interactions Embed App Program Behavior Gui_Shell Content_Main Switches_Test Page_Snapshot Page_Acts Page_Console Embedders
begin

text \<open>
  browserd is a browser built on Chromium's content layer that is driven from outside: over the
  Model Context Protocol (JSON-RPC on standard streams, HTTP or a local socket) by the program, and
  through a C interface when it is embedded. The sources are under \<open>src/browserd\<close>. This
  development models them operation by operation and proves what makes each part correct.

  \<^bold>\<open>The parts and how they interact.\<close> A transport reads messages and posts them to the main
  sequence; the MCP server dispatches them and runs at most one tool at a time; a tool asks the
  browser controller for one operation; the controller works on a page of its runtime (GUI, headless
  or native Chrome) and answers through a callback, often after it returned to the message loop;
  the tool turns the answer into content, the server into a response, and the transport sends it to
  the client it came from. The C interface posts operations to the same controller.

  \<^bold>\<open>Theories.\<close>
  \<^item> \<open>Prelude\<close>, \<open>Json\<close>, \<open>Base_Lib\<close>: C integers, \<open>std\<close> strings, JSON values and
    dictionaries, and the record \<open>base_lib\<close> of the functions of Chromium's \<open>base\<close>,
    \<open>url\<close> and \<open>net\<close> that the program calls. Those are not in the repository: each is a
    field, a theorem names the law it needs (\<open>split_law\<close>, \<open>json_line_law\<close>, \<open>number_law\<close>,
    ...), and \<open>ref_lib\<close> is an executable instance for the witnesses.
  \<^item> \<open>Browser_Result\<close>: \<open>core/browser_result.*\<close>, statuses, results and option structures.
  \<^item> \<open>Mcp_Tool\<close>, \<open>Mcp_Server\<close>: \<open>mcp/mcp_tool.*\<close>, \<open>mcp/mcp_server.*\<close>. The server's
    record has the fields of the class; \<open>srv_bound\<close> holds the completion callbacks that tools kept,
    \<open>srv_sent\<close> the response callbacks that were run. \<open>server_run\<close> is any interleaving of
    messages, completions and changes of the controller.
  \<^item> \<open>Mcp_Transport\<close>, \<open>Mcp_Http\<close>, \<open>Mcp_Ipc\<close>: \<open>mcp/mcp_transport.*\<close>,
    \<open>mcp/mcp_http_transport.*\<close>, \<open>mcp/mcp_ipc_transport.cc\<close>, \<open>mcp/mcp_ipc_transport_posix.cc\<close>.
    Framing is the locale \<open>line_framing\<close>, interpreted on both line loops. The socket transport is a
    machine whose steps are one critical section or one system call of either thread.
  \<^item> \<open>Mcp_Ipc_Win\<close>: \<open>mcp/mcp_ipc_transport_win.cc\<close>, the same machine on named pipes.
  \<^item> \<open>Runtime\<close>, \<open>Gui_Runtime\<close>, \<open>Headless_Runtime\<close>, \<open>Chrome_Runtime\<close>: the virtual
    class \<open>BrowserRuntime\<close> as the locale \<open>tab_runtime\<close>, and \<open>gui/gui_runtime.*\<close>,
    \<open>headless_runtime.*\<close>, \<open>chrome/native_chrome_runtime.*\<close>, which interpret it.
  \<^item> \<open>One_Shot\<close>, \<open>Evaluation\<close>, \<open>Navigation\<close>: the request objects of
    \<open>core/browser_controller.cc\<close> that answer once and delete themselves. What they share is the
    locale \<open>one_shot\<close>; the JavaScript request, the DevTools client, the screenshot request and the
    two waiters interpret it.
  \<^item> \<open>Task\<close>, \<open>Controller\<close>, \<open>Controller_Runtimes\<close>: the operations of the controller.
    An operation that returns to the message loop is a \<open>task\<close>, a tree of what it does and asks;
    \<open>run\<close> executes it while the rest of the program does what it likes in between, and \<open>wp\<close> is
    its weakest precondition; \<open>uses_missing\<close> says that it can come to use a render view or a frame that its page
    does not have by then. \<open>page_owner\<close> is the locale of the runtimes behind a controller.
  \<^item> \<open>Input\<close>, \<open>Interactions\<close>: \<open>core/browser_interactions.cc\<close>, key mapping, mouse paths,
    references, and the click, hover, type, press, select, drag and scroll operations. Floating point
    arithmetic is the record \<open>f64_ops\<close>.
  \<^item> \<open>Behavior\<close>: the simulated mouse of \<open>core/browser_controller.cc\<close>.
  \<^item> \<open>Switches\<close>, \<open>User_Data_Dir\<close>: \<open>embedder_switches.*\<close>, \<open>switches.h\<close>,
    \<open>startup/browserd_main.cc\<close>, \<open>main.cc\<close>, and \<open>user_data_dir.cc\<close>. The command line and the file
    system are records of the calls made, with the laws of their documentation.
  \<^item> \<open>Gui_Shell\<close>: what stands around the GUI runtime: \<open>gui/browser_main_parts.cc\<close>,
    \<open>gui/content_browser_client.cc\<close>, \<open>gui/gui_window_aura.cc\<close>, \<open>gui/aura_context.cc\<close>,
    \<open>gui/fill_layout.cc\<close> and their counterparts under \<open>chrome\<close>.
  \<^item> \<open>Content_Main\<close>: \<open>gui/main_delegate.cc\<close>, \<open>gui/browser_context.cc\<close>,
    \<open>chrome/browserd_chrome_main_delegate.cc\<close> and the clients, the chain from \<open>ContentMain\<close> to the
    runtime. What both fronts hand on is the locale \<open>hand_over\<close>.
  \<^item> \<open>Switches_Test\<close>: \<open>embedder_switches_test.cc\<close>, the repository's own test over the model.
  \<^item> \<open>Embed_Calls\<close>, \<open>Embed\<close>: \<open>embed/browserd_embed.*\<close>, the C interface.
  \<^item> \<open>Tool_Handlers\<close>, \<open>Tools\<close>: \<open>mcp/tools/*.cc\<close>, every tool and its registration.
  \<^item> \<open>App\<close>: \<open>app.*\<close>, the program that starts the transports.
  \<^item> \<open>Page_Snapshot\<close>, \<open>Page_Acts\<close>, \<open>Page_Console\<close>: the scripts the program runs in a
    page. The first is the DOM snapshot of \<open>core/browser_controller.cc\<close>, on a page given as a tree of
    elements; the second the scripts of \<open>core/browser_interactions.cc\<close> that find an element by its
    reference and act on it; the third the console capture and the canvas screenshot, the latter a
    \<open>one_shot\<close> as well.
  \<^item> \<open>Embedders\<close>: the two example programs \<open>embed/browserd_embed_lifecycle_smoke.cc\<close> and
    \<open>embed/browserd_embed_smoke.cc\<close>, chains of callbacks against the C interface, as
    interpretations of the locale \<open>embedder\<close>.
  \<^item> \<open>Program\<close>: the server with its three transports, from that start, as one system of threads;
    every callback knows the client its message came from.

  \<^bold>\<open>What the lemmas show.\<close> The server answers every message once, in order for the tools, with
  the id it came with; messages survive framing whatever the chunks; the socket transport sends an
  answer only to the connection that asked and accounts for its descriptors; HTTP accepts only
  authorised requests and answers each at most once; the runtimes keep their tabs consistent; every
  request object answers exactly once; the controller's operations on tabs, pages and cookies never crash
  and answer well-formed results, under the conditions stated; the input operations never use a missing view or frame, but can
  crash when their tab is closed in between; what they send; the C interface loses no
  accepted call except by a shutdown, and checks its arguments; the tools answer content and their
  schemas agree with what they insist on; a snapshot lists the elements in order under numbers with which the
  later scripts act on the same elements and on no other; what typing leaves in a field, given what the browser makes of the
  text of one (\<open>field_law\<close>); the console keeps the last messages; the example programs
  end and their exit code is the verdict; the runtime is handed out at most once whatever Chromium asks, and
  the repository's test of the switches passes for every lawful command line; the program starts exactly the transports it was asked for;
  and the whole of it, three transports around one server, answers every message of every client, since what is pending
  always runs out and leaves nothing unanswered, each
  answer to its own client and, over HTTP, only to one that showed the token.
  Several theorems show defects: they are the findings of the manifest.

  \<^bold>\<open>Bounds.\<close> Loops of the code are structural recursion, except the tool loop of the server
  (\<open>function\<close> with a measure) and the operations that wait, which are finite trees; none has fuel.
  An operation that may never answer is one whose run is \<open>Pending\<close>. C integers have their width;
  overflow of \<open>int\<close> is \<open>None\<close> of the checked operations and ends in \<open>Undefined\<close>.

  \<^bold>\<open>Not modelled.\<close> The code that only subclasses or calls Chromium: \<open>gui/content_client.cc\<close>
  and \<open>gui/content_renderer_client.cc\<close>, and what Chromium's focus controller and screen do; the windows
  and setup of macOS; the crash signal handler, the help text, log messages. \<open>Controller\<close> and \<open>Interactions\<close>
  take the answer of a page script as an argument, since a page may answer anything; what the scripts
  compute on a page is in \<open>Page_Snapshot\<close>, \<open>Page_Acts\<close> and \<open>Page_Console\<close>. Of code with branches per platform the Linux one is modelled, except that
  the socket transport is modelled for POSIX and for Windows.
\<close>

end
